theory Spec2Isabelle
  imports Complex_Main "HOL-Library.Char_ord" "HOL-Library.List_Lexorder" "HOL-Library.Multiset"
begin

section \<open>Python strings\<close>

text \<open>
  A Python \<open>str\<close> is modelled as a HOL \<open>string\<close>. A HOL character has eight bits and is
  read as the code point of the same number, so the model covers the texts whose code
  points are below 256. On these, \<open>str.isspace\<close> (used by \<open>strip\<close>, by \<open>split\<close> and by the
  class \<open>\s\<close> of \<open>re\<close>) holds for the twelve code points of \<open>isspace\<close>, the class \<open>\d\<close> is
  the ten digits, and \<open>splitlines\<close> breaks at the eight code points of \<open>islinebreak\<close> (and
  at the pair CR LF). Strings are ordered as Python orders them: lexicographically by
  code point, a proper prefix first.
\<close>

definition isspace :: "char \<Rightarrow> bool" where
  "isspace c = ((of_char c :: nat) \<in> {9, 10, 11, 12, 13, 28, 29, 30, 31, 32, 133, 160})"

definition isdigit :: "char \<Rightarrow> bool" where
  "isdigit c = (48 \<le> (of_char c :: nat) \<and> (of_char c :: nat) \<le> 57)"

definition islinebreak :: "char \<Rightarrow> bool" where
  "islinebreak c = ((of_char c :: nat) \<in> {10, 11, 12, 13, 28, 29, 30, 133})"

text \<open>\<open>s.strip()\<close>: white space removed at both ends.\<close>

definition strip :: "string \<Rightarrow> string" where
  "strip s = rev (dropWhile isspace (rev (dropWhile isspace s)))"

text \<open>
  \<open>s.splitlines()\<close>: the lines of \<open>s\<close> without their line breaks; a line break at the very
  end opens no further line. \<open>cur\<close> holds the current line, reversed.
\<close>

fun splitlines_from :: "string \<Rightarrow> string \<Rightarrow> string list" where
  "splitlines_from cur [] = (if cur = [] then [] else [rev cur])"
| "splitlines_from cur [c] =
     (if islinebreak c then [rev cur] else [rev (c # cur)])"
| "splitlines_from cur (c # d # cs) =
     (if c = CHR 0x0D \<and> d = CHR 0x0A then rev cur # splitlines_from [] cs
      else if islinebreak c then rev cur # splitlines_from [] (d # cs)
      else splitlines_from (c # cur) (d # cs))"

definition splitlines :: "string \<Rightarrow> string list" where
  "splitlines s = splitlines_from [] s"

text \<open>
  \<open>s.split()\<close>: the maximal runs of characters that are not white space. \<open>cur\<close> holds the
  current run, reversed.
\<close>

fun split_from :: "string \<Rightarrow> string \<Rightarrow> string list" where
  "split_from cur [] = (if cur = [] then [] else [rev cur])"
| "split_from cur (c # cs) =
     (if isspace c then (if cur = [] then split_from [] cs else rev cur # split_from [] cs)
      else split_from (c # cur) cs)"

definition split_ws :: "string \<Rightarrow> string list" where
  "split_ws s = split_from [] s"

text \<open>
  \<open>s.lower()\<close> on code points below 256: the letters A to Z and the capital letters of
  Latin-1 (0xC0 to 0xDE, the multiplication sign 0xD7 apart) move up by 32.
\<close>

definition lower_char :: "char \<Rightarrow> char" where
  "lower_char c =
     (let n = (of_char c :: nat)
      in if (65 \<le> n \<and> n \<le> 90) \<or> (192 \<le> n \<and> n \<le> 222 \<and> n \<noteq> 215)
         then char_of (n + 32) else c)"

definition lower :: "string \<Rightarrow> string" where
  "lower s = map lower_char s"

text \<open>\<open>s.startswith("#")\<close>.\<close>

definition startswith_hash :: "string \<Rightarrow> bool" where
  "startswith_hash s = (case s of [] \<Rightarrow> False | c # _ \<Rightarrow> c = CHR ''#'')"

text \<open>
  \<open>int(s)\<close> on a string of decimal digits is its value in base ten; \<open>str(n)\<close>, which the
  f-strings use, writes an integer in base ten with no leading zero and a minus sign
  when it is negative.
\<close>

definition digit_val :: "char \<Rightarrow> nat" where
  "digit_val c = of_char c - 48"

definition digits_value :: "string \<Rightarrow> nat" where
  "digits_value s = foldl (\<lambda>acc c. 10 * acc + digit_val c) 0 s"

definition digit_char :: "nat \<Rightarrow> char" where
  "digit_char d = ''0123456789'' ! d"

function str_nat :: "nat \<Rightarrow> string" where
  "str_nat n = (if n < 10 then [digit_char n] else str_nat (n div 10) @ [digit_char (n mod 10)])"
  by pat_completeness auto
termination
  by (relation "measure id") auto

declare str_nat.simps [simp del]

definition str_int :: "int \<Rightarrow> string" where
  "str_int i = (if i < 0 then CHR ''-'' # str_nat (nat (- i)) else str_nat (nat i))"

text \<open>
  \<open>int(s)\<close> on any string: white space is stripped, one sign is allowed, and the rest is
  decimal digits, where single underscores may stand between digits. Everything else
  raises \<open>ValueError\<close>, here \<open>None\<close>. The white space of \<open>int\<close> is not that of
  \<open>str.strip\<close>: the number is read after the ASCII white space (tab, line feed, vertical
  tab, form feed, carriage return, blank) at its two ends is skipped, and before that a
  code point above 127 that is white space (here 133 and 160) is turned into a blank.
  The separators 28 to 31 are neither, so \<open>int\<close> does not accept them. (The limit that
  recent interpreters put on the number of digits, 4300 by default, is left out: a port
  of the candidate parser has at most five.)
\<close>

definition int_space :: "char \<Rightarrow> bool" where
  "int_space c = ((of_char c :: nat) \<in> {9, 10, 11, 12, 13, 32, 133, 160})"

definition int_strip :: "string \<Rightarrow> string" where
  "int_strip s = rev (dropWhile int_space (rev (dropWhile int_space s)))"

fun int_body_ok :: "string \<Rightarrow> bool" where
  "int_body_ok [] = False"
| "int_body_ok [c] = isdigit c"
| "int_body_ok (c # d # cs) =
     (isdigit c \<and> (if d = CHR ''_'' then int_body_ok cs else int_body_ok (d # cs)))"

definition py_int :: "string \<Rightarrow> int option" where
  "py_int s =
     (let t = int_strip s;
          neg = (case t of [] \<Rightarrow> False | c # _ \<Rightarrow> c = CHR ''-'');
          body = (case t of [] \<Rightarrow> []
                  | c # r \<Rightarrow> if c = CHR ''-'' \<or> c = CHR ''+'' then r else t)
      in if int_body_ok body
         then (let v = int (digits_value (filter (\<lambda>c. c \<noteq> CHR ''_'') body))
               in Some (if neg then - v else v))
         else None)"

section \<open>The candidate parser\<close>

text \<open>
  \<open>PROXY_RE\<close> is
  \<^verbatim>\<open>^\s*(?P<host>\d{1,3}(?:\.\d{1,3}){3})\s*:\s*(?P<port>\d{2,5})\s*$\<close>.
  Each piece of the pattern is followed by a piece that starts with a character of
  another class (a digit run by a dot, by white space, by a colon or by the end; a run of
  white space by a digit, by a colon or by the end), so the greedy choice is the only
  one that can lead to a match, and the matcher below takes it: \<open>digit_run lo hi\<close> is
  \<open>\d{lo,hi}\<close>, \<open>literal c\<close> is one character, \<open>dropWhile isspace\<close> is \<open>\s*\<close>. The final
  \<open>$\<close> matches at the end of the line or before a line break that ends it; that line
  break is white space, which \<open>\s*\<close> has taken already.
\<close>

definition digit_run :: "nat \<Rightarrow> nat \<Rightarrow> string \<Rightarrow> (string \<times> string) option" where
  "digit_run lo hi s =
     (let ds = takeWhile isdigit (take hi s)
      in if lo \<le> length ds then Some (ds, drop (length ds) s) else None)"

definition literal :: "char \<Rightarrow> string \<Rightarrow> string option" where
  "literal c s = (case s of [] \<Rightarrow> None | x # r \<Rightarrow> if x = c then Some r else None)"

text \<open>\<open>\.\d{1,3}\<close>, the group that the host repeats three times.\<close>

definition dot_octet :: "string \<Rightarrow> (string \<times> string) option" where
  "dot_octet s =
     (case literal CHR ''.'' s of None \<Rightarrow> None
      | Some r \<Rightarrow> (case digit_run 1 3 r of None \<Rightarrow> None
                  | Some (ds, r') \<Rightarrow> Some (CHR ''.'' # ds, r')))"

text \<open>The group \<open>host\<close>: \<open>\d{1,3}(?:\.\d{1,3}){3}\<close>.\<close>

definition host_group :: "string \<Rightarrow> (string \<times> string) option" where
  "host_group s =
     (case digit_run 1 3 s of None \<Rightarrow> None
      | Some (a, r1) \<Rightarrow> (case dot_octet r1 of None \<Rightarrow> None
      | Some (b, r2) \<Rightarrow> (case dot_octet r2 of None \<Rightarrow> None
      | Some (c, r3) \<Rightarrow> (case dot_octet r3 of None \<Rightarrow> None
      | Some (d, r4) \<Rightarrow> Some (a @ b @ c @ d, r4)))))"

text \<open>\<open>PROXY_RE.match(line)\<close>: the groups \<open>host\<close> and \<open>port\<close> of the match, if there is one.\<close>

definition PROXY_RE_match :: "string \<Rightarrow> (string \<times> string) option" where
  "PROXY_RE_match line =
     (case host_group (dropWhile isspace line) of None \<Rightarrow> None
      | Some (h, r1) \<Rightarrow> (case literal CHR '':'' (dropWhile isspace r1) of None \<Rightarrow> None
      | Some r2 \<Rightarrow> (case digit_run 2 5 (dropWhile isspace r2) of None \<Rightarrow> None
      | Some (p, r3) \<Rightarrow> if dropWhile isspace r3 = [] then Some (h, p) else None)))"

text \<open>
  What the pattern says, piece by piece: \<open>line\<close> is white space, the host, white space,
  a colon, white space, the port and white space, where the host is four runs of one to
  three digits with dots between them and the port is two to five digits. The matcher
  above is shown below to find the groups \<open>h\<close> and \<open>p\<close> exactly when the line can be cut
  this way.
\<close>

definition octet :: "string \<Rightarrow> bool" where
  "octet ds = (1 \<le> length ds \<and> length ds \<le> 3 \<and> list_all isdigit ds)"

definition PROXY_RE_cut :: "string \<Rightarrow> string \<Rightarrow> string \<Rightarrow> bool" where
  "PROXY_RE_cut line h p =
     (\<exists>a b c d o1 o2 o3 o4.
        line = a @ h @ b @ '':'' @ c @ p @ d \<and>
        list_all isspace a \<and> list_all isspace b \<and> list_all isspace c \<and> list_all isspace d \<and>
        h = o1 @ ''.'' @ o2 @ ''.'' @ o3 @ ''.'' @ o4 \<and>
        octet o1 \<and> octet o2 \<and> octet o3 \<and> octet o4 \<and>
        list_all isdigit p \<and> 2 \<le> length p \<and> length p \<le> 5)"

text \<open>
  The body of the loop of \<open>parse_candidates\<close>, for one line of the text: the candidate
  the line adds to \<open>out\<close>, if it adds one.
\<close>

definition parse_line :: "string \<Rightarrow> string option" where
  "parse_line raw =
     (let line = strip raw
      in if line = [] \<or> startswith_hash line then None
         else (case PROXY_RE_match line of None \<Rightarrow> None
               | Some (h, p) \<Rightarrow>
                   (let port = digits_value p
                    in if 1 \<le> port \<and> port \<le> 65535
                       then Some (h @ '':'' @ str_nat port) else None)))"

definition parse_candidates :: "string \<Rightarrow> string list" where
  "parse_candidates text = List.map_filter parse_line (splitlines text)"

section \<open>Proxies\<close>

datatype error = FileNotFoundError | IndexError | ValueError | ClientError

datatype proxy_type = Http | Socks4 | Socks5

record proxy =
  ptype :: proxy_type
  host :: string
  port :: int

definition hostport :: "proxy \<Rightarrow> string" where
  "hostport p = host p @ '':'' @ str_int (port p)"

definition url :: "proxy \<Rightarrow> string" where
  "url p =
     (case ptype p of Http \<Rightarrow> ''http://'' | Socks4 \<Rightarrow> ''socks4://'' | Socks5 \<Rightarrow> ''socks5://'')
     @ host p @ '':'' @ str_int (port p)"

text \<open>
  \<open>host, port_s = hp.split(":", 1)\<close>: the text before the first colon and the text after
  it; without a colon the unpacking raises \<open>ValueError\<close>, here \<open>None\<close>.
\<close>

definition split_colon :: "string \<Rightarrow> (string \<times> string) option" where
  "split_colon hp =
     (if CHR '':'' \<in> set hp
      then Some (takeWhile (\<lambda>c. c \<noteq> CHR '':'') hp, tl (dropWhile (\<lambda>c. c \<noteq> CHR '':'') hp))
      else None)"

fun to_proxies :: "proxy_type \<Rightarrow> string list \<Rightarrow> error + proxy list" where
  "to_proxies t [] = Inr []"
| "to_proxies t (hp # hps) =
     (case split_colon hp of None \<Rightarrow> Inl ValueError
      | Some (h, port_s) \<Rightarrow>
          (case py_int port_s of None \<Rightarrow> Inl ValueError
           | Some n \<Rightarrow>
               (case to_proxies t hps of Inl e \<Rightarrow> Inl e
                | Inr ps \<Rightarrow> Inr (\<lparr>ptype = t, host = h, port = n\<rparr> # ps))))"

section \<open>Scraping the sources\<close>

text \<open>
  The body of the loop of \<open>read_sources\<close>, for one line of the file: \<open>Inr None\<close> when the
  line is skipped, \<open>Inr (Some (url, typ))\<close> when it gives an item, and \<open>IndexError\<close>
  where \<open>parts[0]\<close> would find no part.
\<close>

definition source_item :: "string \<Rightarrow> error + (string \<times> string) option" where
  "source_item raw =
     (let line = strip raw
      in if line = [] \<or> startswith_hash line then Inr None
         else (case split_ws line of [] \<Rightarrow> Inl IndexError
               | u # rest \<Rightarrow>
                   Inr (Some (u, case rest of [] \<Rightarrow> ''mixed'' | t # _ \<Rightarrow> lower t))))"

fun source_items :: "string list \<Rightarrow> error + (string \<times> string) list" where
  "source_items [] = Inr []"
| "source_items (raw # raws) =
     (case source_item raw of Inl e \<Rightarrow> Inl e
      | Inr it \<Rightarrow>
          (case source_items raws of Inl e \<Rightarrow> Inl e
           | Inr items \<Rightarrow> Inr (case it of None \<Rightarrow> items | Some x \<Rightarrow> x # items)))"

text \<open>
  \<open>read_sources(path)\<close>: the file system is the argument, \<open>None\<close> when the file does not
  exist (\<open>read_text\<close> raises \<open>FileNotFoundError\<close>), its text otherwise.
\<close>

definition read_sources :: "string option \<Rightarrow> error + (string \<times> string) list" where
  "read_sources file =
     (case file of None \<Rightarrow> Inl FileNotFoundError
      | Some text \<Rightarrow> source_items (splitlines text))"

record scraped =
  forward :: "string set"
  socks4 :: "string set"
  socks5 :: "string set"

text \<open>
  The body of the second loop of \<open>scrape_all_sources\<close>, for one source. \<open>fetch\<close> is
  \<open>fetch_text\<close> through the network: \<open>None\<close> when the task raised (the source is then
  skipped), the text of the response otherwise. The keys of \<open>results\<close> are \<open>forward\<close>,
  \<open>socks4\<close> and \<open>socks5\<close>.
\<close>

definition add_source :: "(string \<Rightarrow> string option) \<Rightarrow> scraped \<Rightarrow> string \<times> string \<Rightarrow> scraped" where
  "add_source fetch results item =
     (case fetch (fst item) of None \<Rightarrow> results
      | Some text \<Rightarrow>
          (let candidates = parse_candidates text; typ = snd item
           in if typ \<in> {''http'', ''https'', ''mixed''}
              then results\<lparr>forward := forward results \<union> set candidates\<rparr>
              else if typ = ''forward''
              then results\<lparr>forward := forward results \<union> set candidates\<rparr>
              else if typ = ''socks4''
              then results\<lparr>socks4 := socks4 results \<union> set candidates\<rparr>
              else if typ = ''socks5''
              then results\<lparr>socks5 := socks5 results \<union> set candidates\<rparr>
              else results))"

definition scrape_all_sources ::
  "string option \<Rightarrow> (string \<Rightarrow> string option) \<Rightarrow> error + scraped" where
  "scrape_all_sources file fetch =
     (case read_sources file of Inl e \<Rightarrow> Inl e
      | Inr sources \<Rightarrow>
          Inr (foldl (add_source fetch) \<lparr>forward = {}, socks4 = {}, socks5 = {}\<rparr> sources))"

section \<open>The network and the probes\<close>

text \<open>
  The network is the environment of a probe. One request through a proxy either raises
  (connection refused, timeout, TLS or protocol failure: \<open>Failure\<close>) or is answered with
  a status code, and then reading the body either completes (\<open>True\<close>) or raises; and it
  takes some time, in seconds. With the positive timeout of the configuration every
  request ends, one that hangs by raising when the timeout is over. A run probes each
  proxy once, so the network of a run is a function of the timeout, the proxy and the
  test URL.

  The clock of \<open>time.perf_counter\<close>, the sessions created so far and the requests issued
  so far are the state a probe passes along. The clock moves only while a request is
  awaited, and its readings are real numbers.
\<close>

datatype test_url = TEST_URL_HTTP | TEST_URL_HTTPS

datatype reply = Failure | Response int bool

record attempt =
  answer :: reply
  took :: real

type_synonym network = "real \<Rightarrow> proxy \<Rightarrow> test_url \<Rightarrow> attempt"

record request =
  session :: nat
  target :: test_url
  issued :: real

record io =
  clock :: real
  sessions :: nat
  requests :: "request list"

text \<open>\<open>aiohttp.ClientSession(...)\<close>: a session that no earlier code holds.\<close>

definition ClientSession :: "io \<Rightarrow> nat \<times> io" where
  "ClientSession w = (sessions w, w\<lparr>sessions := Suc (sessions w)\<rparr>)"

text \<open>\<open>session.get(url)\<close>, awaited to its end.\<close>

definition session_get :: "attempt \<Rightarrow> nat \<Rightarrow> test_url \<Rightarrow> io \<Rightarrow> reply \<times> io" where
  "session_get a s u w =
     (answer a,
      w\<lparr>clock := clock w + took a,
        requests := requests w @ [\<lparr>session = s, target = u, issued = clock w\<rparr>]\<rparr>)"

definition check_via_proxy :: "attempt \<Rightarrow> nat \<Rightarrow> test_url \<Rightarrow> io \<Rightarrow> (error + bool) \<times> io" where
  "check_via_proxy a s u w =
     (let (r, w') = session_get a s u w
      in (case r of Failure \<Rightarrow> Inl ClientError
          | Response status body_read \<Rightarrow>
              if status \<ge> 400 then Inr False
              else if body_read then Inr True else Inl ClientError,
          w'))"

definition check_forward_proxy ::
  "network \<Rightarrow> proxy \<Rightarrow> real \<Rightarrow> io \<Rightarrow> (real option \<times> real option) \<times> io" where
  "check_forward_proxy nw p timeout_s w0 =
     (let (s, w1) = ClientSession w0;
          start = clock w1;
          (r1, w2) = check_via_proxy (nw timeout_s p TEST_URL_HTTP) s TEST_URL_HTTP w1;
          http_ms = (case r1 of Inr True \<Rightarrow> Some ((clock w2 - start) * 1000) | _ \<Rightarrow> None);
          start2 = clock w2;
          (r2, w3) = check_via_proxy (nw timeout_s p TEST_URL_HTTPS) s TEST_URL_HTTPS w2;
          https_ms = (case r2 of Inr True \<Rightarrow> Some ((clock w3 - start2) * 1000) | _ \<Rightarrow> None)
      in ((http_ms, https_ms), w3))"

text \<open>
  An attempt succeeds when it is answered with a status below 400 and the body is read
  to its end.
\<close>

definition succeeded :: "attempt \<Rightarrow> bool" where
  "succeeded a =
     (case answer a of Failure \<Rightarrow> False | Response status body_read \<Rightarrow> status < 400 \<and> body_read)"

text \<open>
  \<open>check_socks\<close> is in two parts. The first statement that can raise is
  \<open>ProxyConnector.from_url(proxy.url, rdns=True)\<close>, which stands before the session
  and outside every \<open>try\<close>: it parses the URL of the proxy and raises \<open>ValueError\<close>
  when the URL has no host or when its port is not a decimal number from 0 to 65535.
  Nothing is awaited before it, and what it raises leaves \<open>check_socks\<close>. \<open>from_url\<close> is
  the exception it raises, if any. (The host of a proxy of a run is made of digits and
  dots, as the candidate parser emits it; what the parsing of a URL makes of other
  characters is not modelled.)
\<close>

definition from_url :: "proxy \<Rightarrow> error option" where
  "from_url p =
     (if host p \<noteq> [] \<and> 0 \<le> port p \<and> port p \<le> 65535 then None else Some ValueError)"

text \<open>
  The second part is \<open>check_socks\<close> from the session on, when the connector has been
  built: the loop over the test URLs that are still to be tried, and the session and
  the timer before it. A task of \<open>validate_socks\<close> runs the first part when it starts
  and, unless that raised, this second part.
\<close>

fun socks_attempts ::
  "network \<Rightarrow> proxy \<Rightarrow> real \<Rightarrow> nat \<Rightarrow> real \<Rightarrow> test_url list \<Rightarrow> io \<Rightarrow> real option \<times> io" where
  "socks_attempts nw p timeout_s s start [] w = (None, w)"
| "socks_attempts nw p timeout_s s start (u # us) w =
     (let (r, w') = session_get (nw timeout_s p u) s u w
      in case r of Failure \<Rightarrow> socks_attempts nw p timeout_s s start us w'
         | Response status body_read \<Rightarrow>
             if status \<ge> 400 then socks_attempts nw p timeout_s s start us w'
             else if body_read then (Some ((clock w' - start) * 1000), w')
             else socks_attempts nw p timeout_s s start us w')"

definition check_socks :: "network \<Rightarrow> proxy \<Rightarrow> real \<Rightarrow> io \<Rightarrow> real option \<times> io" where
  "check_socks nw p timeout_s w0 =
     (let (s, w1) = ClientSession w0;
          start = clock w1
      in socks_attempts nw p timeout_s s start [TEST_URL_HTTPS, TEST_URL_HTTP] w1)"

section \<open>The bounded validators\<close>

text \<open>
  \<open>asyncio.gather\<close> runs one task \<open>run_one(p)\<close> for each proxy, and the tasks interleave
  where they await. A task has two steps that other tasks can see. \<open>Enter i\<close>: task \<open>i\<close>
  passes \<open>async with sem\<close>, which needs a positive counter and lowers it by one, and
  starts its probe. \<open>Leave i\<close>: the probe of task \<open>i\<close> has returned; the task appends its
  outcomes and leaves the \<open>async with\<close> block, which raises the counter by one (nothing
  is awaited in between, so this is one step). An execution is a list of such events,
  each possible in the state it meets; the environment (the network and the event
  loop) chooses it. \<open>body i\<close> is what task \<open>i\<close> does to the shared lists when it leaves.

  \<open>prelude i\<close> is the exception that the probe of task \<open>i\<close> raises before it awaits
  anything, if it raises one. Then the task is over in the step in which it enters: the
  exception leaves the \<open>async with\<close> block, which gives the counter back, and the task,
  and \<open>gather\<close> passes the first exception of a task on to the code that awaits it. What
  the other tasks do after that has no effect on what the validator comes to, so an
  execution is read up to the first task that raises.
\<close>

datatype event = Enter nat | Leave nat

record 'a tasks =
  sem :: nat
  waiting :: "nat list"
  running :: "nat list"
  shared :: 'a

fun fire ::
  "(nat \<Rightarrow> error option) \<Rightarrow> (nat \<Rightarrow> 'a \<Rightarrow> 'a) \<Rightarrow> event \<Rightarrow> 'a tasks \<Rightarrow> (error + 'a tasks) option" where
  "fire prelude body (Enter i) s =
     (if i \<in> set (waiting s) \<and> 0 < sem s
      then (case prelude i of Some e \<Rightarrow> Some (Inl e)
            | None \<Rightarrow>
                Some (Inr (s\<lparr>sem := sem s - 1, waiting := remove1 i (waiting s),
                              running := i # running s\<rparr>)))
      else None)"
| "fire prelude body (Leave i) s =
     (if i \<in> set (running s)
      then Some (Inr (s\<lparr>running := remove1 i (running s), shared := body i (shared s),
                         sem := sem s + 1\<rparr>))
      else None)"

fun run_events ::
  "(nat \<Rightarrow> error option) \<Rightarrow> (nat \<Rightarrow> 'a \<Rightarrow> 'a) \<Rightarrow> event list \<Rightarrow> 'a tasks \<Rightarrow> (error + 'a tasks) option" where
  "run_events prelude body [] s = Some (Inr s)"
| "run_events prelude body (e # es) s =
     (case fire prelude body e s of None \<Rightarrow> None
      | Some (Inl err) \<Rightarrow> Some (Inl err)
      | Some (Inr s') \<Rightarrow> run_events prelude body es s')"

text \<open>
  What a call can come to: it returns a value, it raises, it never returns (\<open>Hangs\<close>), or
  the events given are not a whole execution of it (\<open>NotARun\<close>: an event is not possible
  where it stands, or the list stops while a task can still take a step).
\<close>

datatype 'a run = Returns 'a | Raises error | Hangs | NotARun

definition bind_run :: "'a run \<Rightarrow> ('a \<Rightarrow> 'b run) \<Rightarrow> 'b run" where
  "bind_run r f =
     (case r of Returns x \<Rightarrow> f x | Raises e \<Rightarrow> Raises e | Hangs \<Rightarrow> Hangs | NotARun \<Rightarrow> NotARun)"

text \<open>\<open>asyncio.Semaphore(value)\<close> raises \<open>ValueError\<close> for a negative value.\<close>

definition Semaphore :: "int \<Rightarrow> error + nat" where
  "Semaphore v = (if v < 0 then Inl ValueError else Inr (nat v))"

text \<open>
  \<open>await asyncio.gather(*(run_one(p) for p in proxies))\<close> with \<open>n\<close> tasks: it raises what
  the first task that raises has raised; it returns when every task has left; when
  tasks wait, none runs and the counter is zero, no step is possible and it never
  returns.
\<close>

definition initial :: "nat \<Rightarrow> nat \<Rightarrow> 'a \<Rightarrow> 'a tasks" where
  "initial c n a = \<lparr>sem = c, waiting = [0..<n], running = [], shared = a\<rparr>"

definition gather ::
  "(nat \<Rightarrow> error option) \<Rightarrow> (nat \<Rightarrow> 'a \<Rightarrow> 'a) \<Rightarrow> nat \<Rightarrow> nat \<Rightarrow> 'a \<Rightarrow> event list \<Rightarrow> 'a run" where
  "gather prelude body c n a sched =
     (case run_events prelude body sched (initial c n a) of None \<Rightarrow> NotARun
      | Some (Inl e) \<Rightarrow> Raises e
      | Some (Inr s) \<Rightarrow>
          if running s \<noteq> [] then NotARun
          else if waiting s = [] then Returns (shared s)
          else if sem s = 0 then Hangs
          else NotARun)"

text \<open>
  The task \<open>run_one\<close> of \<open>validate_socks\<close>. When it enters it calls \<open>check_socks\<close>, which
  builds the connector at once (\<open>socks_prelude\<close>); the rest of the probe starts from the
  state \<open>bt p\<close> that the environment has reached by then, and when it has returned the
  task appends its outcome (\<open>socks_run_one\<close>).
\<close>

definition socks_prelude :: "proxy list \<Rightarrow> nat \<Rightarrow> error option" where
  "socks_prelude proxies i = from_url (proxies ! i)"

definition socks_run_one ::
  "network \<Rightarrow> (proxy \<Rightarrow> io) \<Rightarrow> proxy list \<Rightarrow> real \<Rightarrow> nat \<Rightarrow> (proxy \<times> real) list \<Rightarrow> (proxy \<times> real) list" where
  "socks_run_one nw bt proxies timeout_s i ok =
     (let p = proxies ! i
      in case fst (check_socks nw p timeout_s (bt p)) of None \<Rightarrow> ok
         | Some ms \<Rightarrow> ok @ [(p, ms)])"

definition validate_socks ::
  "network \<Rightarrow> (proxy \<Rightarrow> io) \<Rightarrow> event list \<Rightarrow> proxy list \<Rightarrow> real \<Rightarrow> int \<Rightarrow> (proxy \<times> real) list run" where
  "validate_socks nw bt sched proxies timeout_s concurrency =
     (case Semaphore concurrency of Inl e \<Rightarrow> Raises e
      | Inr c \<Rightarrow>
          bind_run (gather (socks_prelude proxies) (socks_run_one nw bt proxies timeout_s) c
                      (length proxies) [] sched)
            (\<lambda>ok. Returns (sort_key snd ok)))"

text \<open>
  The task \<open>run_one\<close> of \<open>validate_forward\<close>. \<open>check_forward_proxy\<close> raises nothing before
  its session: the URL of the proxy is first read inside \<open>session.get\<close>, under the \<open>try\<close>
  of the attempt (\<open>forward_prelude\<close>).
\<close>

definition forward_prelude :: "proxy list \<Rightarrow> nat \<Rightarrow> error option" where
  "forward_prelude proxies i = None"

definition forward_run_one ::
  "network \<Rightarrow> (proxy \<Rightarrow> io) \<Rightarrow> proxy list \<Rightarrow> real \<Rightarrow> nat \<Rightarrow>
     (string \<times> real) list \<times> (string \<times> real) list \<Rightarrow> (string \<times> real) list \<times> (string \<times> real) list" where
  "forward_run_one nw bt proxies timeout_s i oks =
     (let p = proxies ! i;
          (http_ms, https_ms) = fst (check_forward_proxy nw p timeout_s (bt p));
          http_ok = (case http_ms of None \<Rightarrow> fst oks | Some ms \<Rightarrow> fst oks @ [(hostport p, ms)]);
          https_ok = (case https_ms of None \<Rightarrow> snd oks | Some ms \<Rightarrow> snd oks @ [(hostport p, ms)])
      in (http_ok, https_ok))"

text \<open>
  \<open>validate_forward\<close> returns the two lists and the dictionary of counts, here the pair
  of \<open>len(http_ok)\<close> and \<open>len(https_ok)\<close>.
\<close>

definition validate_forward ::
  "network \<Rightarrow> (proxy \<Rightarrow> io) \<Rightarrow> event list \<Rightarrow> proxy list \<Rightarrow> real \<Rightarrow> int \<Rightarrow>
     (string list \<times> string list \<times> nat \<times> nat) run" where
  "validate_forward nw bt sched proxies timeout_s concurrency =
     (case Semaphore concurrency of Inl e \<Rightarrow> Raises e
      | Inr c \<Rightarrow>
          bind_run (gather (forward_prelude proxies) (forward_run_one nw bt proxies timeout_s) c
                      (length proxies) ([], []) sched)
            (\<lambda>oks. let http_ok = sort_key snd (fst oks); https_ok = sort_key snd (snd oks)
                   in Returns (map fst http_ok, map fst https_ok, length http_ok, length https_ok)))"

section \<open>The run\<close>

record config =
  DEFAULT_TIMEOUT_SEC :: real
  CONCURRENCY :: int
  MAX_PER_TYPE :: int

text \<open>
  The environment of a run: the sources file, the network as the scraper and as the
  probes meet it, and the execution of each of the three validations.
\<close>

record environment =
  sources_file :: "string option"
  fetch :: "string \<Rightarrow> string option"
  net :: network
  boot :: "proxy \<Rightarrow> io"
  sched_forward :: "event list"
  sched_socks4 :: "event list"
  sched_socks5 :: "event list"

record count =
  candidates :: nat
  working :: nat

text \<open>
  What a run publishes: the lists that \<open>write_txt\<close> writes to \<open>http.txt\<close>, \<open>https.txt\<close>,
  \<open>socks4.txt\<close>, \<open>socks5.txt\<close> and \<open>all.txt\<close>, one entry to a line, and the counts of
  \<open>summary.json\<close>. All of it is written at the end of \<open>main\<close>, after the last step of
  the model that can raise, so a run that does not return has written none of it.
  Errors of the file system while the files are written are not modelled, nor are the
  time stamp of the summary and the statistics block of the README.
\<close>

record published =
  http_txt :: "string list"
  https_txt :: "string list"
  socks4_txt :: "string list"
  socks5_txt :: "string list"
  all_txt :: "string list"
  counts_http :: count
  counts_https :: count
  counts_socks4 :: count
  counts_socks5 :: count
  counts_all :: count

text \<open>\<open>xs[:m]\<close>: a negative \<open>m\<close> counts from the end.\<close>

definition slice_to :: "'a list \<Rightarrow> int \<Rightarrow> 'a list" where
  "slice_to xs m = (if 0 \<le> m then take (nat m) xs else take (length xs - nat (- m)) xs)"

text \<open>
  The end of \<open>main\<close>, from the two lists of working SOCKS proxies on: the fallback, the
  list of all working proxies, and what is written.
\<close>

definition publish ::
  "string list \<Rightarrow> string list \<Rightarrow> string list \<Rightarrow> string list \<Rightarrow> string list \<Rightarrow>
     (proxy \<times> real) list \<Rightarrow> (proxy \<times> real) list \<Rightarrow> published" where
  "publish forward_candidates socks4_candidates socks5_candidates forward_http forward_https0
     socks4_ok socks5_ok =
     (let socks4_working = map (\<lambda>x. hostport (fst x)) socks4_ok;
          socks5_working = map (\<lambda>x. hostport (fst x)) socks5_ok;
          forward_https = (if forward_https0 = [] \<and> forward_http \<noteq> []
                           then forward_http else forward_https0);
          all_working = sorted_list_of_set
             (set forward_http \<union> set forward_https \<union> set socks4_working \<union> set socks5_working)
      in \<lparr>http_txt = forward_http, https_txt = forward_https,
          socks4_txt = socks4_working, socks5_txt = socks5_working, all_txt = all_working,
          counts_http = \<lparr>candidates = length forward_candidates, working = length forward_http\<rparr>,
          counts_https = \<lparr>candidates = length forward_candidates, working = length forward_https\<rparr>,
          counts_socks4 = \<lparr>candidates = length socks4_candidates, working = length socks4_working\<rparr>,
          counts_socks5 = \<lparr>candidates = length socks5_candidates, working = length socks5_working\<rparr>,
          counts_all = \<lparr>candidates = length forward_candidates + length socks4_candidates
                                      + length socks5_candidates,
                        working = length all_working\<rparr>\<rparr>)"

text \<open>The candidates of one class: \<open>sorted(scraped[k])[:MAX_PER_TYPE]\<close>.\<close>

definition capped :: "config \<Rightarrow> string set \<Rightarrow> string list" where
  "capped cfg s = slice_to (sorted_list_of_set s) (MAX_PER_TYPE cfg)"

text \<open>A step of \<open>main\<close> that returns or raises at once.\<close>

definition lift_error :: "error + 'a \<Rightarrow> 'a run" where
  "lift_error r = (case r of Inl e \<Rightarrow> Raises e | Inr x \<Rightarrow> Returns x)"

definition main :: "config \<Rightarrow> environment \<Rightarrow> published run" where
  "main cfg env =
     bind_run (lift_error (scrape_all_sources (sources_file env) (fetch env))) (\<lambda>scraped.
     let forward_candidates = capped cfg (forward scraped);
         socks4_candidates = capped cfg (socks4 scraped);
         socks5_candidates = capped cfg (socks5 scraped)
     in
     bind_run (lift_error (to_proxies Http forward_candidates)) (\<lambda>forward_proxies.
     bind_run (lift_error (to_proxies Socks4 socks4_candidates)) (\<lambda>socks4_proxies.
     bind_run (lift_error (to_proxies Socks5 socks5_candidates)) (\<lambda>socks5_proxies.
     bind_run (validate_forward (net env) (boot env) (sched_forward env) forward_proxies
                 (DEFAULT_TIMEOUT_SEC cfg) (CONCURRENCY cfg)) (\<lambda>fwd.
     bind_run (validate_socks (net env) (boot env) (sched_socks4 env) socks4_proxies
                 (DEFAULT_TIMEOUT_SEC cfg) (CONCURRENCY cfg)) (\<lambda>socks4_ok.
     bind_run (validate_socks (net env) (boot env) (sched_socks5 env) socks5_proxies
                 (DEFAULT_TIMEOUT_SEC cfg) (CONCURRENCY cfg)) (\<lambda>socks5_ok.
     Returns (publish forward_candidates socks4_candidates socks5_candidates
                (fst fwd) (fst (snd fwd)) socks4_ok socks5_ok))))))))"

section \<open>Notions the properties speak of\<close>

text \<open>The test URLs a probe has requested, from the state \<open>w\<close> it started in to \<open>w'\<close>.\<close>

definition new_targets :: "io \<Rightarrow> io \<Rightarrow> test_url list" where
  "new_targets w w' = map target (drop (length (requests w)) (requests w'))"

text \<open>The tasks of an execution in the order in which they left, that is, completed.\<close>

fun leaves :: "event list \<Rightarrow> nat list" where
  "leaves [] = []"
| "leaves (Enter i # es) = leaves es"
| "leaves (Leave i # es) = i # leaves es"

text \<open>
  The successful outcomes of the probes of an execution, in the order in which the
  probes completed: of the SOCKS probes, and of the two capabilities of the forward
  probes.
\<close>

definition socks_outcomes ::
  "network \<Rightarrow> (proxy \<Rightarrow> io) \<Rightarrow> event list \<Rightarrow> proxy list \<Rightarrow> real \<Rightarrow> (proxy \<times> real) list" where
  "socks_outcomes nw bt sched proxies timeout_s =
     List.map_filter
       (\<lambda>i. map_option (\<lambda>ms. (proxies ! i, ms))
             (fst (check_socks nw (proxies ! i) timeout_s (bt (proxies ! i)))))
       (leaves sched)"

definition http_outcomes ::
  "network \<Rightarrow> (proxy \<Rightarrow> io) \<Rightarrow> event list \<Rightarrow> proxy list \<Rightarrow> real \<Rightarrow> (string \<times> real) list" where
  "http_outcomes nw bt sched proxies timeout_s =
     List.map_filter
       (\<lambda>i. map_option (\<lambda>ms. (hostport (proxies ! i), ms))
             (fst (fst (check_forward_proxy nw (proxies ! i) timeout_s (bt (proxies ! i))))))
       (leaves sched)"

definition https_outcomes ::
  "network \<Rightarrow> (proxy \<Rightarrow> io) \<Rightarrow> event list \<Rightarrow> proxy list \<Rightarrow> real \<Rightarrow> (string \<times> real) list" where
  "https_outcomes nw bt sched proxies timeout_s =
     List.map_filter
       (\<lambda>i. map_option (\<lambda>ms. (hostport (proxies ! i), ms))
             (snd (fst (check_forward_proxy nw (proxies ! i) timeout_s (bt (proxies ! i))))))
       (leaves sched)"

text \<open>
  The values of the variables of \<open>main\<close> in a run: the candidates and the proxies of a
  class (empty where the run has raised before it built them), the execution of the
  validation of a class, and the validations themselves.
\<close>

definition candidates_of :: "proxy_type \<Rightarrow> config \<Rightarrow> environment \<Rightarrow> string list" where
  "candidates_of k cfg env =
     (case scrape_all_sources (sources_file env) (fetch env) of Inl e \<Rightarrow> []
      | Inr scraped \<Rightarrow>
          capped cfg (case k of Http \<Rightarrow> forward scraped | Socks4 \<Rightarrow> socks4 scraped
                      | Socks5 \<Rightarrow> socks5 scraped))"

definition proxies_of :: "proxy_type \<Rightarrow> config \<Rightarrow> environment \<Rightarrow> proxy list" where
  "proxies_of k cfg env =
     (case to_proxies k (candidates_of k cfg env) of Inl e \<Rightarrow> [] | Inr ps \<Rightarrow> ps)"

definition schedule_of :: "proxy_type \<Rightarrow> environment \<Rightarrow> event list" where
  "schedule_of k env =
     (case k of Http \<Rightarrow> sched_forward env | Socks4 \<Rightarrow> sched_socks4 env
      | Socks5 \<Rightarrow> sched_socks5 env)"

definition forward_validation ::
  "config \<Rightarrow> environment \<Rightarrow> (string list \<times> string list \<times> nat \<times> nat) run" where
  "forward_validation cfg env =
     validate_forward (net env) (boot env) (sched_forward env) (proxies_of Http cfg env)
       (DEFAULT_TIMEOUT_SEC cfg) (CONCURRENCY cfg)"

definition socks_validation :: "proxy_type \<Rightarrow> config \<Rightarrow> environment \<Rightarrow> (proxy \<times> real) list run" where
  "socks_validation k cfg env =
     validate_socks (net env) (boot env) (schedule_of k env) (proxies_of k cfg env)
       (DEFAULT_TIMEOUT_SEC cfg) (CONCURRENCY cfg)"

text \<open>The outcomes of the probe of one proxy in a run.\<close>

definition http_ms_of :: "config \<Rightarrow> environment \<Rightarrow> proxy \<Rightarrow> real option" where
  "http_ms_of cfg env p =
     fst (fst (check_forward_proxy (net env) p (DEFAULT_TIMEOUT_SEC cfg) (boot env p)))"

definition https_ms_of :: "config \<Rightarrow> environment \<Rightarrow> proxy \<Rightarrow> real option" where
  "https_ms_of cfg env p =
     snd (fst (check_forward_proxy (net env) p (DEFAULT_TIMEOUT_SEC cfg) (boot env p)))"

definition socks_ms_of :: "config \<Rightarrow> environment \<Rightarrow> proxy \<Rightarrow> real option" where
  "socks_ms_of cfg env p =
     fst (check_socks (net env) p (DEFAULT_TIMEOUT_SEC cfg) (boot env p))"

text \<open>
  The tasks of a \<open>gather\<close> when the first \<open>j\<close> events of an execution have taken place:
  \<open>None\<close> when one of these events is not possible where it stands, or a task has
  raised by then.
\<close>

definition tasks_after ::
  "(nat \<Rightarrow> error option) \<Rightarrow> (nat \<Rightarrow> 'a \<Rightarrow> 'a) \<Rightarrow> nat \<Rightarrow> nat \<Rightarrow> 'a \<Rightarrow> event list \<Rightarrow> nat \<Rightarrow>
     'a tasks option" where
  "tasks_after prelude body c n a sched j =
     (case run_events prelude body (take j sched) (initial c n a) of
        None \<Rightarrow> None | Some (Inl e) \<Rightarrow> None | Some (Inr s) \<Rightarrow> Some s)"

text \<open>
  The gate of a validation at that point of its execution: the counter of the
  semaphore that the validator has made from the ceiling it was given, and the tasks
  whose probes are in flight, by their places in the list of proxies. There is no gate
  when the validator has raised for its ceiling.
\<close>

definition socks_gate ::
  "network \<Rightarrow> (proxy \<Rightarrow> io) \<Rightarrow> event list \<Rightarrow> proxy list \<Rightarrow> real \<Rightarrow> int \<Rightarrow> nat \<Rightarrow>
     (nat \<times> nat list) option" where
  "socks_gate nw bt sched proxies timeout_s concurrency j =
     (case Semaphore concurrency of Inl e \<Rightarrow> None
      | Inr c \<Rightarrow>
          map_option (\<lambda>s. (sem s, running s))
            (tasks_after (socks_prelude proxies) (socks_run_one nw bt proxies timeout_s) c
               (length proxies) [] sched j))"

definition forward_gate ::
  "network \<Rightarrow> (proxy \<Rightarrow> io) \<Rightarrow> event list \<Rightarrow> proxy list \<Rightarrow> real \<Rightarrow> int \<Rightarrow> nat \<Rightarrow>
     (nat \<times> nat list) option" where
  "forward_gate nw bt sched proxies timeout_s concurrency j =
     (case Semaphore concurrency of Inl e \<Rightarrow> None
      | Inr c \<Rightarrow>
          map_option (\<lambda>s. (sem s, running s))
            (tasks_after (forward_prelude proxies) (forward_run_one nw bt proxies timeout_s) c
               (length proxies) ([], []) sched j))"

text \<open>The gate of the validation of one class in a run.\<close>

definition gate_of :: "proxy_type \<Rightarrow> config \<Rightarrow> environment \<Rightarrow> nat \<Rightarrow> (nat \<times> nat list) option" where
  "gate_of k cfg env j =
     (case k of
        Http \<Rightarrow> forward_gate (net env) (boot env) (sched_forward env) (proxies_of Http cfg env)
                  (DEFAULT_TIMEOUT_SEC cfg) (CONCURRENCY cfg) j
      | Socks4 \<Rightarrow> socks_gate (net env) (boot env) (sched_socks4 env) (proxies_of Socks4 cfg env)
                    (DEFAULT_TIMEOUT_SEC cfg) (CONCURRENCY cfg) j
      | Socks5 \<Rightarrow> socks_gate (net env) (boot env) (sched_socks5 env) (proxies_of Socks5 cfg env)
                    (DEFAULT_TIMEOUT_SEC cfg) (CONCURRENCY cfg) j)"

text \<open>The execution in which the tasks run one after the other.\<close>

definition one_by_one :: "nat \<Rightarrow> event list" where
  "one_by_one n = concat (map (\<lambda>i. [Enter i, Leave i]) [0..<n])"

text \<open>
  The environment in which the tasks of each of the three validations of a run take
  place in that way; its sources file, its network and so its proxies are the same.
\<close>

definition one_by_one_env :: "config \<Rightarrow> environment \<Rightarrow> environment" where
  "one_by_one_env cfg env =
     env\<lparr>sched_forward := one_by_one (length (proxies_of Http cfg env)),
         sched_socks4 := one_by_one (length (proxies_of Socks4 cfg env)),
         sched_socks5 := one_by_one (length (proxies_of Socks5 cfg env))\<rparr>"

text \<open>What a run publishes when it has no candidate at all.\<close>

definition nothing_published :: published where
  "nothing_published =
     \<lparr>http_txt = [], https_txt = [], socks4_txt = [], socks5_txt = [], all_txt = [],
      counts_http = \<lparr>candidates = 0, working = 0\<rparr>,
      counts_https = \<lparr>candidates = 0, working = 0\<rparr>,
      counts_socks4 = \<lparr>candidates = 0, working = 0\<rparr>,
      counts_socks5 = \<lparr>candidates = 0, working = 0\<rparr>,
      counts_all = \<lparr>candidates = 0, working = 0\<rparr>\<rparr>"

section \<open>A scenario\<close>

text \<open>
  Two forward candidates, of which \<open>1.2.3.4:8080\<close> answers the plain-HTTP test in 50 ms
  and times out on the HTTPS test, and \<open>5.6.7.8:3128\<close> times out on the plain-HTTP test
  and then refuses the HTTPS test after one second; three SOCKS5
  candidates, of which \<open>9.9.9.9:1080\<close> answers the HTTPS test in 10 ms, \<open>8.8.8.8:1080\<close>
  answers it with status 503 after 10 ms and then the plain-HTTP test in 20 ms, and
  \<open>7.7.7.7:1080\<close> refuses both; a SOCKS4 source that cannot be fetched.
\<close>

definition scenario_net :: network where
  "scenario_net timeout_s p u =
     (if host p = ''1.2.3.4''
      then (if u = TEST_URL_HTTP then \<lparr>answer = Response 200 True, took = 0.05\<rparr>
            else \<lparr>answer = Failure, took = timeout_s\<rparr>)
      else if host p = ''5.6.7.8''
      then (if u = TEST_URL_HTTP then \<lparr>answer = Failure, took = timeout_s\<rparr>
            else \<lparr>answer = Failure, took = 1\<rparr>)
      else if host p = ''9.9.9.9'' then \<lparr>answer = Response 200 True, took = 0.01\<rparr>
      else if host p = ''8.8.8.8''
      then (if u = TEST_URL_HTTPS then \<lparr>answer = Response 503 True, took = 0.01\<rparr>
            else \<lparr>answer = Response 200 True, took = 0.02\<rparr>)
      else \<lparr>answer = Failure, took = 1\<rparr>)"

definition scenario_fetch :: "string \<Rightarrow> string option" where
  "scenario_fetch u =
     (if u = ''f'' then Some (''5.6.7.8:3128'' @ [CHR 0x0A] @ ''1.2.3.4:8080'' @ [CHR 0x0A])
      else if u = ''s''
      then Some (''9.9.9.9:1080'' @ [CHR 0x0A] @ ''8.8.8.8:1080'' @ [CHR 0x0A] @ ''7.7.7.7:1080'')
      else None)"

definition scenario_boot :: "proxy \<Rightarrow> io" where
  "scenario_boot p = \<lparr>clock = 0, sessions = 0, requests = []\<rparr>"

definition scenario_env :: environment where
  "scenario_env =
     \<lparr>sources_file = Some (''f http'' @ [CHR 0x0A] @ ''# more'' @ [CHR 0x0A] @ ''s SOCKS5''
                           @ [CHR 0x0A] @ ''x socks4''),
      fetch = scenario_fetch, net = scenario_net, boot = scenario_boot,
      sched_forward = [Enter 0, Enter 1, Leave 0, Leave 1],
      sched_socks4 = [],
      sched_socks5 = [Enter 0, Enter 1, Enter 2, Leave 2, Leave 1, Leave 0]\<rparr>"

definition scenario_cfg :: config where
  "scenario_cfg = \<lparr>DEFAULT_TIMEOUT_SEC = 8, CONCURRENCY = 200, MAX_PER_TYPE = 2000\<rparr>"

definition scenario_published :: published where
  "scenario_published =
     \<lparr>http_txt = [''1.2.3.4:8080''], https_txt = [''1.2.3.4:8080''],
      socks4_txt = [], socks5_txt = [''9.9.9.9:1080'', ''8.8.8.8:1080''],
      all_txt = [''1.2.3.4:8080'', ''8.8.8.8:1080'', ''9.9.9.9:1080''],
      counts_http = \<lparr>candidates = 2, working = 1\<rparr>,
      counts_https = \<lparr>candidates = 2, working = 1\<rparr>,
      counts_socks4 = \<lparr>candidates = 0, working = 0\<rparr>,
      counts_socks5 = \<lparr>candidates = 3, working = 2\<rparr>,
      counts_all = \<lparr>candidates = 5, working = 3\<rparr>\<rparr>"

text \<open>
  The forward candidates of the scenario on another network: both answer the plain-HTTP
  test in 50 ms; \<open>1.2.3.4:8080\<close> then times out on the HTTPS test, while \<open>5.6.7.8:3128\<close>
  refuses it after 10 ms, so that its probe completes first.
\<close>

definition ties_net :: network where
  "ties_net timeout_s p u =
     (if u = TEST_URL_HTTP then \<lparr>answer = Response 200 True, took = 0.05\<rparr>
      else if host p = ''1.2.3.4'' then \<lparr>answer = Failure, took = timeout_s\<rparr>
      else \<lparr>answer = Failure, took = 0.01\<rparr>)"

text \<open>
  And on a third network, where \<open>1.2.3.4:8080\<close> answers the plain-HTTP test with status
  403 and the HTTPS test in 50 ms, and every other request is refused.
\<close>

definition https_only_net :: network where
  "https_only_net timeout_s p u =
     (if host p = ''1.2.3.4''
      then (if u = TEST_URL_HTTP then \<lparr>answer = Response 403 True, took = 0.02\<rparr>
            else \<lparr>answer = Response 200 True, took = 0.05\<rparr>)
      else \<lparr>answer = Failure, took = 1\<rparr>)"

text \<open>
  The scenario on the third network, with what it publishes, and the scenario when no
  source can be fetched, so that there is no candidate at all.
\<close>

definition https_only_env :: environment where
  "https_only_env = scenario_env\<lparr>net := https_only_net\<rparr>"

definition https_only_published :: published where
  "https_only_published =
     \<lparr>http_txt = [], https_txt = [''1.2.3.4:8080''],
      socks4_txt = [], socks5_txt = [], all_txt = [''1.2.3.4:8080''],
      counts_http = \<lparr>candidates = 2, working = 0\<rparr>,
      counts_https = \<lparr>candidates = 2, working = 1\<rparr>,
      counts_socks4 = \<lparr>candidates = 0, working = 0\<rparr>,
      counts_socks5 = \<lparr>candidates = 3, working = 0\<rparr>,
      counts_all = \<lparr>candidates = 5, working = 1\<rparr>\<rparr>"

definition unreachable_env :: environment where
  "unreachable_env =
     scenario_env\<lparr>fetch := (\<lambda>u. None), sched_forward := [], sched_socks5 := []\<rparr>"

section \<open>Evaluating the definitions\<close>

lemma str_nat_small: "n < 10 \<Longrightarrow> str_nat n = [digit_char n]"
  by (simp add: str_nat.simps)

lemma str_nat_large: "10 \<le> n \<Longrightarrow> str_nat n = str_nat (n div 10) @ [digit_char (n mod 10)]"
  by (subst str_nat.simps) simp

lemmas eval_string =
  isspace_def isdigit_def islinebreak_def strip_def splitlines_def split_ws_def lower_def
  lower_char_def startswith_hash_def digit_val_def digits_value_def digit_char_def
  str_nat_small str_nat_large str_int_def int_space_def int_strip_def py_int_def char_of_def
  bit_0 Let_def

lemmas eval_parser =
  digit_run_def literal_def dot_octet_def host_group_def PROXY_RE_match_def parse_line_def
  parse_candidates_def map_filter_simps

lemmas eval_probe =
  check_forward_proxy_def check_socks_def check_via_proxy_def session_get_def ClientSession_def

lemmas eval_gather =
  validate_forward_def validate_socks_def Semaphore_def bind_run_def gather_def initial_def
  forward_run_one_def socks_run_one_def forward_prelude_def socks_prelude_def from_url_def
  hostport_def

lemma sorted_list_of_set_list: "sorted_list_of_set (set xs) = sort (remdups xs)"
  by (rule sorted_list_of_set_sort_remdups)

section \<open>Executions of the tasks\<close>

lemma fire_counter:
  assumes f: "fire prelude body e s = Some (Inr s')"
  shows "sem s' + length (running s') = sem s + length (running s)"
proof (cases e)
  case (Enter i)
  with f show ?thesis by (auto split: if_splits option.splits)
next
  case (Leave i)
  with f have i: "i \<in> set (running s)" by (auto split: if_splits)
  then have "0 < length (running s)" by (rule length_pos_if_in_set)
  with f Leave i show ?thesis by (auto simp: length_remove1)
qed

lemma run_events_Cons:
  assumes "run_events prelude body (e # es) s = Some (Inr s')"
  obtains s1 where "fire prelude body e s = Some (Inr s1)"
    and "run_events prelude body es s1 = Some (Inr s')"
  using assms by (auto split: option.splits sum.splits)

lemma run_events_counter:
  "run_events prelude body es s = Some (Inr s') \<Longrightarrow>
     sem s' + length (running s') = sem s + length (running s)"
proof (induction es arbitrary: s)
  case Nil
  then show ?case by simp
next
  case (Cons e es)
  from Cons.prems obtain s1 where f: "fire prelude body e s = Some (Inr s1)"
    and r: "run_events prelude body es s1 = Some (Inr s')"
    by (rule run_events_Cons)
  from Cons.IH [OF r] fire_counter [OF f] show ?case by simp
qed

lemma fire_mset:
  "fire prelude body e s = Some (Inr s') \<Longrightarrow>
     mset (waiting s') + mset (running s') + mset (leaves [e]) = mset (waiting s) + mset (running s)"
  by (cases e) (auto split: if_splits option.splits)

lemma run_events_mset:
  "run_events prelude body es s = Some (Inr s') \<Longrightarrow>
     mset (waiting s') + mset (running s') + mset (leaves es) = mset (waiting s) + mset (running s)"
proof (induction es arbitrary: s)
  case Nil
  then show ?case by simp
next
  case (Cons e es)
  from Cons.prems obtain s1 where f: "fire prelude body e s = Some (Inr s1)"
    and r: "run_events prelude body es s1 = Some (Inr s')"
    by (rule run_events_Cons)
  have "leaves (e # es) = leaves [e] @ leaves es" by (cases e) simp_all
  then have "mset (waiting s') + mset (running s') + mset (leaves (e # es))
      = (mset (waiting s') + mset (running s') + mset (leaves es)) + mset (leaves [e])"
    by simp
  also have "\<dots> = mset (waiting s1) + mset (running s1) + mset (leaves [e])"
    by (simp only: Cons.IH [OF r])
  also have "\<dots> = mset (waiting s) + mset (running s)"
    by (rule fire_mset [OF f])
  finally show ?case .
qed

lemma fire_shared:
  "fire prelude body e s = Some (Inr s') \<Longrightarrow>
     shared s' = foldl (\<lambda>a i. body i a) (shared s) (leaves [e])"
  by (cases e) (auto split: if_splits option.splits)

lemma run_events_shared:
  "run_events prelude body es s = Some (Inr s') \<Longrightarrow>
     shared s' = foldl (\<lambda>a i. body i a) (shared s) (leaves es)"
proof (induction es arbitrary: s)
  case Nil
  then show ?case by simp
next
  case (Cons e es)
  from Cons.prems obtain s1 where f: "fire prelude body e s = Some (Inr s1)"
    and r: "run_events prelude body es s1 = Some (Inr s')"
    by (rule run_events_Cons)
  have "leaves (e # es) = leaves [e] @ leaves es" by (cases e) simp_all
  with Cons.IH [OF r] fire_shared [OF f] show ?case by simp
qed

text \<open>A task that has entered without raising had nothing to raise.\<close>

lemma fire_entered:
  assumes "fire prelude body e s = Some (Inr s')" and "i \<in> set (waiting s)"
  shows "i \<in> set (waiting s') \<or> prelude i = None"
proof (cases e)
  case (Enter k)
  with assms show ?thesis
    by (cases "k = i") (auto split: if_splits option.splits)
next
  case (Leave k)
  with assms show ?thesis by (auto split: if_splits)
qed

lemma run_events_entered:
  "run_events prelude body es s = Some (Inr s') \<Longrightarrow> i \<in> set (waiting s) \<Longrightarrow>
     i \<in> set (waiting s') \<or> prelude i = None"
proof (induction es arbitrary: s)
  case Nil
  then show ?case by simp
next
  case (Cons e es)
  from Cons.prems(1) obtain s1 where f: "fire prelude body e s = Some (Inr s1)"
    and r: "run_events prelude body es s1 = Some (Inr s')"
    by (rule run_events_Cons)
  from fire_entered [OF f Cons.prems(2)] show ?case
  proof
    assume "i \<in> set (waiting s1)"
    then show ?thesis by (rule Cons.IH [OF r])
  next
    assume "prelude i = None"
    then show ?thesis by simp
  qed
qed

text \<open>An exception of an execution is the exception of one of its tasks.\<close>

lemma fire_waiting:
  assumes "fire prelude body e s = Some (Inr s')"
  shows "set (waiting s') \<subseteq> set (waiting s)"
proof (cases e)
  case (Enter k)
  with assms show ?thesis
    by (auto split: if_splits option.splits dest: set_remove1_subset [THEN subsetD])
next
  case (Leave k)
  with assms show ?thesis by (auto split: if_splits)
qed

lemma run_events_Raises:
  "run_events prelude body es s = Some (Inl err) \<Longrightarrow>
     \<exists>i\<in>set (waiting s). prelude i = Some err"
proof (induction es arbitrary: s)
  case Nil
  then show ?case by simp
next
  case (Cons e es)
  show ?case
  proof (cases "fire prelude body e s")
    case None
    with Cons.prems show ?thesis by simp
  next
    case (Some r)
    show ?thesis
    proof (cases r)
      case (Inl x)
      with Some Cons.prems have x: "x = err" by simp
      from Some Inl x show ?thesis
        by (cases e) (auto split: if_splits option.splits)
    next
      case (Inr s1)
      with Some Cons.prems have "run_events prelude body es s1 = Some (Inl err)" by simp
      from Cons.IH [OF this] fire_waiting [of prelude body e s s1] Some Inr show ?thesis
        by auto
    qed
  qed
qed

text \<open>The first events of an execution are an execution as well.\<close>

lemma run_events_take:
  "run_events prelude body es s = Some (Inr s') \<Longrightarrow>
     \<exists>s1. run_events prelude body (take j es) s = Some (Inr s1)"
proof (induction es arbitrary: s j)
  case Nil
  then show ?case by simp
next
  case (Cons e es)
  from Cons.prems obtain s1 where f: "fire prelude body e s = Some (Inr s1)"
    and r: "run_events prelude body es s1 = Some (Inr s')"
    by (rule run_events_Cons)
  show ?case
  proof (cases j)
    case 0
    then show ?thesis by simp
  next
    case (Suc k)
    from Cons.IH [OF r, of k] f Suc show ?thesis by simp
  qed
qed

lemma gather_Returns:
  assumes "gather prelude body c n a sched = Returns x"
  shows "x = foldl (\<lambda>a i. body i a) a (leaves sched)" and "mset (leaves sched) = mset [0..<n]"
    and "\<forall>i<n. prelude i = None"
proof -
  from assms obtain s where r: "run_events prelude body sched (initial c n a) = Some (Inr s)"
    and fin: "running s = []" "waiting s = []" and x: "x = shared s"
    by (auto simp: gather_def split: option.splits sum.splits if_splits)
  from run_events_shared [OF r] x show "x = foldl (\<lambda>a i. body i a) a (leaves sched)"
    by (simp add: initial_def)
  from run_events_mset [OF r] fin show "mset (leaves sched) = mset [0..<n]"
    by (simp add: initial_def)
  show "\<forall>i<n. prelude i = None"
  proof (intro allI impI)
    fix i assume "i < n"
    then have "i \<in> set (waiting (initial c n a))" by (simp add: initial_def)
    from run_events_entered [OF r this] fin show "prelude i = None" by simp
  qed
qed

lemma gather_Raises:
  assumes "gather prelude body c n a sched = Raises e"
  shows "\<exists>i<n. prelude i = Some e"
proof -
  from assms have "run_events prelude body sched (initial c n a) = Some (Inl e)"
    by (auto simp: gather_def split: option.splits sum.splits if_splits)
  from run_events_Raises [OF this] show ?thesis by (auto simp: initial_def)
qed

lemma gather_Hangs:
  assumes "gather prelude body c n a sched = Hangs"
  shows "c = 0 \<and> 0 < n"
proof -
  from assms obtain s where r: "run_events prelude body sched (initial c n a) = Some (Inr s)"
    and fin: "running s = []" "waiting s \<noteq> []" "sem s = 0"
    by (auto simp: gather_def split: option.splits sum.splits if_splits)
  from run_events_counter [OF r] fin have "c = 0" by (simp add: initial_def)
  moreover have "n \<noteq> 0"
  proof
    assume "n = 0"
    with run_events_mset [OF r] have "mset (waiting s) = {#}" by (simp add: initial_def)
    with fin show False by simp
  qed
  ultimately show ?thesis by simp
qed

lemma foldl_socks_run_one:
  "foldl (\<lambda>ok i. socks_run_one nw bt ps t i ok) ok0 is
     = ok0 @ List.map_filter
         (\<lambda>i. map_option (\<lambda>ms. (ps ! i, ms)) (fst (check_socks nw (ps ! i) t (bt (ps ! i))))) is"
  by (induction "is" arbitrary: ok0)
     (auto simp: socks_run_one_def Let_def map_filter_simps split: option.splits)

lemma foldl_forward_run_one:
  "foldl (\<lambda>oks i. forward_run_one nw bt ps t i oks) oks0 is
     = (fst oks0 @ List.map_filter
         (\<lambda>i. map_option (\<lambda>ms. (hostport (ps ! i), ms))
            (fst (fst (check_forward_proxy nw (ps ! i) t (bt (ps ! i)))))) is,
        snd oks0 @ List.map_filter
         (\<lambda>i. map_option (\<lambda>ms. (hostport (ps ! i), ms))
            (snd (fst (check_forward_proxy nw (ps ! i) t (bt (ps ! i)))))) is)"
  by (induction "is" arbitrary: oks0)
     (auto simp: forward_run_one_def Let_def map_filter_simps split: option.splits prod.splits)

lemma validate_socks_Returns:
  assumes "validate_socks nw bt sched ps t c = Returns ok"
  shows "ok = sort_key snd (socks_outcomes nw bt sched ps t)"
    and "mset (leaves sched) = mset [0..<length ps]"
    and "0 \<le> c"
  using assms
  by (auto simp: validate_socks_def Semaphore_def bind_run_def socks_outcomes_def
      foldl_socks_run_one split: if_splits run.splits dest: gather_Returns(1,2))

lemma validate_forward_Returns:
  assumes "validate_forward nw bt sched ps t c = Returns r"
  shows "fst r = map fst (sort_key snd (http_outcomes nw bt sched ps t))"
    and "fst (snd r) = map fst (sort_key snd (https_outcomes nw bt sched ps t))"
    and "fst (snd (snd r)) = length (http_outcomes nw bt sched ps t)"
    and "snd (snd (snd r)) = length (https_outcomes nw bt sched ps t)"
    and "mset (leaves sched) = mset [0..<length ps]"
    and "0 \<le> c"
  using assms
  by (auto simp: validate_forward_def Semaphore_def bind_run_def http_outcomes_def https_outcomes_def
      foldl_forward_run_one Let_def split: if_splits run.splits dest: gather_Returns(1,2))

section \<open>The SOCKS probe\<close>

text \<open>
  C5. A SOCKS probe requests the HTTPS test URL first. If that attempt succeeds, the
  probe returns the time since its timer was started, in milliseconds, and requests
  nothing else. If it fails, the probe requests the plain-HTTP test URL, and if that
  attempt succeeds it returns the time since the same timer was started, which covers
  both attempts. If both fail, the probe returns no outcome. The result is one optional
  time, so a candidate yields at most one outcome.
\<close>

theorem check_socks_policy:
  fixes nw :: network
  shows "(succeeded (nw t p TEST_URL_HTTPS) \<longrightarrow>
            fst (check_socks nw p t w) = Some (took (nw t p TEST_URL_HTTPS) * 1000) \<and>
            new_targets w (snd (check_socks nw p t w)) = [TEST_URL_HTTPS]) \<and>
         (\<not> succeeded (nw t p TEST_URL_HTTPS) \<and> succeeded (nw t p TEST_URL_HTTP) \<longrightarrow>
            fst (check_socks nw p t w)
              = Some ((took (nw t p TEST_URL_HTTPS) + took (nw t p TEST_URL_HTTP)) * 1000) \<and>
            new_targets w (snd (check_socks nw p t w)) = [TEST_URL_HTTPS, TEST_URL_HTTP]) \<and>
         (\<not> succeeded (nw t p TEST_URL_HTTPS) \<and> \<not> succeeded (nw t p TEST_URL_HTTP) \<longrightarrow>
            fst (check_socks nw p t w) = None \<and>
            new_targets w (snd (check_socks nw p t w)) = [TEST_URL_HTTPS, TEST_URL_HTTP])"
  by (auto simp add: Let_def check_socks_def ClientSession_def session_get_def succeeded_def new_targets_def
      split: reply.splits)

lemma scenario_succeeded:
  "succeeded (scenario_net 8 \<lparr>ptype = Socks5, host = ''9.9.9.9'', port = 1080\<rparr> TEST_URL_HTTPS)"
  "\<not> succeeded (scenario_net 8 \<lparr>ptype = Socks5, host = ''8.8.8.8'', port = 1080\<rparr> TEST_URL_HTTPS)"
  "succeeded (scenario_net 8 \<lparr>ptype = Socks5, host = ''8.8.8.8'', port = 1080\<rparr> TEST_URL_HTTP)"
  "\<not> succeeded (scenario_net 8 \<lparr>ptype = Socks5, host = ''7.7.7.7'', port = 1080\<rparr> TEST_URL_HTTPS)"
  "\<not> succeeded (scenario_net 8 \<lparr>ptype = Socks5, host = ''7.7.7.7'', port = 1080\<rparr> TEST_URL_HTTP)"
  by (simp_all add: succeeded_def scenario_net_def)

theorem check_socks_policy_witness:
  "(succeeded (scenario_net 8 \<lparr>ptype = Socks5, host = ''9.9.9.9'', port = 1080\<rparr> TEST_URL_HTTPS) \<and>
    fst (check_socks scenario_net \<lparr>ptype = Socks5, host = ''9.9.9.9'', port = 1080\<rparr> 8
           \<lparr>clock = 0, sessions = 0, requests = []\<rparr>) = Some 10 \<and>
    new_targets \<lparr>clock = 0, sessions = 0, requests = []\<rparr>
      (snd (check_socks scenario_net \<lparr>ptype = Socks5, host = ''9.9.9.9'', port = 1080\<rparr> 8
           \<lparr>clock = 0, sessions = 0, requests = []\<rparr>)) = [TEST_URL_HTTPS]) \<and>
   (\<not> succeeded (scenario_net 8 \<lparr>ptype = Socks5, host = ''8.8.8.8'', port = 1080\<rparr> TEST_URL_HTTPS) \<and>
    succeeded (scenario_net 8 \<lparr>ptype = Socks5, host = ''8.8.8.8'', port = 1080\<rparr> TEST_URL_HTTP) \<and>
    fst (check_socks scenario_net \<lparr>ptype = Socks5, host = ''8.8.8.8'', port = 1080\<rparr> 8
           \<lparr>clock = 0, sessions = 0, requests = []\<rparr>) = Some 30 \<and>
    new_targets \<lparr>clock = 0, sessions = 0, requests = []\<rparr>
      (snd (check_socks scenario_net \<lparr>ptype = Socks5, host = ''8.8.8.8'', port = 1080\<rparr> 8
           \<lparr>clock = 0, sessions = 0, requests = []\<rparr>)) = [TEST_URL_HTTPS, TEST_URL_HTTP]) \<and>
   (\<not> succeeded (scenario_net 8 \<lparr>ptype = Socks5, host = ''7.7.7.7'', port = 1080\<rparr> TEST_URL_HTTPS) \<and>
    \<not> succeeded (scenario_net 8 \<lparr>ptype = Socks5, host = ''7.7.7.7'', port = 1080\<rparr> TEST_URL_HTTP) \<and>
    fst (check_socks scenario_net \<lparr>ptype = Socks5, host = ''7.7.7.7'', port = 1080\<rparr> 8
           \<lparr>clock = 0, sessions = 0, requests = []\<rparr>) = None \<and>
    new_targets \<lparr>clock = 0, sessions = 0, requests = []\<rparr>
      (snd (check_socks scenario_net \<lparr>ptype = Socks5, host = ''7.7.7.7'', port = 1080\<rparr> 8
           \<lparr>clock = 0, sessions = 0, requests = []\<rparr>)) = [TEST_URL_HTTPS, TEST_URL_HTTP])"
  using
    check_socks_policy [of scenario_net 8 "\<lparr>ptype = Socks5, host = ''9.9.9.9'', port = 1080\<rparr>"
      "\<lparr>clock = 0, sessions = 0, requests = []\<rparr>"]
    check_socks_policy [of scenario_net 8 "\<lparr>ptype = Socks5, host = ''8.8.8.8'', port = 1080\<rparr>"
      "\<lparr>clock = 0, sessions = 0, requests = []\<rparr>"]
    check_socks_policy [of scenario_net 8 "\<lparr>ptype = Socks5, host = ''7.7.7.7'', port = 1080\<rparr>"
      "\<lparr>clock = 0, sessions = 0, requests = []\<rparr>"]
    scenario_succeeded
  by (simp add: scenario_net_def)

section \<open>The gate of a validation\<close>

lemma run_events_tasks:
  assumes "run_events prelude body es (initial c n a) = Some (Inr s)"
  shows "mset (running s) \<subseteq># mset [0..<n]"
proof -
  have "mset (running s) \<subseteq># mset (waiting s) + mset (running s) + mset (leaves es)"
    by simp
  also have "\<dots> = mset [0..<n]"
    using run_events_mset [OF assms] by (simp add: initial_def)
  finally show ?thesis .
qed

lemma run_events_distinct:
  assumes "run_events prelude body es (initial c n a) = Some (Inr s)"
  shows "distinct (running s)" and "set (running s) \<subseteq> {0..<n}"
proof -
  note sub = run_events_tasks [OF assms]
  have "count (mset (running s)) x \<le> 1" for x
  proof -
    from sub have "count (mset (running s)) x \<le> count (mset [0..<n]) x"
      by (rule mset_subset_eq_count)
    also have "\<dots> \<le> 1"
    proof -
      have "distinct [0..<n]" by simp
      then show ?thesis by (simp only: distinct_count_atmost_1) simp
    qed
    finally show ?thesis .
  qed
  then show "distinct (running s)"
    by (simp add: distinct_count_atmost_1) (metis le_antisym One_nat_def Suc_leI count_greater_zero_iff set_mset_mset)
  from set_mset_mono [OF sub] show "set (running s) \<subseteq> {0..<n}" by simp
qed

text \<open>What holds of the gate of a \<open>gather\<close> wherever an execution has brought it.\<close>

lemma tasks_after_gate:
  assumes "tasks_after prelude body c n a sched j = Some s"
  shows "sem s + length (running s) = c" and "distinct (running s)"
    and "set (running s) \<subseteq> {0..<n}"
proof -
  from assms have r: "run_events prelude body (take j sched) (initial c n a) = Some (Inr s)"
    by (auto simp: tasks_after_def split: option.splits sum.splits)
  from run_events_counter [OF r] show "sem s + length (running s) = c"
    by (simp add: initial_def)
  from run_events_distinct [OF r] show "distinct (running s)" "set (running s) \<subseteq> {0..<n}"
    by simp_all
qed

text \<open>
  A \<open>gather\<close> that returns has passed through a state at each point of its execution;
  it began with all of the counter and no probe in flight, and it ended so.
\<close>

lemma gather_tasks_after:
  assumes "gather prelude body c n a sched = Returns x"
  shows "\<forall>j. \<exists>s. tasks_after prelude body c n a sched j = Some s"
    and "\<exists>s. tasks_after prelude body c n a sched 0 = Some s \<and> sem s = c \<and> running s = []"
    and "\<exists>s. tasks_after prelude body c n a sched (length sched) = Some s \<and> sem s = c \<and>
           running s = [] \<and> shared s = x"
proof -
  from assms obtain s where r: "run_events prelude body sched (initial c n a) = Some (Inr s)"
    and fin: "running s = []" and x: "x = shared s"
    by (auto simp: gather_def split: option.splits sum.splits if_splits)
  show "\<forall>j. \<exists>s. tasks_after prelude body c n a sched j = Some s"
  proof
    fix j
    from run_events_take [OF r, of j] show "\<exists>s. tasks_after prelude body c n a sched j = Some s"
      by (auto simp: tasks_after_def)
  qed
  show "\<exists>s. tasks_after prelude body c n a sched 0 = Some s \<and> sem s = c \<and> running s = []"
    by (simp add: tasks_after_def initial_def)
  from run_events_counter [OF r] fin have "sem s = c" by (simp add: initial_def)
  with r fin x
  show "\<exists>s. tasks_after prelude body c n a sched (length sched) = Some s \<and> sem s = c \<and>
           running s = [] \<and> shared s = x"
    by (simp add: tasks_after_def)
qed

lemma socks_gate_bound:
  assumes "socks_gate nw bt sched ps t c j = Some (free, busy)"
  shows "int (length busy) \<le> c" and "int free + int (length busy) = c"
    and "distinct busy" and "set busy \<subseteq> {0..<length ps}"
proof -
  from assms obtain s where c: "0 \<le> c"
    and s: "tasks_after (socks_prelude ps) (socks_run_one nw bt ps t) (nat c) (length ps) []
              sched j = Some s"
    and g: "free = sem s" "busy = running s"
    by (auto simp: socks_gate_def Semaphore_def split: if_splits)
  from tasks_after_gate(1) [OF s] c g show "int free + int (length busy) = c" by simp
  then show "int (length busy) \<le> c" by simp
  from tasks_after_gate(2,3) [OF s] g show "distinct busy" "set busy \<subseteq> {0..<length ps}"
    by simp_all
qed

lemma forward_gate_bound:
  assumes "forward_gate nw bt sched ps t c j = Some (free, busy)"
  shows "int (length busy) \<le> c" and "int free + int (length busy) = c"
    and "distinct busy" and "set busy \<subseteq> {0..<length ps}"
proof -
  from assms obtain s where c: "0 \<le> c"
    and s: "tasks_after (forward_prelude ps) (forward_run_one nw bt ps t) (nat c) (length ps)
              ([], []) sched j = Some s"
    and g: "free = sem s" "busy = running s"
    by (auto simp: forward_gate_def Semaphore_def split: if_splits)
  from tasks_after_gate(1) [OF s] c g show "int free + int (length busy) = c" by simp
  then show "int (length busy) \<le> c" by simp
  from tasks_after_gate(2,3) [OF s] g show "distinct busy" "set busy \<subseteq> {0..<length ps}"
    by simp_all
qed

lemma validate_socks_gate:
  assumes "validate_socks nw bt sched ps t c = Returns ok"
  shows "\<forall>j. \<exists>free busy. socks_gate nw bt sched ps t c j = Some (free, busy)"
    and "socks_gate nw bt sched ps t c 0 = Some (nat c, [])"
    and "socks_gate nw bt sched ps t c (length sched) = Some (nat c, [])"
proof -
  from assms obtain x where c: "0 \<le> c"
    and g: "gather (socks_prelude ps) (socks_run_one nw bt ps t) (nat c) (length ps) [] sched
              = Returns x"
    by (auto simp: validate_socks_def Semaphore_def bind_run_def split: if_splits run.splits)
  from gather_tasks_after(1) [OF g] c
  show "\<forall>j. \<exists>free busy. socks_gate nw bt sched ps t c j = Some (free, busy)"
    by (simp add: socks_gate_def Semaphore_def)
  from gather_tasks_after(2) [OF g] c
  show "socks_gate nw bt sched ps t c 0 = Some (nat c, [])"
    by (auto simp: socks_gate_def Semaphore_def)
  from gather_tasks_after(3) [OF g] c
  show "socks_gate nw bt sched ps t c (length sched) = Some (nat c, [])"
    by (auto simp: socks_gate_def Semaphore_def)
qed

lemma validate_forward_gate:
  assumes "validate_forward nw bt sched ps t c = Returns r"
  shows "\<forall>j. \<exists>free busy. forward_gate nw bt sched ps t c j = Some (free, busy)"
    and "forward_gate nw bt sched ps t c 0 = Some (nat c, [])"
    and "forward_gate nw bt sched ps t c (length sched) = Some (nat c, [])"
proof -
  from assms obtain x where c: "0 \<le> c"
    and g: "gather (forward_prelude ps) (forward_run_one nw bt ps t) (nat c) (length ps)
              ([], []) sched = Returns x"
    by (auto simp: validate_forward_def Semaphore_def bind_run_def Let_def
        split: if_splits run.splits)
  from gather_tasks_after(1) [OF g] c
  show "\<forall>j. \<exists>free busy. forward_gate nw bt sched ps t c j = Some (free, busy)"
    by (simp add: forward_gate_def Semaphore_def)
  from gather_tasks_after(2) [OF g] c
  show "forward_gate nw bt sched ps t c 0 = Some (nat c, [])"
    by (auto simp: forward_gate_def Semaphore_def)
  from gather_tasks_after(3) [OF g] c
  show "forward_gate nw bt sched ps t c (length sched) = Some (nat c, [])"
    by (auto simp: forward_gate_def Semaphore_def)
qed

section \<open>Validations of the scenario\<close>

lemma scenario_validate_socks5:
  "validate_socks scenario_net scenario_boot [Enter 0, Enter 1, Enter 2, Leave 2, Leave 1, Leave 0]
     [\<lparr>ptype = Socks5, host = ''7.7.7.7'', port = 1080\<rparr>,
      \<lparr>ptype = Socks5, host = ''8.8.8.8'', port = 1080\<rparr>,
      \<lparr>ptype = Socks5, host = ''9.9.9.9'', port = 1080\<rparr>] 8 200
   = Returns [(\<lparr>ptype = Socks5, host = ''9.9.9.9'', port = 1080\<rparr>, 10),
              (\<lparr>ptype = Socks5, host = ''8.8.8.8'', port = 1080\<rparr>, 30)]"
  by (simp add: eval_gather eval_probe scenario_net_def scenario_boot_def)

lemma scenario_validate_forward:
  "validate_forward scenario_net scenario_boot [Enter 0, Enter 1, Leave 0, Leave 1]
     [\<lparr>ptype = Http, host = ''1.2.3.4'', port = 8080\<rparr>,
      \<lparr>ptype = Http, host = ''5.6.7.8'', port = 3128\<rparr>] 8 200
   = Returns ([''1.2.3.4:8080''], [], 1, 0)"
  by (simp add: eval_gather eval_probe eval_string scenario_net_def scenario_boot_def)

lemma ties_validate_forward:
  "validate_forward ties_net scenario_boot [Enter 0, Enter 1, Leave 1, Leave 0]
     [\<lparr>ptype = Http, host = ''1.2.3.4'', port = 8080\<rparr>,
      \<lparr>ptype = Http, host = ''5.6.7.8'', port = 3128\<rparr>] 8 200
   = Returns ([''5.6.7.8:3128'', ''1.2.3.4:8080''], [], 2, 0)"
  by (simp add: eval_gather eval_probe eval_string ties_net_def scenario_boot_def)

section \<open>The run, step by step\<close>

lemma main_Returns:
  assumes "main cfg env = Returns out"
  shows "\<exists>fwd s4 s5.
           forward_validation cfg env = Returns fwd \<and>
           socks_validation Socks4 cfg env = Returns s4 \<and>
           socks_validation Socks5 cfg env = Returns s5 \<and>
           out = publish (candidates_of Http cfg env) (candidates_of Socks4 cfg env)
                   (candidates_of Socks5 cfg env) (fst fwd) (fst (snd fwd)) s4 s5"
  using assms
  by (auto simp: main_def bind_run_def lift_error_def Let_def forward_validation_def
      socks_validation_def candidates_of_def proxies_of_def schedule_of_def
      split: sum.splits run.splits)

section \<open>The scenario, evaluated\<close>

lemma scenario_sources:
  "read_sources (Some (''f http'' @ [CHR 0x0A] @ ''# more'' @ [CHR 0x0A] @ ''s SOCKS5''
                           @ [CHR 0x0A] @ ''x socks4''))
     = Inr [(''f'', ''http''), (''s'', ''socks5''), (''x'', ''socks4'')]"
  by (simp add: read_sources_def source_item_def eval_string)

lemma scenario_scraped:
  "scrape_all_sources (sources_file scenario_env) (fetch scenario_env)
     = Inr \<lparr>forward = {''5.6.7.8:3128'', ''1.2.3.4:8080''}, socks4 = {},
            socks5 = {''9.9.9.9:1080'', ''8.8.8.8:1080'', ''7.7.7.7:1080''}\<rparr>"
proof -
  have "sources_file scenario_env = Some (''f http'' @ [CHR 0x0A] @ ''# more'' @ [CHR 0x0A]
      @ ''s SOCKS5'' @ [CHR 0x0A] @ ''x socks4'')"
    by (simp add: scenario_env_def)
  then show ?thesis
    by (simp only: scrape_all_sources_def scenario_sources)
       (simp add: add_source_def scenario_env_def scenario_fetch_def eval_string eval_parser
          insert_commute)
qed

lemma unreachable_scraped:
  "scrape_all_sources (sources_file scenario_env) (\<lambda>u. None)
     = Inr \<lparr>forward = {}, socks4 = {}, socks5 = {}\<rparr>"
proof -
  have "sources_file scenario_env = Some (''f http'' @ [CHR 0x0A] @ ''# more'' @ [CHR 0x0A]
      @ ''s SOCKS5'' @ [CHR 0x0A] @ ''x socks4'')"
    by (simp add: scenario_env_def)
  then show ?thesis
    by (simp only: scrape_all_sources_def scenario_sources) (simp add: add_source_def)
qed

lemma capped_forward:
  "capped scenario_cfg {''5.6.7.8:3128'', ''1.2.3.4:8080''} = [''1.2.3.4:8080'', ''5.6.7.8:3128'']"
proof -
  have "{''5.6.7.8:3128'', ''1.2.3.4:8080''} = set [''5.6.7.8:3128'', ''1.2.3.4:8080'']"
    by simp
  then show ?thesis
    by (simp only: capped_def sorted_list_of_set_list) (simp add: slice_to_def scenario_cfg_def)
qed

lemma capped_socks5:
  "capped scenario_cfg {''9.9.9.9:1080'', ''8.8.8.8:1080'', ''7.7.7.7:1080''}
     = [''7.7.7.7:1080'', ''8.8.8.8:1080'', ''9.9.9.9:1080'']"
proof -
  have "{''9.9.9.9:1080'', ''8.8.8.8:1080'', ''7.7.7.7:1080''}
      = set [''9.9.9.9:1080'', ''8.8.8.8:1080'', ''7.7.7.7:1080'']"
    by simp
  then show ?thesis
    by (simp only: capped_def sorted_list_of_set_list) (simp add: slice_to_def scenario_cfg_def)
qed

lemma capped_empty: "capped cfg {} = []"
  by (simp add: capped_def slice_to_def)

lemma to_proxies_forward:
  "to_proxies Http [''1.2.3.4:8080'', ''5.6.7.8:3128'']
     = Inr [\<lparr>ptype = Http, host = ''1.2.3.4'', port = 8080\<rparr>,
            \<lparr>ptype = Http, host = ''5.6.7.8'', port = 3128\<rparr>]"
  by (simp add: split_colon_def eval_string)

lemma to_proxies_socks5:
  "to_proxies Socks5 [''7.7.7.7:1080'', ''8.8.8.8:1080'', ''9.9.9.9:1080'']
     = Inr [\<lparr>ptype = Socks5, host = ''7.7.7.7'', port = 1080\<rparr>,
            \<lparr>ptype = Socks5, host = ''8.8.8.8'', port = 1080\<rparr>,
            \<lparr>ptype = Socks5, host = ''9.9.9.9'', port = 1080\<rparr>]"
  by (simp add: split_colon_def eval_string)

lemma validate_socks_none: "validate_socks nw bt [] [] 8 200 = Returns []"
  by (simp add: eval_gather)

lemma validate_forward_none: "validate_forward nw bt [] [] 8 200 = Returns ([], [], 0, 0)"
  by (simp add: eval_gather)

lemma https_only_validate_forward:
  "validate_forward https_only_net scenario_boot [Enter 0, Enter 1, Leave 0, Leave 1]
     [\<lparr>ptype = Http, host = ''1.2.3.4'', port = 8080\<rparr>,
      \<lparr>ptype = Http, host = ''5.6.7.8'', port = 3128\<rparr>] 8 200
   = Returns ([], [''1.2.3.4:8080''], 0, 1)"
  by (simp add: eval_gather eval_probe eval_string https_only_net_def scenario_boot_def)

lemma https_only_validate_socks5:
  "validate_socks https_only_net scenario_boot [Enter 0, Enter 1, Enter 2, Leave 2, Leave 1, Leave 0]
     [\<lparr>ptype = Socks5, host = ''7.7.7.7'', port = 1080\<rparr>,
      \<lparr>ptype = Socks5, host = ''8.8.8.8'', port = 1080\<rparr>,
      \<lparr>ptype = Socks5, host = ''9.9.9.9'', port = 1080\<rparr>] 8 200
   = Returns []"
  by (simp add: eval_gather eval_probe https_only_net_def scenario_boot_def)

lemma scenario_publish:
  "publish [''1.2.3.4:8080'', ''5.6.7.8:3128''] [] [''7.7.7.7:1080'', ''8.8.8.8:1080'', ''9.9.9.9:1080'']
     [''1.2.3.4:8080''] [] []
     [(\<lparr>ptype = Socks5, host = ''9.9.9.9'', port = 1080\<rparr>, 10),
      (\<lparr>ptype = Socks5, host = ''8.8.8.8'', port = 1080\<rparr>, 30)]
   = scenario_published"
proof -
  have "set [''1.2.3.4:8080''] \<union> set [''1.2.3.4:8080''] \<union> set []
          \<union> set [''9.9.9.9:1080'', ''8.8.8.8:1080'']
      = set [''1.2.3.4:8080'', ''9.9.9.9:1080'', ''8.8.8.8:1080'']"
    by auto
  then have "sorted_list_of_set (set [''1.2.3.4:8080''] \<union> set [''1.2.3.4:8080''] \<union> set []
          \<union> set [''9.9.9.9:1080'', ''8.8.8.8:1080''])
      = [''1.2.3.4:8080'', ''8.8.8.8:1080'', ''9.9.9.9:1080'']"
    by (simp only: sorted_list_of_set_list) simp
  then show ?thesis
    by (simp add: publish_def scenario_published_def hostport_def eval_string)
qed

lemma https_only_publish:
  "publish [''1.2.3.4:8080'', ''5.6.7.8:3128''] [] [''7.7.7.7:1080'', ''8.8.8.8:1080'', ''9.9.9.9:1080'']
     [] [''1.2.3.4:8080''] [] []
   = https_only_published"
proof -
  have "set [] \<union> set [''1.2.3.4:8080''] \<union> set [] \<union> set [] = set [''1.2.3.4:8080'']"
    by auto
  then have "sorted_list_of_set (set [] \<union> set [''1.2.3.4:8080''] \<union> set [] \<union> set [])
      = [''1.2.3.4:8080'']"
    by (simp only: sorted_list_of_set_list) simp
  then show ?thesis
    by (simp add: publish_def https_only_published_def)
qed

lemma nothing_publish: "publish [] [] [] [] [] [] [] = nothing_published"
  by (simp add: publish_def nothing_published_def)

lemma scenario_cfg_simps:
  "DEFAULT_TIMEOUT_SEC scenario_cfg = 8" "CONCURRENCY scenario_cfg = 200"
  by (simp_all add: scenario_cfg_def)

lemma scenario_env_simps:
  "net scenario_env = scenario_net" "boot scenario_env = scenario_boot"
  "sched_forward scenario_env = [Enter 0, Enter 1, Leave 0, Leave 1]"
  "sched_socks4 scenario_env = []"
  "sched_socks5 scenario_env = [Enter 0, Enter 1, Enter 2, Leave 2, Leave 1, Leave 0]"
  by (simp_all add: scenario_env_def)

lemma https_only_env_simps:
  "sources_file https_only_env = sources_file scenario_env"
  "fetch https_only_env = fetch scenario_env"
  "net https_only_env = https_only_net" "boot https_only_env = scenario_boot"
  "sched_forward https_only_env = [Enter 0, Enter 1, Leave 0, Leave 1]"
  "sched_socks4 https_only_env = []"
  "sched_socks5 https_only_env = [Enter 0, Enter 1, Enter 2, Leave 2, Leave 1, Leave 0]"
  by (simp_all add: https_only_env_def scenario_env_def)

lemma unreachable_env_simps:
  "sources_file unreachable_env = sources_file scenario_env"
  "fetch unreachable_env = (\<lambda>u. None)"
  "net unreachable_env = scenario_net" "boot unreachable_env = scenario_boot"
  "sched_forward unreachable_env = []"
  "sched_socks4 unreachable_env = []"
  "sched_socks5 unreachable_env = []"
  by (simp_all add: unreachable_env_def scenario_env_def)

lemmas run_steps =
  lift_error_def bind_run_def sum.case run.case scraped.select_convs Let_def to_proxies.simps(1)
  fst_conv snd_conv proxy_type.case
  capped_forward capped_socks5 capped_empty to_proxies_forward to_proxies_socks5
  scenario_cfg_simps

lemma scenario_run: "main scenario_cfg scenario_env = Returns scenario_published"
  by (simp only: main_def scenario_scraped run_steps scenario_env_simps
      scenario_validate_forward scenario_validate_socks5 validate_socks_none scenario_publish)

lemma https_only_run: "main scenario_cfg https_only_env = Returns https_only_published"
  by (simp only: main_def https_only_env_simps scenario_scraped run_steps
      https_only_validate_forward https_only_validate_socks5 validate_socks_none
      https_only_publish)

lemma unreachable_run: "main scenario_cfg unreachable_env = Returns nothing_published"
  by (simp only: main_def unreachable_env_simps unreachable_scraped run_steps
      validate_forward_none validate_socks_none nothing_publish)

lemma scenario_forward_validation:
  "forward_validation scenario_cfg scenario_env = Returns ([''1.2.3.4:8080''], [], 1, 0)"
  by (simp only: forward_validation_def proxies_of_def candidates_of_def scenario_scraped
      run_steps scenario_env_simps scenario_validate_forward)

lemma https_only_forward_validation:
  "forward_validation scenario_cfg https_only_env = Returns ([], [''1.2.3.4:8080''], 0, 1)"
  by (simp only: forward_validation_def proxies_of_def candidates_of_def https_only_env_simps
      scenario_scraped run_steps https_only_validate_forward)

lemma unreachable_forward_validation:
  "forward_validation scenario_cfg unreachable_env = Returns ([], [], 0, 0)"
  by (simp only: forward_validation_def proxies_of_def candidates_of_def unreachable_env_simps
      unreachable_scraped run_steps validate_forward_none)

lemma scenario_forward_proxies:
  "proxies_of Http scenario_cfg scenario_env
     = [\<lparr>ptype = Http, host = ''1.2.3.4'', port = 8080\<rparr>,
        \<lparr>ptype = Http, host = ''5.6.7.8'', port = 3128\<rparr>]"
  by (simp only: proxies_of_def candidates_of_def scenario_scraped run_steps)

lemma scenario_forward_probes:
  "http_ms_of scenario_cfg scenario_env \<lparr>ptype = Http, host = ''1.2.3.4'', port = 8080\<rparr> = Some 50"
  "https_ms_of scenario_cfg scenario_env \<lparr>ptype = Http, host = ''1.2.3.4'', port = 8080\<rparr> = None"
  "http_ms_of scenario_cfg scenario_env \<lparr>ptype = Http, host = ''5.6.7.8'', port = 3128\<rparr> = None"
  "https_ms_of scenario_cfg scenario_env \<lparr>ptype = Http, host = ''5.6.7.8'', port = 3128\<rparr> = None"
  by (simp_all add: http_ms_of_def https_ms_of_def scenario_cfg_simps scenario_env_simps
      eval_probe scenario_net_def scenario_boot_def)

lemma scenario_socks_proxies:
  "proxies_of Socks5 scenario_cfg scenario_env
     = [\<lparr>ptype = Socks5, host = ''7.7.7.7'', port = 1080\<rparr>,
        \<lparr>ptype = Socks5, host = ''8.8.8.8'', port = 1080\<rparr>,
        \<lparr>ptype = Socks5, host = ''9.9.9.9'', port = 1080\<rparr>]"
  "proxies_of Socks4 scenario_cfg scenario_env = []"
  by (simp_all only: proxies_of_def candidates_of_def scenario_scraped run_steps)

section \<open>Bounded concurrency\<close>

lemma scenario_gates:
  "socks_gate scenario_net scenario_boot [Enter 0, Enter 1, Enter 2, Leave 2, Leave 1, Leave 0]
     [\<lparr>ptype = Socks5, host = ''7.7.7.7'', port = 1080\<rparr>,
      \<lparr>ptype = Socks5, host = ''8.8.8.8'', port = 1080\<rparr>,
      \<lparr>ptype = Socks5, host = ''9.9.9.9'', port = 1080\<rparr>] 8 200 3 = Some (197, [2, 1, 0])"
  "forward_gate scenario_net scenario_boot [Enter 0, Enter 1, Leave 0, Leave 1]
     [\<lparr>ptype = Http, host = ''1.2.3.4'', port = 8080\<rparr>,
      \<lparr>ptype = Http, host = ''5.6.7.8'', port = 3128\<rparr>] 8 200 3 = Some (199, [1])"
  "socks_gate scenario_net scenario_boot [] [] 8 200 0 = Some (200, [])"
  by (simp_all add: socks_gate_def forward_gate_def tasks_after_def eval_gather eval_probe
      scenario_net_def scenario_boot_def)

lemma scenario_gate_of:
  "gate_of Socks5 scenario_cfg scenario_env 3 = Some (197, [2, 1, 0])"
  "gate_of Http scenario_cfg scenario_env 3 = Some (199, [1])"
  "gate_of Socks4 scenario_cfg scenario_env 0 = Some (200, [])"
  by (simp_all only: gate_of_def proxy_type.case scenario_env_simps scenario_cfg_simps
      scenario_socks_proxies scenario_forward_proxies scenario_gates)

lemma ceiling_two:
  "validate_socks scenario_net scenario_boot [Enter 0, Enter 1, Leave 1, Enter 2, Leave 0, Leave 2]
     [\<lparr>ptype = Socks5, host = ''7.7.7.7'', port = 1080\<rparr>,
      \<lparr>ptype = Socks5, host = ''8.8.8.8'', port = 1080\<rparr>,
      \<lparr>ptype = Socks5, host = ''9.9.9.9'', port = 1080\<rparr>] 8 2
   = Returns [(\<lparr>ptype = Socks5, host = ''9.9.9.9'', port = 1080\<rparr>, 10),
              (\<lparr>ptype = Socks5, host = ''8.8.8.8'', port = 1080\<rparr>, 30)]"
  "socks_gate scenario_net scenario_boot [Enter 0, Enter 1, Leave 1, Enter 2, Leave 0, Leave 2]
     [\<lparr>ptype = Socks5, host = ''7.7.7.7'', port = 1080\<rparr>,
      \<lparr>ptype = Socks5, host = ''8.8.8.8'', port = 1080\<rparr>,
      \<lparr>ptype = Socks5, host = ''9.9.9.9'', port = 1080\<rparr>] 8 2 2 = Some (0, [1, 0])"
  "socks_gate scenario_net scenario_boot [Enter 0, Enter 1, Enter 2]
     [\<lparr>ptype = Socks5, host = ''7.7.7.7'', port = 1080\<rparr>,
      \<lparr>ptype = Socks5, host = ''8.8.8.8'', port = 1080\<rparr>,
      \<lparr>ptype = Socks5, host = ''9.9.9.9'', port = 1080\<rparr>] 8 2 3 = None"
  by (simp_all add: socks_gate_def tasks_after_def eval_gather eval_probe
      scenario_net_def scenario_boot_def)

lemma ceiling_one:
  "validate_forward scenario_net scenario_boot [Enter 0, Leave 0, Enter 1, Leave 1]
     [\<lparr>ptype = Http, host = ''1.2.3.4'', port = 8080\<rparr>,
      \<lparr>ptype = Http, host = ''5.6.7.8'', port = 3128\<rparr>] 8 1
   = Returns ([''1.2.3.4:8080''], [], 1, 0)"
  "forward_gate scenario_net scenario_boot [Enter 0, Leave 0, Enter 1, Leave 1]
     [\<lparr>ptype = Http, host = ''1.2.3.4'', port = 8080\<rparr>,
      \<lparr>ptype = Http, host = ''5.6.7.8'', port = 3128\<rparr>] 8 1 1 = Some (0, [0])"
  "forward_gate scenario_net scenario_boot [Enter 0, Enter 1]
     [\<lparr>ptype = Http, host = ''1.2.3.4'', port = 8080\<rparr>,
      \<lparr>ptype = Http, host = ''5.6.7.8'', port = 3128\<rparr>] 8 1 2 = None"
  by (simp_all add: forward_gate_def tasks_after_def eval_gather eval_probe eval_string
      scenario_net_def scenario_boot_def)

lemma main_gates:
  assumes "main cfg env = Returns out"
  shows "\<forall>j. \<exists>free busy. gate_of k cfg env j = Some (free, busy)"
    and "gate_of k cfg env 0 = Some (nat (CONCURRENCY cfg), [])"
    and "gate_of k cfg env (length (schedule_of k env)) = Some (nat (CONCURRENCY cfg), [])"
proof -
  from main_Returns [OF assms] obtain fwd s4 s5 where
    f: "forward_validation cfg env = Returns fwd" and
    v4: "socks_validation Socks4 cfg env = Returns s4" and
    v5: "socks_validation Socks5 cfg env = Returns s5"
    by blast
  note f' = f [unfolded forward_validation_def]
  note v4' = v4 [unfolded socks_validation_def schedule_of_def proxy_type.case]
  note v5' = v5 [unfolded socks_validation_def schedule_of_def proxy_type.case]
  show "\<forall>j. \<exists>free busy. gate_of k cfg env j = Some (free, busy)"
    using validate_forward_gate(1) [OF f'] validate_socks_gate(1) [OF v4']
      validate_socks_gate(1) [OF v5']
    by (cases k) (simp_all add: gate_of_def)
  show "gate_of k cfg env 0 = Some (nat (CONCURRENCY cfg), [])"
    using validate_forward_gate(2) [OF f'] validate_socks_gate(2) [OF v4']
      validate_socks_gate(2) [OF v5']
    by (cases k) (simp_all add: gate_of_def)
  show "gate_of k cfg env (length (schedule_of k env)) = Some (nat (CONCURRENCY cfg), [])"
    using validate_forward_gate(3) [OF f'] validate_socks_gate(3) [OF v4']
      validate_socks_gate(3) [OF v5']
    by (cases k) (simp_all add: gate_of_def schedule_of_def)
qed

lemma gate_of_bound:
  assumes "gate_of k cfg env j = Some (free, busy)"
  shows "int (length busy) \<le> CONCURRENCY cfg" and "int free + int (length busy) = CONCURRENCY cfg"
    and "distinct busy" and "set busy \<subseteq> {0..<length (proxies_of k cfg env)}"
proof -
  show "int (length busy) \<le> CONCURRENCY cfg"
    using assms by (cases k) (auto simp: gate_of_def dest: forward_gate_bound(1) socks_gate_bound(1))
  show "int free + int (length busy) = CONCURRENCY cfg"
    using assms by (cases k) (auto simp: gate_of_def dest: forward_gate_bound(2) socks_gate_bound(2))
  show "distinct busy"
    using assms by (cases k) (auto simp: gate_of_def dest: forward_gate_bound(3) socks_gate_bound(3))
  show "set busy \<subseteq> {0..<length (proxies_of k cfg env)}"
    using assms
    by (cases k) (simp_all add: gate_of_def forward_gate_bound(4) socks_gate_bound(4))
qed

text \<open>
  C9. A validator makes its semaphore from the ceiling it is given, when it is called,
  and runs its tasks through it: the gate of a validation is the counter of this
  semaphore and the probes of this validation that are in flight. At every point of an
  execution, whatever the number of proxies, the probes in flight are distinct tasks
  of the validation, they are no more than the ceiling, and the counter is the ceiling
  less their number. A validation that returns has passed through such a gate at each
  point of its execution, from a gate that holds the whole ceiling with no probe in
  flight to a gate that holds it again. In a run that returns this holds of each of
  the three classes with the concurrency of the configuration: the validation of each
  class begins with a gate of its own that holds the whole ceiling, and that gate
  counts the probes of this class and no others. The executions of the validations of
  the other two classes have no effect on it.
\<close>

theorem bounded_concurrency:
  "(socks_gate nw bt sched ps t c j = Some (free, busy) \<longrightarrow>
      int (length busy) \<le> c \<and> distinct busy \<and> set busy \<subseteq> {0..<length ps} \<and>
      int free + int (length busy) = c) \<and>
   (forward_gate nw bt sched ps t c j = Some (free, busy) \<longrightarrow>
      int (length busy) \<le> c \<and> distinct busy \<and> set busy \<subseteq> {0..<length ps} \<and>
      int free + int (length busy) = c) \<and>
   (validate_socks nw bt sched ps t c = Returns ok \<longrightarrow>
      (\<forall>j. \<exists>free busy. socks_gate nw bt sched ps t c j = Some (free, busy)) \<and>
      socks_gate nw bt sched ps t c 0 = Some (nat c, []) \<and>
      socks_gate nw bt sched ps t c (length sched) = Some (nat c, [])) \<and>
   (validate_forward nw bt sched ps t c = Returns r \<longrightarrow>
      (\<forall>j. \<exists>free busy. forward_gate nw bt sched ps t c j = Some (free, busy)) \<and>
      forward_gate nw bt sched ps t c 0 = Some (nat c, []) \<and>
      forward_gate nw bt sched ps t c (length sched) = Some (nat c, [])) \<and>
   (main cfg env = Returns out \<longrightarrow>
      (\<forall>k j. \<exists>free busy. gate_of k cfg env j = Some (free, busy) \<and>
         int (length busy) \<le> CONCURRENCY cfg \<and> distinct busy \<and>
         set busy \<subseteq> {0..<length (proxies_of k cfg env)} \<and>
         int free + int (length busy) = CONCURRENCY cfg) \<and>
      (\<forall>k. gate_of k cfg env 0 = Some (nat (CONCURRENCY cfg), []) \<and>
           gate_of k cfg env (length (schedule_of k env)) = Some (nat (CONCURRENCY cfg), []))) \<and>
   gate_of Http cfg (env\<lparr>sched_socks4 := sa, sched_socks5 := sb\<rparr>) j = gate_of Http cfg env j \<and>
   gate_of Socks4 cfg (env\<lparr>sched_forward := sa, sched_socks5 := sb\<rparr>) j
     = gate_of Socks4 cfg env j \<and>
   gate_of Socks5 cfg (env\<lparr>sched_forward := sa, sched_socks4 := sb\<rparr>) j
     = gate_of Socks5 cfg env j"
proof (intro conjI impI allI)
  show "gate_of Http cfg (env\<lparr>sched_socks4 := sa, sched_socks5 := sb\<rparr>) j = gate_of Http cfg env j"
    by (simp add: gate_of_def proxies_of_def candidates_of_def)
  show "gate_of Socks4 cfg (env\<lparr>sched_forward := sa, sched_socks5 := sb\<rparr>) j
     = gate_of Socks4 cfg env j"
    by (simp add: gate_of_def proxies_of_def candidates_of_def)
  show "gate_of Socks5 cfg (env\<lparr>sched_forward := sa, sched_socks4 := sb\<rparr>) j
     = gate_of Socks5 cfg env j"
    by (simp add: gate_of_def proxies_of_def candidates_of_def)
next
  assume "socks_gate nw bt sched ps t c j = Some (free, busy)"
  from socks_gate_bound [OF this]
  show "int (length busy) \<le> c" "distinct busy" "set busy \<subseteq> {0..<length ps}"
    "int free + int (length busy) = c"
    by simp_all
next
  assume "forward_gate nw bt sched ps t c j = Some (free, busy)"
  from forward_gate_bound [OF this]
  show "int (length busy) \<le> c" "distinct busy" "set busy \<subseteq> {0..<length ps}"
    "int free + int (length busy) = c"
    by simp_all
next
  assume v: "validate_socks nw bt sched ps t c = Returns ok"
  from validate_socks_gate(1) [OF v]
  show "\<exists>free busy. socks_gate nw bt sched ps t c j = Some (free, busy)" for j
    by (rule spec)
  from validate_socks_gate(2,3) [OF v]
  show "socks_gate nw bt sched ps t c 0 = Some (nat c, [])"
    "socks_gate nw bt sched ps t c (length sched) = Some (nat c, [])"
    by simp_all
next
  assume v: "validate_forward nw bt sched ps t c = Returns r"
  from validate_forward_gate(1) [OF v]
  show "\<exists>free busy. forward_gate nw bt sched ps t c j = Some (free, busy)" for j
    by (rule spec)
  from validate_forward_gate(2,3) [OF v]
  show "forward_gate nw bt sched ps t c 0 = Some (nat c, [])"
    "forward_gate nw bt sched ps t c (length sched) = Some (nat c, [])"
    by simp_all
next
  assume m: "main cfg env = Returns out"
  show "\<exists>free busy. gate_of k cfg env j = Some (free, busy) \<and>
         int (length busy) \<le> CONCURRENCY cfg \<and> distinct busy \<and>
         set busy \<subseteq> {0..<length (proxies_of k cfg env)} \<and>
         int free + int (length busy) = CONCURRENCY cfg" for k j
  proof -
    from main_gates(1) [OF m, of k] obtain free busy where
      g: "gate_of k cfg env j = Some (free, busy)"
      by blast
    from g gate_of_bound [OF g] show ?thesis by blast
  qed
  from main_gates(2,3) [OF m]
  show "gate_of k cfg env 0 = Some (nat (CONCURRENCY cfg), [])"
    "gate_of k cfg env (length (schedule_of k env)) = Some (nat (CONCURRENCY cfg), [])" for k
    by simp_all
qed

theorem bounded_concurrency_witness:
  "validate_socks scenario_net scenario_boot [Enter 0, Enter 1, Leave 1, Enter 2, Leave 0, Leave 2]
     [\<lparr>ptype = Socks5, host = ''7.7.7.7'', port = 1080\<rparr>,
      \<lparr>ptype = Socks5, host = ''8.8.8.8'', port = 1080\<rparr>,
      \<lparr>ptype = Socks5, host = ''9.9.9.9'', port = 1080\<rparr>] 8 2
   = Returns [(\<lparr>ptype = Socks5, host = ''9.9.9.9'', port = 1080\<rparr>, 10),
              (\<lparr>ptype = Socks5, host = ''8.8.8.8'', port = 1080\<rparr>, 30)] \<and>
   socks_gate scenario_net scenario_boot [Enter 0, Enter 1, Leave 1, Enter 2, Leave 0, Leave 2]
     [\<lparr>ptype = Socks5, host = ''7.7.7.7'', port = 1080\<rparr>,
      \<lparr>ptype = Socks5, host = ''8.8.8.8'', port = 1080\<rparr>,
      \<lparr>ptype = Socks5, host = ''9.9.9.9'', port = 1080\<rparr>] 8 2 2 = Some (0, [1, 0]) \<and>
   int (length [1, 0 :: nat]) \<le> 2 \<and>
   socks_gate scenario_net scenario_boot [Enter 0, Enter 1, Leave 1, Enter 2, Leave 0, Leave 2]
     [\<lparr>ptype = Socks5, host = ''7.7.7.7'', port = 1080\<rparr>,
      \<lparr>ptype = Socks5, host = ''8.8.8.8'', port = 1080\<rparr>,
      \<lparr>ptype = Socks5, host = ''9.9.9.9'', port = 1080\<rparr>] 8 2 6 = Some (2, []) \<and>
   socks_gate scenario_net scenario_boot [Enter 0, Enter 1, Enter 2]
     [\<lparr>ptype = Socks5, host = ''7.7.7.7'', port = 1080\<rparr>,
      \<lparr>ptype = Socks5, host = ''8.8.8.8'', port = 1080\<rparr>,
      \<lparr>ptype = Socks5, host = ''9.9.9.9'', port = 1080\<rparr>] 8 2 3 = None \<and>
   validate_forward scenario_net scenario_boot [Enter 0, Leave 0, Enter 1, Leave 1]
     [\<lparr>ptype = Http, host = ''1.2.3.4'', port = 8080\<rparr>,
      \<lparr>ptype = Http, host = ''5.6.7.8'', port = 3128\<rparr>] 8 1
   = Returns ([''1.2.3.4:8080''], [], 1, 0) \<and>
   forward_gate scenario_net scenario_boot [Enter 0, Leave 0, Enter 1, Leave 1]
     [\<lparr>ptype = Http, host = ''1.2.3.4'', port = 8080\<rparr>,
      \<lparr>ptype = Http, host = ''5.6.7.8'', port = 3128\<rparr>] 8 1 1 = Some (0, [0]) \<and>
   int (length [0 :: nat]) \<le> 1 \<and>
   forward_gate scenario_net scenario_boot [Enter 0, Leave 0, Enter 1, Leave 1]
     [\<lparr>ptype = Http, host = ''1.2.3.4'', port = 8080\<rparr>,
      \<lparr>ptype = Http, host = ''5.6.7.8'', port = 3128\<rparr>] 8 1 0 = Some (1, []) \<and>
   forward_gate scenario_net scenario_boot [Enter 0, Enter 1]
     [\<lparr>ptype = Http, host = ''1.2.3.4'', port = 8080\<rparr>,
      \<lparr>ptype = Http, host = ''5.6.7.8'', port = 3128\<rparr>] 8 1 2 = None \<and>
   main scenario_cfg scenario_env = Returns scenario_published \<and>
   gate_of Socks5 scenario_cfg scenario_env 3 = Some (197, [2, 1, 0]) \<and>
   gate_of Http scenario_cfg scenario_env 3 = Some (199, [1]) \<and>
   gate_of Socks4 scenario_cfg scenario_env 0 = Some (200, []) \<and>
   gate_of Socks5 scenario_cfg scenario_env 0 = Some (200, []) \<and>
   gate_of Http scenario_cfg scenario_env 0 = Some (200, [])"
proof -
  note b = bounded_concurrency [where nw = scenario_net and bt = scenario_boot
      and sched = "[Enter 0, Enter 1, Leave 1, Enter 2, Leave 0, Leave 2]"
      and ps = "[\<lparr>ptype = Socks5, host = ''7.7.7.7'', port = 1080\<rparr>,
                 \<lparr>ptype = Socks5, host = ''8.8.8.8'', port = 1080\<rparr>,
                 \<lparr>ptype = Socks5, host = ''9.9.9.9'', port = 1080\<rparr>]"
      and t = 8 and c = 2 and j = 2 and free = 0 and busy = "[1, 0]"
      and ok = "[(\<lparr>ptype = Socks5, host = ''9.9.9.9'', port = 1080\<rparr>, 10),
                 (\<lparr>ptype = Socks5, host = ''8.8.8.8'', port = 1080\<rparr>, 30)]"
      and cfg = scenario_cfg and env = scenario_env and out = scenario_published]
  note f = bounded_concurrency [where nw = scenario_net and bt = scenario_boot
      and sched = "[Enter 0, Leave 0, Enter 1, Leave 1]"
      and ps = "[\<lparr>ptype = Http, host = ''1.2.3.4'', port = 8080\<rparr>,
                 \<lparr>ptype = Http, host = ''5.6.7.8'', port = 3128\<rparr>]"
      and t = 8 and c = 1 and j = 1 and free = 0 and busy = "[0]"
      and r = "([''1.2.3.4:8080''], [], 1, 0)"]
  from f [THEN conjunct2, THEN conjunct1, THEN mp, OF ceiling_one(2)]
  have 4: "int (length [0 :: nat]) \<le> 1" by (rule conjunct1)
  from f [THEN conjunct2, THEN conjunct2, THEN conjunct2, THEN conjunct1, THEN mp,
      OF ceiling_one(1)]
  have 5: "forward_gate scenario_net scenario_boot [Enter 0, Leave 0, Enter 1, Leave 1]
     [\<lparr>ptype = Http, host = ''1.2.3.4'', port = 8080\<rparr>,
      \<lparr>ptype = Http, host = ''5.6.7.8'', port = 3128\<rparr>] 8 1 0 = Some (1, [])"
    by simp
  from b ceiling_two(2) have 1: "int (length [1, 0 :: nat]) \<le> 2" by blast
  from b ceiling_two(1)
  have "socks_gate scenario_net scenario_boot
     [Enter 0, Enter 1, Leave 1, Enter 2, Leave 0, Leave 2]
     [\<lparr>ptype = Socks5, host = ''7.7.7.7'', port = 1080\<rparr>,
      \<lparr>ptype = Socks5, host = ''8.8.8.8'', port = 1080\<rparr>,
      \<lparr>ptype = Socks5, host = ''9.9.9.9'', port = 1080\<rparr>] 8 2
     (length [Enter 0, Enter 1, Leave 1, Enter 2, Leave 0, Leave 2]) = Some (nat 2, [])"
    by blast
  then have 2: "socks_gate scenario_net scenario_boot
     [Enter 0, Enter 1, Leave 1, Enter 2, Leave 0, Leave 2]
     [\<lparr>ptype = Socks5, host = ''7.7.7.7'', port = 1080\<rparr>,
      \<lparr>ptype = Socks5, host = ''8.8.8.8'', port = 1080\<rparr>,
      \<lparr>ptype = Socks5, host = ''9.9.9.9'', port = 1080\<rparr>] 8 2 6 = Some (2, [])"
    by (simp add: eval_nat_numeral)
  from b scenario_run
  have 3: "gate_of Socks5 scenario_cfg scenario_env 0 = Some (200, [])"
    "gate_of Http scenario_cfg scenario_env 0 = Some (200, [])"
    by (simp_all add: scenario_cfg_simps)
  from ceiling_two(1,2) 1 2 ceiling_two(3) ceiling_one(1,2) 4 5 ceiling_one(3) scenario_run
    scenario_gate_of 3
  show ?thesis by (intro conjI)
qed

section \<open>The fallback and the list of all working proxies\<close>

text \<open>
  C1. In every run that returns, the published http list is the list the forward
  validation returned. If the https list it returned is empty and the http list is
  not, the published https list is the published http list, entry by entry; if both are
  empty, the published https list is empty; and if the https list is not empty, it is
  published as it is and the http list is still the list that was returned, empty or
  not: nothing is ever copied from https to http.
\<close>

theorem fallback_policy:
  assumes "main cfg env = Returns out"
  shows "\<exists>http https counts.
           forward_validation cfg env = Returns (http, https, counts) \<and>
           http_txt out = http \<and>
           (https = [] \<and> http \<noteq> [] \<longrightarrow> https_txt out = http_txt out) \<and>
           (https = [] \<and> http = [] \<longrightarrow> https_txt out = []) \<and>
           (https \<noteq> [] \<longrightarrow> https_txt out = https)"
proof -
  from main_Returns [OF assms] obtain fwd s4 s5 where
    f: "forward_validation cfg env = Returns fwd" and
    out: "out = publish (candidates_of Http cfg env) (candidates_of Socks4 cfg env)
                   (candidates_of Socks5 cfg env) (fst fwd) (fst (snd fwd)) s4 s5"
    by blast
  obtain http https counts where fwd: "fwd = (http, https, counts)"
    by (cases fwd) auto
  have "http_txt out = http"
    and "https = [] \<and> http \<noteq> [] \<longrightarrow> https_txt out = http_txt out"
    and "https = [] \<and> http = [] \<longrightarrow> https_txt out = []"
    and "https \<noteq> [] \<longrightarrow> https_txt out = https"
    by (simp_all add: out fwd publish_def Let_def)
  with f fwd show ?thesis by blast
qed

theorem fallback_policy_witness:
  "main scenario_cfg scenario_env = Returns scenario_published \<and>
   forward_validation scenario_cfg scenario_env = Returns ([''1.2.3.4:8080''], [], 1, 0) \<and>
   https_txt scenario_published = http_txt scenario_published \<and>
   main scenario_cfg unreachable_env = Returns nothing_published \<and>
   forward_validation scenario_cfg unreachable_env = Returns ([], [], 0, 0) \<and>
   https_txt nothing_published = [] \<and>
   main scenario_cfg https_only_env = Returns https_only_published \<and>
   forward_validation scenario_cfg https_only_env = Returns ([], [''1.2.3.4:8080''], 0, 1) \<and>
   https_txt https_only_published = [''1.2.3.4:8080''] \<and>
   http_txt https_only_published = []"
  using fallback_policy [OF scenario_run] fallback_policy [OF unreachable_run]
    fallback_policy [OF https_only_run]
    scenario_run unreachable_run https_only_run
    scenario_forward_validation unreachable_forward_validation https_only_forward_validation
  by simp

text \<open>
  C6. In every run that returns, the published \<open>all\<close> list is the sorted list of the set
  of the entries of the four other published lists: it has exactly their entries, it
  has none twice, and it ascends in the order of strings, not in an order of latency.
\<close>

theorem all_list_union:
  assumes "main cfg env = Returns out"
  shows "all_txt out = sorted_list_of_set
           (set (http_txt out) \<union> set (https_txt out) \<union> set (socks4_txt out)
              \<union> set (socks5_txt out)) \<and>
         set (all_txt out)
           = set (http_txt out) \<union> set (https_txt out) \<union> set (socks4_txt out)
               \<union> set (socks5_txt out) \<and>
         distinct (all_txt out) \<and> sorted (all_txt out)"
proof -
  from main_Returns [OF assms] obtain fwd s4 s5 where
    "forward_validation cfg env = Returns fwd" and
    out: "out = publish (candidates_of Http cfg env) (candidates_of Socks4 cfg env)
                   (candidates_of Socks5 cfg env) (fst fwd) (fst (snd fwd)) s4 s5"
    by blast
  have eq: "all_txt out = sorted_list_of_set
           (set (http_txt out) \<union> set (https_txt out) \<union> set (socks4_txt out)
              \<union> set (socks5_txt out))"
    by (simp add: out publish_def Let_def)
  have fin: "finite (set (http_txt out) \<union> set (https_txt out) \<union> set (socks4_txt out)
              \<union> set (socks5_txt out))"
    by simp
  show ?thesis
    by (simp only: eq set_sorted_list_of_set [OF fin] distinct_sorted_list_of_set
        sorted_sorted_list_of_set simp_thms)
qed

theorem all_list_union_witness:
  "main scenario_cfg scenario_env = Returns scenario_published \<and>
   all_txt scenario_published = [''1.2.3.4:8080'', ''8.8.8.8:1080'', ''9.9.9.9:1080''] \<and>
   set [''1.2.3.4:8080'', ''8.8.8.8:1080'', ''9.9.9.9:1080'']
     = set (http_txt scenario_published) \<union> set (https_txt scenario_published)
         \<union> set (socks4_txt scenario_published) \<union> set (socks5_txt scenario_published) \<and>
   distinct (all_txt scenario_published) \<and> sorted (all_txt scenario_published)"
  using all_list_union [OF scenario_run] scenario_run
  by (simp add: scenario_published_def)

section \<open>Where the published entries come from\<close>

lemma set_map_filter: "set (List.map_filter f xs) = {y. \<exists>x\<in>set xs. f x = Some y}"
  by (induction xs) (auto simp: map_filter_simps split: option.splits)

lemma map_filter_Nil_iff: "List.map_filter f xs = [] \<longleftrightarrow> (\<forall>x\<in>set xs. f x = None)"
  by (induction xs) (auto simp: map_filter_simps split: option.splits)

lemma all_tasks_leave:
  assumes "mset (leaves sched) = mset [0..<length ps]"
  shows "set (leaves sched) = {0..<length ps}"
proof -
  from assms have "set_mset (mset (leaves sched)) = set_mset (mset [0..<length ps])"
    by simp
  then show ?thesis by simp
qed

lemma validate_forward_http_entry:
  assumes r: "validate_forward nw bt sched ps t c = Returns fwd" and hp: "hp \<in> set (fst fwd)"
  shows "\<exists>p\<in>set ps. hostport p = hp \<and> fst (fst (check_forward_proxy nw p t (bt p))) \<noteq> None"
proof -
  from validate_forward_Returns(1) [OF r] hp
  obtain ms where "(hp, ms) \<in> set (http_outcomes nw bt sched ps t)"
    by auto
  then obtain i where i: "i \<in> set (leaves sched)"
    and e: "fst (fst (check_forward_proxy nw (ps ! i) t (bt (ps ! i)))) = Some ms"
    and h: "hp = hostport (ps ! i)"
    by (auto simp: http_outcomes_def set_map_filter)
  from i all_tasks_leave [OF validate_forward_Returns(5) [OF r]] have "ps ! i \<in> set ps"
    by simp
  with e h show ?thesis by auto
qed

lemma validate_forward_https_entry:
  assumes r: "validate_forward nw bt sched ps t c = Returns fwd" and hp: "hp \<in> set (fst (snd fwd))"
  shows "\<exists>p\<in>set ps. hostport p = hp \<and> snd (fst (check_forward_proxy nw p t (bt p))) \<noteq> None"
proof -
  from validate_forward_Returns(2) [OF r] hp
  obtain ms where "(hp, ms) \<in> set (https_outcomes nw bt sched ps t)"
    by auto
  then obtain i where i: "i \<in> set (leaves sched)"
    and e: "snd (fst (check_forward_proxy nw (ps ! i) t (bt (ps ! i)))) = Some ms"
    and h: "hp = hostport (ps ! i)"
    by (auto simp: https_outcomes_def set_map_filter)
  from i all_tasks_leave [OF validate_forward_Returns(5) [OF r]] have "ps ! i \<in> set ps"
    by simp
  with e h show ?thesis by auto
qed

lemma validate_forward_no_https:
  assumes r: "validate_forward nw bt sched ps t c = Returns fwd" and e: "fst (snd fwd) = []"
    and q: "q \<in> set ps"
  shows "snd (fst (check_forward_proxy nw q t (bt q))) = None"
proof -
  from validate_forward_Returns(2) [OF r] e have "https_outcomes nw bt sched ps t = []"
    by (metis length_0_conv length_map length_sort)
  then have n: "\<forall>i\<in>set (leaves sched).
      snd (fst (check_forward_proxy nw (ps ! i) t (bt (ps ! i)))) = None"
    by (simp add: https_outcomes_def map_filter_Nil_iff)
  from q obtain i where "i < length ps" "q = ps ! i"
    by (auto simp: in_set_conv_nth)
  with n all_tasks_leave [OF validate_forward_Returns(5) [OF r]] show ?thesis
    by simp
qed

lemma validate_socks_entry:
  assumes r: "validate_socks nw bt sched ps t c = Returns ok" and x: "x \<in> set ok"
  shows "fst x \<in> set ps \<and> fst (check_socks nw (fst x) t (bt (fst x))) \<noteq> None"
proof -
  from validate_socks_Returns(1) [OF r] x have "x \<in> set (socks_outcomes nw bt sched ps t)"
    by simp
  then obtain i where i: "i \<in> set (leaves sched)"
    and e: "fst (check_socks nw (ps ! i) t (bt (ps ! i))) = Some (snd x)"
    and h: "fst x = ps ! i"
    by (auto simp: socks_outcomes_def set_map_filter)
  from i all_tasks_leave [OF validate_socks_Returns(2) [OF r]] have "ps ! i \<in> set ps"
    by simp
  with e h show ?thesis by simp
qed

section \<open>A run without candidates\<close>

lemma gather_no_tasks:
  "gather prelude body c 0 a sched = (if sched = [] then Returns a else NotARun)"
proof (cases sched)
  case Nil
  then show ?thesis by (simp add: gather_def initial_def)
next
  case (Cons e es)
  have "fire prelude body e (initial c 0 a) = None"
    by (cases e) (simp_all add: initial_def)
  with Cons show ?thesis by (simp add: gather_def)
qed

lemma validate_forward_no_proxies:
  "0 \<le> c \<Longrightarrow> validate_forward nw bt sched [] t c
     = (if sched = [] then Returns ([], [], 0, 0) else NotARun)"
  by (simp add: validate_forward_def Semaphore_def gather_no_tasks bind_run_def)

lemma validate_socks_no_proxies:
  "0 \<le> c \<Longrightarrow> validate_socks nw bt sched [] t c = (if sched = [] then Returns [] else NotARun)"
  by (simp add: validate_socks_def Semaphore_def gather_no_tasks bind_run_def)

text \<open>
  C3, as the code has it. A run whose sources file is missing raises before anything
  is published. A run that scrapes no candidate for any class does not raise for that:
  unless the concurrency is negative, it returns and publishes the five lists empty
  and all counts zero.
\<close>

theorem empty_input:
  "(sources_file env = None \<longrightarrow> main cfg env = Raises FileNotFoundError) \<and>
   (scrape_all_sources (sources_file env) (fetch env)
        = Inr \<lparr>forward = {}, socks4 = {}, socks5 = {}\<rparr> \<and>
      0 \<le> CONCURRENCY cfg \<and> main cfg env \<noteq> NotARun \<longrightarrow>
    main cfg env = Returns nothing_published)"
proof (intro conjI impI)
  assume "sources_file env = None"
  then show "main cfg env = Raises FileNotFoundError"
    by (simp add: main_def scrape_all_sources_def read_sources_def lift_error_def bind_run_def)
next
  assume a: "scrape_all_sources (sources_file env) (fetch env)
        = Inr \<lparr>forward = {}, socks4 = {}, socks5 = {}\<rparr> \<and>
      0 \<le> CONCURRENCY cfg \<and> main cfg env \<noteq> NotARun"
  then have m: "main cfg env =
      bind_run (if sched_forward env = [] then Returns ([], [], 0, 0) else NotARun) (\<lambda>fwd.
      bind_run (if sched_socks4 env = [] then Returns [] else NotARun) (\<lambda>socks4_ok.
      bind_run (if sched_socks5 env = [] then Returns [] else NotARun) (\<lambda>socks5_ok.
      Returns (publish [] [] [] (fst fwd) (fst (snd fwd)) socks4_ok socks5_ok))))"
    by (simp add: main_def lift_error_def bind_run_def capped_empty
        validate_forward_no_proxies validate_socks_no_proxies)
  with a show "main cfg env = Returns nothing_published"
    by (auto simp: bind_run_def nothing_publish split: if_splits)
qed

theorem empty_input_witness:
  "sources_file (scenario_env\<lparr>sources_file := None\<rparr>) = None \<and>
   main scenario_cfg (scenario_env\<lparr>sources_file := None\<rparr>) = Raises FileNotFoundError \<and>
   scrape_all_sources (sources_file unreachable_env) (fetch unreachable_env)
     = Inr \<lparr>forward = {}, socks4 = {}, socks5 = {}\<rparr> \<and>
   0 \<le> CONCURRENCY scenario_cfg \<and>
   main scenario_cfg unreachable_env \<noteq> NotARun \<and>
   main scenario_cfg unreachable_env = Returns nothing_published"
proof -
  have 1: "sources_file (scenario_env\<lparr>sources_file := None\<rparr>) = None" by simp
  have 2: "scrape_all_sources (sources_file unreachable_env) (fetch unreachable_env)
     = Inr \<lparr>forward = {}, socks4 = {}, socks5 = {}\<rparr>"
    by (simp only: unreachable_env_simps unreachable_scraped)
  have 3: "0 \<le> CONCURRENCY scenario_cfg" by (simp add: scenario_cfg_simps)
  have 4: "main scenario_cfg unreachable_env \<noteq> NotARun" by (simp add: unreachable_run)
  from empty_input [of "scenario_env\<lparr>sources_file := None\<rparr>" scenario_cfg] 1
  have 5: "main scenario_cfg (scenario_env\<lparr>sources_file := None\<rparr>) = Raises FileNotFoundError"
    by blast
  from empty_input [of unreachable_env scenario_cfg] 2 3 4
  have 6: "main scenario_cfg unreachable_env = Returns nothing_published"
    by blast
  from 1 5 2 3 4 6 show ?thesis by (intro conjI)
qed

lemma unreachable_candidates:
  "candidates_of Http scenario_cfg unreachable_env = []"
  "candidates_of Socks4 scenario_cfg unreachable_env = []"
  "candidates_of Socks5 scenario_cfg unreachable_env = []"
  by (simp_all only: candidates_of_def unreachable_env_simps unreachable_scraped run_steps)

text \<open>
  The claim as it is stated fails: when no source can be fetched, no class has a
  candidate, and the run returns and publishes five empty lists.
\<close>

theorem empty_input_counterexample:
  "scrape_all_sources (sources_file unreachable_env) (fetch unreachable_env)
     = Inr \<lparr>forward = {}, socks4 = {}, socks5 = {}\<rparr> \<and>
   candidates_of Http scenario_cfg unreachable_env = [] \<and>
   candidates_of Socks4 scenario_cfg unreachable_env = [] \<and>
   candidates_of Socks5 scenario_cfg unreachable_env = [] \<and>
   main scenario_cfg unreachable_env = Returns nothing_published"
  using unreachable_candidates unreachable_run
  by (simp only: unreachable_env_simps unreachable_scraped simp_thms)

section \<open>The forward probe\<close>

text \<open>
  C7, as the code has it. A forward probe creates one session and issues two requests
  on it, one after the other: the plain-HTTP test URL when the probe starts, and the
  HTTPS test URL when the first attempt has ended, however long that took. Each attempt
  yields an outcome exactly when it succeeds, so the probe yields zero, one or two
  outcomes; and each outcome is the time from a timer of its own, read just before its
  request is issued, so it is the duration of that attempt alone, in milliseconds.
\<close>

theorem forward_probe:
  "requests (snd (check_forward_proxy nw p t w))
     = requests w @
       [\<lparr>session = sessions w, target = TEST_URL_HTTP, issued = clock w\<rparr>,
        \<lparr>session = sessions w, target = TEST_URL_HTTPS,
         issued = clock w + took (nw t p TEST_URL_HTTP)\<rparr>] \<and>
   fst (fst (check_forward_proxy nw p t w))
     = (if succeeded (nw t p TEST_URL_HTTP) then Some (took (nw t p TEST_URL_HTTP) * 1000)
        else None) \<and>
   snd (fst (check_forward_proxy nw p t w))
     = (if succeeded (nw t p TEST_URL_HTTPS) then Some (took (nw t p TEST_URL_HTTPS) * 1000)
        else None)"
  by (auto simp add: Let_def eval_probe succeeded_def split: reply.splits)

theorem forward_probe_witness:
  "requests (snd (check_forward_proxy scenario_net \<lparr>ptype = Http, host = ''1.2.3.4'', port = 8080\<rparr> 8
       \<lparr>clock = 100, sessions = 3, requests = []\<rparr>))
     = [\<lparr>session = 3, target = TEST_URL_HTTP, issued = 100\<rparr>,
        \<lparr>session = 3, target = TEST_URL_HTTPS, issued = 100.05\<rparr>] \<and>
   fst (check_forward_proxy scenario_net \<lparr>ptype = Http, host = ''1.2.3.4'', port = 8080\<rparr> 8
       \<lparr>clock = 100, sessions = 3, requests = []\<rparr>) = (Some 50, None)"
  using forward_probe [of scenario_net "\<lparr>ptype = Http, host = ''1.2.3.4'', port = 8080\<rparr>" 8
      "\<lparr>clock = 100, sessions = 3, requests = []\<rparr>"]
  by (simp add: scenario_net_def succeeded_def prod_eq_iff)

text \<open>
  The claim as it is stated fails: the two attempts of a probe share one session, and
  when the plain-HTTP attempt hangs until the timeout of 8 seconds, the HTTPS attempt is
  not issued before these 8 seconds are over.
\<close>

theorem forward_probe_counterexample:
  "map session (requests (snd (check_forward_proxy scenario_net
       \<lparr>ptype = Http, host = ''5.6.7.8'', port = 3128\<rparr> 8
       \<lparr>clock = 0, sessions = 0, requests = []\<rparr>))) = [0, 0] \<and>
   map target (requests (snd (check_forward_proxy scenario_net
       \<lparr>ptype = Http, host = ''5.6.7.8'', port = 3128\<rparr> 8
       \<lparr>clock = 0, sessions = 0, requests = []\<rparr>))) = [TEST_URL_HTTP, TEST_URL_HTTPS] \<and>
   map issued (requests (snd (check_forward_proxy scenario_net
       \<lparr>ptype = Http, host = ''5.6.7.8'', port = 3128\<rparr> 8
       \<lparr>clock = 0, sessions = 0, requests = []\<rparr>))) = [0, 8]"
  by (simp add: eval_probe scenario_net_def)

section \<open>What the pattern matches\<close>

lemma isdigit_not_isspace: "isdigit c \<Longrightarrow> \<not> isspace c"
  by (auto simp: isdigit_def isspace_def)

lemma digit_run_Some:
  assumes "digit_run lo hi s = Some (ds, r)"
  shows "s = ds @ r" and "\<forall>c\<in>set ds. isdigit c" and "lo \<le> length ds" and "length ds \<le> hi"
proof -
  from assms have ds: "ds = takeWhile isdigit (take hi s)" and r: "r = drop (length ds) s"
    and lo: "lo \<le> length ds"
    by (auto simp: digit_run_def Let_def split: if_splits)
  have "take hi s = ds @ dropWhile isdigit (take hi s)"
    by (simp add: ds)
  then have "s = (ds @ dropWhile isdigit (take hi s)) @ drop hi s"
    by (metis append_take_drop_id)
  then have "take (length ds) s = ds"
    by (metis append_assoc append_eq_conv_conj)
  then show "s = ds @ r" by (metis r append_take_drop_id)
  show "\<forall>c\<in>set ds. isdigit c" by (auto simp: ds dest: set_takeWhileD)
  show "lo \<le> length ds" by (rule lo)
  have "length ds \<le> length (take hi s)" unfolding ds by (rule length_takeWhile_le)
  then show "length ds \<le> hi" by simp
qed

lemma literal_Some: "literal c s = Some r \<Longrightarrow> s = c # r"
  by (auto simp: literal_def split: list.splits if_splits)

lemma dot_octet_Some:
  assumes "dot_octet s = Some (d, r)"
  shows "s = d @ r" and "\<forall>c\<in>set d. isdigit c \<or> c = CHR ''.''"
proof -
  from assms obtain r0 ds where l: "literal CHR ''.'' s = Some r0"
    and g: "digit_run 1 3 r0 = Some (ds, r)" and d: "d = CHR ''.'' # ds"
    by (auto simp: dot_octet_def split: option.splits)
  from literal_Some [OF l] digit_run_Some(1) [OF g] d show "s = d @ r" by simp
  from digit_run_Some(2) [OF g] d show "\<forall>c\<in>set d. isdigit c \<or> c = CHR ''.''" by simp
qed

lemma host_group_Some:
  assumes "host_group s = Some (h, r)"
  shows "s = h @ r" and "\<forall>c\<in>set h. isdigit c \<or> c = CHR ''.''"
proof -
  from assms obtain a r1 b r2 c r3 d where
    1: "digit_run 1 3 s = Some (a, r1)" and 2: "dot_octet r1 = Some (b, r2)" and
    3: "dot_octet r2 = Some (c, r3)" and 4: "dot_octet r3 = Some (d, r)" and
    h: "h = a @ b @ c @ d"
    by (auto simp: host_group_def split: option.splits)
  from digit_run_Some(1) [OF 1] dot_octet_Some(1) [OF 2] dot_octet_Some(1) [OF 3]
    dot_octet_Some(1) [OF 4] h
  show "s = h @ r" by simp
  from digit_run_Some(2) [OF 1] dot_octet_Some(2) [OF 2] dot_octet_Some(2) [OF 3]
    dot_octet_Some(2) [OF 4] h
  show "\<forall>c\<in>set h. isdigit c \<or> c = CHR ''.''" by auto
qed

lemma spaces_then: "s = takeWhile isspace s @ dropWhile isspace s"
  by simp

lemma PROXY_RE_match_Some:
  assumes "PROXY_RE_match line = Some (h, p)"
  shows "\<exists>a b c d. line = a @ h @ b @ '':'' @ c @ p @ d \<and>
           (\<forall>x\<in>set (a @ b @ c @ d). isspace x)"
    and "\<forall>x\<in>set h. isdigit x \<or> x = CHR ''.''"
    and "\<forall>x\<in>set p. isdigit x" and "2 \<le> length p" and "length p \<le> 5"
proof -
  from assms obtain r1 r2 r3 where
    1: "host_group (dropWhile isspace line) = Some (h, r1)" and
    2: "literal CHR '':'' (dropWhile isspace r1) = Some r2" and
    3: "digit_run 2 5 (dropWhile isspace r2) = Some (p, r3)" and
    4: "dropWhile isspace r3 = []"
    by (auto simp: PROXY_RE_match_def split: option.splits if_splits)
  let ?a = "takeWhile isspace line" and ?b = "takeWhile isspace r1"
    and ?c = "takeWhile isspace r2"
  have "line = ?a @ dropWhile isspace line" by simp
  also have "dropWhile isspace line = h @ r1" by (rule host_group_Some(1) [OF 1])
  also have "r1 = ?b @ dropWhile isspace r1" by simp
  also have "dropWhile isspace r1 = CHR '':'' # r2" by (rule literal_Some [OF 2])
  also have "r2 = ?c @ dropWhile isspace r2" by simp
  also have "dropWhile isspace r2 = p @ r3" by (rule digit_run_Some(1) [OF 3])
  finally have l: "line = ?a @ h @ ?b @ '':'' @ ?c @ p @ r3" by simp
  from 4 have "\<forall>x\<in>set r3. isspace x"
    by (metis dropWhile_eq_Nil_conv)
  moreover have "\<forall>x\<in>set ?a. isspace x" "\<forall>x\<in>set ?b. isspace x" "\<forall>x\<in>set ?c. isspace x"
    by (auto dest: set_takeWhileD)
  ultimately have "\<forall>x\<in>set (?a @ ?b @ ?c @ r3). isspace x" by auto
  with l show "\<exists>a b c d. line = a @ h @ b @ '':'' @ c @ p @ d \<and>
           (\<forall>x\<in>set (a @ b @ c @ d). isspace x)"
    by blast
  show "\<forall>x\<in>set h. isdigit x \<or> x = CHR ''.''" by (rule host_group_Some(2) [OF 1])
  show "\<forall>x\<in>set p. isdigit x" by (rule digit_run_Some(2) [OF 3])
  show "2 \<le> length p" by (rule digit_run_Some(3) [OF 3])
  show "length p \<le> 5" by (rule digit_run_Some(4) [OF 3])
qed

lemma parse_line_Some:
  assumes "parse_line raw = Some c"
  shows "\<exists>h p. PROXY_RE_match (strip raw) = Some (h, p) \<and>
           1 \<le> digits_value p \<and> digits_value p \<le> 65535 \<and>
           c = h @ '':'' @ str_nat (digits_value p)"
  using assms
  by (auto simp: parse_line_def Let_def split: if_splits option.splits)

lemma parse_candidates_iff:
  "c \<in> set (parse_candidates text) \<longleftrightarrow> (\<exists>raw\<in>set (splitlines text). parse_line raw = Some c)"
  by (auto simp: parse_candidates_def set_map_filter)

section \<open>The matcher and the pattern\<close>

lemma digit_run_octet:
  assumes "digit_run 1 3 s = Some (ds, r)"
  shows "octet ds"
  using digit_run_Some(2,3,4) [OF assms] by (simp add: octet_def list_all_iff)

lemma digit_run_complete:
  assumes "list_all isdigit ds" and "lo \<le> length ds" and "length ds \<le> hi"
    and "r = [] \<or> \<not> isdigit (hd r)"
  shows "digit_run lo hi (ds @ r) = Some (ds, r)"
proof -
  have "takeWhile isdigit (take (hi - length ds) r) = []"
    using assms(4) by (cases r; cases "hi - length ds") auto
  with assms(1,3) have "takeWhile isdigit (take hi (ds @ r)) = ds"
    by (simp add: list_all_iff takeWhile_append2)
  with assms(2) show ?thesis by (simp add: digit_run_def)
qed

lemma dot_octet_complete:
  assumes "octet ds" and "r = [] \<or> \<not> isdigit (hd r)"
  shows "dot_octet (''.'' @ ds @ r) = Some (''.'' @ ds, r)"
  using assms digit_run_complete [of ds 1 3 r]
  by (simp add: dot_octet_def literal_def octet_def)

lemma not_digit_chars: "\<not> isdigit CHR ''.''" "\<not> isdigit CHR '':''" "\<not> isspace CHR '':''"
  by (simp_all add: isdigit_def isspace_def)

lemma host_group_complete:
  assumes "octet o1" "octet o2" "octet o3" "octet o4" and "r = [] \<or> \<not> isdigit (hd r)"
  shows "host_group (o1 @ ''.'' @ o2 @ ''.'' @ o3 @ ''.'' @ o4 @ r)
           = Some (o1 @ ''.'' @ o2 @ ''.'' @ o3 @ ''.'' @ o4, r)"
proof -
  from assms(1) have 1: "digit_run 1 3 (o1 @ ''.'' @ o2 @ ''.'' @ o3 @ ''.'' @ o4 @ r)
      = Some (o1, ''.'' @ o2 @ ''.'' @ o3 @ ''.'' @ o4 @ r)"
    by (intro digit_run_complete) (simp_all add: octet_def not_digit_chars)
  from assms(2) have 2: "dot_octet (''.'' @ o2 @ ''.'' @ o3 @ ''.'' @ o4 @ r)
      = Some (''.'' @ o2, ''.'' @ o3 @ ''.'' @ o4 @ r)"
    by (intro dot_octet_complete) (simp_all add: not_digit_chars)
  from assms(3) have 3: "dot_octet (''.'' @ o3 @ ''.'' @ o4 @ r) = Some (''.'' @ o3, ''.'' @ o4 @ r)"
    by (intro dot_octet_complete) (simp_all add: not_digit_chars)
  from assms(4,5) have 4: "dot_octet (''.'' @ o4 @ r) = Some (''.'' @ o4, r)"
    by (intro dot_octet_complete)
  from 1 2 3 4 show ?thesis by (simp add: host_group_def)
qed

lemma host_group_octets:
  assumes "host_group s = Some (h, r)"
  shows "\<exists>o1 o2 o3 o4. h = o1 @ ''.'' @ o2 @ ''.'' @ o3 @ ''.'' @ o4 \<and>
           octet o1 \<and> octet o2 \<and> octet o3 \<and> octet o4"
proof -
  from assms obtain a r1 b r2 c r3 d where
    1: "digit_run 1 3 s = Some (a, r1)" and 2: "dot_octet r1 = Some (b, r2)" and
    3: "dot_octet r2 = Some (c, r3)" and 4: "dot_octet r3 = Some (d, r)" and
    h: "h = a @ b @ c @ d"
    by (auto simp: host_group_def split: option.splits)
  have oct: "\<exists>ds. x = ''.'' @ ds \<and> octet ds" if "dot_octet u = Some (x, v)" for u x v
    using that digit_run_octet
    by (auto simp: dot_octet_def split: option.splits)
  from oct [OF 2] oct [OF 3] oct [OF 4] obtain o2 o3 o4 where
    "b = ''.'' @ o2" "octet o2" "c = ''.'' @ o3" "octet o3" "d = ''.'' @ o4" "octet o4"
    by blast
  with digit_run_octet [OF 1] h show ?thesis by auto
qed

lemma dropWhile_spaces:
  assumes "list_all isspace a" and "r = [] \<or> \<not> isspace (hd r)"
  shows "dropWhile isspace (a @ r) = r"
  using assms by (cases r) (auto simp: list_all_iff dropWhile_append)

lemma octet_hd: "octet ds \<Longrightarrow> ds \<noteq> [] \<and> isdigit (hd ds)"
  by (cases ds) (auto simp: octet_def)

text \<open>The matcher finds the groups of a line exactly when the pattern matches the line.\<close>

lemma PROXY_RE_match_iff: "PROXY_RE_match line = Some (h, p) \<longleftrightarrow> PROXY_RE_cut line h p"
proof
  assume m: "PROXY_RE_match line = Some (h, p)"
  then obtain r1 where g: "host_group (dropWhile isspace line) = Some (h, r1)"
    by (auto simp: PROXY_RE_match_def split: option.splits if_splits)
  from PROXY_RE_match_Some(1) [OF m] obtain a b c d where
    l: "line = a @ h @ b @ '':'' @ c @ p @ d" and sp: "\<forall>x\<in>set (a @ b @ c @ d). isspace x"
    by blast
  from host_group_octets [OF g] obtain o1 o2 o3 o4 where
    h: "h = o1 @ ''.'' @ o2 @ ''.'' @ o3 @ ''.'' @ o4" and
    o: "octet o1" "octet o2" "octet o3" "octet o4"
    by blast
  from sp have "list_all isspace a" "list_all isspace b" "list_all isspace c" "list_all isspace d"
    by (simp_all add: list_all_iff)
  moreover from PROXY_RE_match_Some(3) [OF m] have "list_all isdigit p"
    by (simp add: list_all_iff)
  ultimately have "line = a @ h @ b @ '':'' @ c @ p @ d \<and>
        list_all isspace a \<and> list_all isspace b \<and> list_all isspace c \<and> list_all isspace d \<and>
        h = o1 @ ''.'' @ o2 @ ''.'' @ o3 @ ''.'' @ o4 \<and>
        octet o1 \<and> octet o2 \<and> octet o3 \<and> octet o4 \<and>
        list_all isdigit p \<and> 2 \<le> length p \<and> length p \<le> 5"
    using l h o PROXY_RE_match_Some(4,5) [OF m] by (intro conjI)
  then show "PROXY_RE_cut line h p"
    unfolding PROXY_RE_cut_def by blast
next
  assume "PROXY_RE_cut line h p"
  then obtain a b c d o1 o2 o3 o4 where
    l: "line = a @ h @ b @ '':'' @ c @ p @ d" and
    sp: "list_all isspace a" "list_all isspace b" "list_all isspace c" "list_all isspace d" and
    h: "h = o1 @ ''.'' @ o2 @ ''.'' @ o3 @ ''.'' @ o4" and
    o: "octet o1" "octet o2" "octet o3" "octet o4" and
    p: "list_all isdigit p" "2 \<le> length p" "length p \<le> 5"
    unfolding PROXY_RE_cut_def by blast
  from p obtain x xs where px: "p = x # xs" "isdigit x" by (cases p) auto
  let ?r3 = "d" and ?r2 = "c @ p @ d"
  let ?r1 = "b @ '':'' @ ?r2"
  have nd: "?r1 = [] \<or> \<not> isdigit (hd ?r1)"
    using sp(2) by (cases b) (auto simp: not_digit_chars dest: isdigit_not_isspace)
  have "dropWhile isspace line = h @ ?r1"
    unfolding l using sp(1) octet_hd [OF o(1)] h
    by (intro dropWhile_spaces) (auto dest: isdigit_not_isspace simp: hd_append)
  moreover have "host_group (h @ ?r1) = Some (h, ?r1)"
    using host_group_complete [OF o nd] by (simp add: h)
  moreover have "dropWhile isspace ?r1 = '':'' @ ?r2"
    using sp(2) by (intro dropWhile_spaces) (simp_all add: not_digit_chars)
  moreover have "dropWhile isspace ?r2 = p @ d"
    using sp(3) px by (intro dropWhile_spaces) (auto dest: isdigit_not_isspace)
  moreover have "digit_run 2 5 (p @ d) = Some (p, d)"
    using p sp(4) by (intro digit_run_complete) (cases d; auto dest: isdigit_not_isspace)+
  moreover have "dropWhile isspace d = []"
    using sp(4) by (simp add: list_all_iff)
  ultimately show "PROXY_RE_match line = Some (h, p)"
    by (simp add: PROXY_RE_match_def literal_def)
qed

section \<open>Decimal numbers\<close>

lemma digit_char_props:
  assumes "d < 10"
  shows "isdigit (digit_char d)" and "digit_val (digit_char d) = d"
    and "digit_char d = CHR ''0'' \<longleftrightarrow> d = 0"
proof -
  from assms have "d \<in> {0, 1, 2, 3, 4, 5, 6, 7, 8, 9}" by auto
  then have "isdigit (digit_char d) \<and> digit_val (digit_char d) = d \<and>
      (digit_char d = CHR ''0'' \<longleftrightarrow> d = 0)"
    by (elim insertE emptyE) (simp_all add: digit_char_def isdigit_def digit_val_def)
  then show "isdigit (digit_char d)" and "digit_val (digit_char d) = d"
    and "digit_char d = CHR ''0'' \<longleftrightarrow> d = 0"
    by simp_all
qed

lemma str_nat_not_Nil: "str_nat n \<noteq> []"
  by (subst str_nat.simps) simp

lemma str_nat_digits: "\<forall>c\<in>set (str_nat n). isdigit c"
proof (induction n rule: str_nat.induct)
  case (1 n)
  show ?case
  proof (cases "n < 10")
    case True
    then show ?thesis by (simp add: str_nat_small digit_char_props)
  next
    case False
    with 1 show ?thesis by (simp add: str_nat_large digit_char_props)
  qed
qed

lemma digits_value_snoc: "digits_value (s @ [c]) = 10 * digits_value s + digit_val c"
  by (simp add: digits_value_def)

lemma digits_value_str_nat: "digits_value (str_nat n) = n"
proof (induction n rule: str_nat.induct)
  case (1 n)
  show ?case
  proof (cases "n < 10")
    case True
    then show ?thesis by (simp add: str_nat_small digits_value_def digit_char_props)
  next
    case False
    with 1 show ?thesis by (simp add: str_nat_large digits_value_snoc digit_char_props)
  qed
qed

lemma hd_str_nat: "0 < n \<Longrightarrow> hd (str_nat n) \<noteq> CHR ''0''"
proof (induction n rule: str_nat.induct)
  case (1 n)
  show ?case
  proof (cases "n < 10")
    case True
    with 1(2) show ?thesis by (simp add: str_nat_small digit_char_props)
  next
    case False
    then have "0 < n div 10" by simp
    with 1(1) False have "hd (str_nat (n div 10)) \<noteq> CHR ''0''" by simp
    with False show ?thesis by (simp add: str_nat_large str_nat_not_Nil)
  qed
qed

lemma length_str_nat: "n < 10 ^ Suc k \<Longrightarrow> length (str_nat n) \<le> Suc k"
proof (induction k arbitrary: n)
  case 0
  then show ?case by (simp add: str_nat_small)
next
  case (Suc k)
  show ?case
  proof (cases "n < 10")
    case True
    then show ?thesis by (simp add: str_nat_small)
  next
    case False
    from Suc.prems have "n div 10 < 10 ^ Suc k"
      by (simp add: less_mult_imp_div_less mult.commute)
    from Suc.IH [OF this] False show ?thesis by (simp add: str_nat_large)
  qed
qed

section \<open>The ports of the candidates\<close>

lemma strip_keeps_end:
  assumes "\<not> isspace x" and "\<not> isspace d"
  shows "\<exists>s1. strip (s @ [x, d]) = s1 @ [x, d]"
proof -
  have "\<exists>s1. dropWhile isspace (s @ [x, d]) = s1 @ [x, d]"
    using assms(1) by (cases "\<forall>c\<in>set s. isspace c") (auto simp: dropWhile_append)
  then obtain s1 where "dropWhile isspace (s @ [x, d]) = s1 @ [x, d]" ..
  with assms(2) have "strip (s @ [x, d]) = s1 @ [x, d]"
    by (simp add: strip_def)
  then show ?thesis ..
qed

lemma single_digit_port:
  assumes d: "isdigit d"
  shows "parse_line (s @ '':'' @ [d]) = None"
proof (rule ccontr)
  assume "parse_line (s @ '':'' @ [d]) \<noteq> None"
  then obtain c where "parse_line (s @ '':'' @ [d]) = Some c" by auto
  from parse_line_Some [OF this] obtain h p where
    m: "PROXY_RE_match (strip (s @ '':'' @ [d])) = Some (h, p)"
    by blast
  have colon: "\<not> isspace CHR '':''" "\<not> isdigit CHR '':''"
    by (simp_all add: isspace_def isdigit_def)
  from strip_keeps_end [OF colon(1) isdigit_not_isspace [OF d], of s]
  obtain s1 where l: "strip (s @ '':'' @ [d]) = s1 @ [CHR '':'', d]"
    by auto
  from PROXY_RE_match_Some(1) [OF m] l obtain a b c' e where
    e: "s1 @ [CHR '':'', d] = a @ h @ b @ '':'' @ c' @ p @ e" and sp: "\<forall>x\<in>set e. isspace x"
    by auto
  have "e = []"
  proof (rule ccontr)
    assume ne: "e \<noteq> []"
    have "last (s1 @ [CHR '':'', d]) = d" by simp
    with e have "last (a @ h @ b @ '':'' @ c' @ p @ e) = d" by simp
    with ne have "last e = d" by simp
    with ne have "d \<in> set e" by (metis last_in_set)
    with sp isdigit_not_isspace [OF d] show False by blast
  qed
  from PROXY_RE_match_Some(4) [OF m] have "p \<noteq> []" by auto
  then obtain p1 z where p1: "p = p1 @ [z]" by (metis rev_exhaust)
  with PROXY_RE_match_Some(4) [OF m] have "p1 \<noteq> []" by auto
  then obtain q y where q: "p1 = q @ [y]" by (metis rev_exhaust)
  from PROXY_RE_match_Some(3) [OF m] p1 q have y: "isdigit y" by simp
  from e \<open>e = []\<close> p1 q have "s1 @ [CHR '':'', d] = (a @ h @ b @ '':'' @ c' @ q) @ [y, z]"
    by simp
  then have "butlast (s1 @ [CHR '':'', d]) = butlast ((a @ h @ b @ '':'' @ c' @ q) @ [y, z])"
    by (rule arg_cong)
  then have "s1 @ [CHR '':''] = (a @ h @ b @ '':'' @ c' @ q) @ [y]"
    by (simp add: butlast_append)
  then have "last (s1 @ [CHR '':'']) = last ((a @ h @ b @ '':'' @ c' @ q) @ [y])"
    by (rule arg_cong)
  then have "CHR '':'' = y" by simp
  with y colon(2) show False by simp
qed


text \<open>
  C10, as the code has it. Every string the candidate parser emits is a host, a colon
  and a port, where the port is written in decimal with one to five digits and no
  leading zero, its value lies between 1 and 65535, and it is the value of a port field
  of two to five digits in a line of the text that the pattern matched. So a line
  whose port field is a single digit emits nothing, whatever stands before the colon.
\<close>

theorem candidate_ports:
  "(c \<in> set (parse_candidates text) \<longrightarrow>
      (\<exists>raw h p. raw \<in> set (splitlines text) \<and> PROXY_RE_match (strip raw) = Some (h, p) \<and>
         (\<forall>x\<in>set p. isdigit x) \<and> 2 \<le> length p \<and> length p \<le> 5 \<and>
         1 \<le> digits_value p \<and> digits_value p \<le> 65535 \<and>
         c = h @ '':'' @ str_nat (digits_value p) \<and>
         (\<forall>x\<in>set (str_nat (digits_value p)). isdigit x) \<and>
         hd (str_nat (digits_value p)) \<noteq> CHR ''0'' \<and>
         1 \<le> length (str_nat (digits_value p)) \<and> length (str_nat (digits_value p)) \<le> 5)) \<and>
   (isdigit d \<longrightarrow> parse_line (s @ '':'' @ [d]) = None)"
proof (intro conjI impI)
  assume "c \<in> set (parse_candidates text)"
  then obtain raw where raw: "raw \<in> set (splitlines text)" and pl: "parse_line raw = Some c"
    by (auto simp: parse_candidates_iff)
  from parse_line_Some [OF pl] obtain h p where
    m: "PROXY_RE_match (strip raw) = Some (h, p)" and
    v: "1 \<le> digits_value p" "digits_value p \<le> 65535" and
    c: "c = h @ '':'' @ str_nat (digits_value p)"
    by blast
  from v have "digits_value p < 10 ^ Suc 4" by simp
  then have len: "length (str_nat (digits_value p)) \<le> 5"
    using length_str_nat [of "digits_value p" 4] by simp
  have "1 \<le> length (str_nat (digits_value p))"
    using str_nat_not_Nil [of "digits_value p"] by (simp add: Suc_le_eq)
  moreover from v have "hd (str_nat (digits_value p)) \<noteq> CHR ''0''"
    by (simp add: hd_str_nat)
  ultimately show "\<exists>raw h p. raw \<in> set (splitlines text) \<and>
         PROXY_RE_match (strip raw) = Some (h, p) \<and>
         (\<forall>x\<in>set p. isdigit x) \<and> 2 \<le> length p \<and> length p \<le> 5 \<and>
         1 \<le> digits_value p \<and> digits_value p \<le> 65535 \<and>
         c = h @ '':'' @ str_nat (digits_value p) \<and>
         (\<forall>x\<in>set (str_nat (digits_value p)). isdigit x) \<and>
         hd (str_nat (digits_value p)) \<noteq> CHR ''0'' \<and>
         1 \<le> length (str_nat (digits_value p)) \<and> length (str_nat (digits_value p)) \<le> 5"
    using raw m v c len PROXY_RE_match_Some(3,4,5) [OF m] str_nat_digits by blast
next
  assume "isdigit d"
  then show "parse_line (s @ '':'' @ [d]) = None" by (rule single_digit_port)
qed

lemma padded_line:
  "parse_candidates '' 5.6.7.8 : 00080'' = [''5.6.7.8:80'']"
  "PROXY_RE_match (strip '' 5.6.7.8 : 00080'') = Some (''5.6.7.8'', ''00080'')"
  "digits_value ''00080'' = 80"
  by (simp_all add: eval_string eval_parser)

theorem candidate_ports_witness:
  "''5.6.7.8:80'' \<in> set (parse_candidates '' 5.6.7.8 : 00080'') \<and>
   PROXY_RE_match (strip '' 5.6.7.8 : 00080'') = Some (''5.6.7.8'', ''00080'') \<and>
   digits_value ''00080'' = 80 \<and>
   (\<exists>raw h p. raw \<in> set (splitlines '' 5.6.7.8 : 00080'') \<and>
      PROXY_RE_match (strip raw) = Some (h, p) \<and> 2 \<le> length p \<and> length p \<le> 5 \<and>
      1 \<le> digits_value p \<and> digits_value p \<le> 65535 \<and>
      ''5.6.7.8:80'' = h @ '':'' @ str_nat (digits_value p)) \<and>
   isdigit CHR ''8'' \<and> parse_line ''1.2.3.4:8'' = None"
proof -
  have 1: "''5.6.7.8:80'' \<in> set (parse_candidates '' 5.6.7.8 : 00080'')"
    by (simp add: padded_line)
  have 2: "isdigit CHR ''8''" by (simp add: isdigit_def)
  from candidate_ports [of "''5.6.7.8:80''" "'' 5.6.7.8 : 00080''"] 1
  have 3: "\<exists>raw h p. raw \<in> set (splitlines '' 5.6.7.8 : 00080'') \<and>
      PROXY_RE_match (strip raw) = Some (h, p) \<and> 2 \<le> length p \<and> length p \<le> 5 \<and>
      1 \<le> digits_value p \<and> digits_value p \<le> 65535 \<and>
      ''5.6.7.8:80'' = h @ '':'' @ str_nat (digits_value p)"
    by blast
  from candidate_ports [of _ _ "CHR ''8''" "''1.2.3.4''"] 2
  have 4: "parse_line ''1.2.3.4:8'' = None" by simp
  from 1 padded_line(2,3) 3 2 4 show ?thesis by (intro conjI)
qed

text \<open>
  The claim as it is stated fails: a port field with a leading zero has two digits,
  so the line matches, and the port that is emitted has one digit.
\<close>

theorem candidate_ports_counterexample:
  "parse_candidates ''1.2.3.4:01'' = [''1.2.3.4:1'']"
  by (simp add: eval_string eval_parser)

section \<open>Steps of the run that cannot raise\<close>

lemma strip_Cons:
  assumes "strip s \<noteq> []"
  shows "\<exists>x r. strip s = x # r \<and> \<not> isspace x"
proof -
  have "dropWhile isspace s \<noteq> []"
  proof
    assume e: "dropWhile isspace s = []"
    have "strip s = []" unfolding strip_def e by simp
    with assms show False by simp
  qed
  then obtain x xs where d: "dropWhile isspace s = x # xs" by (cases "dropWhile isspace s") auto
  then have x: "\<not> isspace x" by (metis hd_dropWhile list.sel(1) list.distinct(1))
  then have "dropWhile isspace (rev xs @ [x]) = dropWhile isspace (rev xs) @ [x]"
    by (simp add: dropWhile_append3)
  with d have "strip s = x # rev (dropWhile isspace (rev xs))"
    by (simp add: strip_def)
  with x show ?thesis by blast
qed

lemma split_from_not_Nil: "cur \<noteq> [] \<Longrightarrow> split_from cur s \<noteq> []"
  by (induction s arbitrary: cur) auto

lemma source_item_total: "\<exists>it. source_item raw = Inr it"
proof (cases "strip raw = []")
  case True
  then show ?thesis by (simp add: source_item_def)
next
  case False
  from strip_Cons [OF this] obtain x r where s: "strip raw = x # r" and x: "\<not> isspace x"
    by blast
  then have "split_ws (strip raw) \<noteq> []"
    by (simp add: split_ws_def split_from_not_Nil)
  then show ?thesis
    by (auto simp: source_item_def Let_def split: list.splits)
qed

lemma source_items_total: "\<exists>items. source_items raws = Inr items"
proof (induction raws)
  case Nil
  then show ?case by simp
next
  case (Cons raw raws)
  with source_item_total [of raw] show ?case by auto
qed

lemma scrape_total:
  assumes "file \<noteq> None"
  shows "\<exists>scraped. scrape_all_sources file ft = Inr scraped"
proof -
  from assms obtain content where "file = Some content" by auto
  with source_items_total [of "splitlines content"] show ?thesis
    by (auto simp: scrape_all_sources_def read_sources_def)
qed


lemma int_strip_digits:
  assumes "\<forall>c\<in>set s. isdigit c"
  shows "int_strip s = s"
proof -
  from assms have "\<forall>c\<in>set s. \<not> int_space c" by (auto simp: isdigit_def int_space_def)
  then have "dropWhile int_space s = s" "dropWhile int_space (rev s) = rev s"
    by (cases "s = []"; simp add: dropWhile_eq_self_iff hd_rev)+
  then show ?thesis by (simp add: int_strip_def)
qed

lemma int_body_ok_digits: "s \<noteq> [] \<Longrightarrow> \<forall>c\<in>set s. isdigit c \<Longrightarrow> int_body_ok s"
proof (induction s rule: int_body_ok.induct)
  case 1
  then show ?case by simp
next
  case (2 c)
  then show ?case by simp
next
  case (3 c d cs)
  from 3(4) have "isdigit d" by simp
  then have "d \<noteq> CHR ''_''" by (auto simp: isdigit_def)
  with 3 show ?case by simp
qed

lemma py_int_str_nat: "py_int (str_nat n) = Some (int n)"
proof -
  let ?t = "str_nat n"
  have dig: "\<forall>c\<in>set ?t. isdigit c" by (rule str_nat_digits)
  obtain c r where t: "?t = c # r" using str_nat_not_Nil [of n] by (cases ?t) auto
  with dig have "isdigit c" by simp
  then have c: "c \<noteq> CHR ''-''" "c \<noteq> CHR ''+''" by (auto simp: isdigit_def)
  from dig have "\<forall>x\<in>set ?t. x \<noteq> CHR ''_''" by (auto simp: isdigit_def)
  then have f: "filter (\<lambda>c. c \<noteq> CHR ''_'') ?t = ?t" by simp
  have ok: "int_body_ok ?t" using str_nat_not_Nil dig by (rule int_body_ok_digits)
  have "py_int ?t = Some (int (digits_value ?t))"
    unfolding py_int_def int_strip_digits [OF dig] Let_def
    using c f ok by (simp add: t)
  then show ?thesis by (simp add: digits_value_str_nat)
qed

lemma split_colon_candidate:
  assumes "\<forall>x\<in>set h. isdigit x \<or> x = CHR ''.''"
  shows "split_colon (h @ '':'' @ r) = Some (h, r)"
proof -
  from assms have "\<forall>x\<in>set h. x \<noteq> CHR '':''" by (auto simp: isdigit_def)
  then show ?thesis
    by (simp add: split_colon_def takeWhile_append2 dropWhile_append2)
qed

text \<open>A candidate that the parser has emitted becomes a proxy with the same \<open>host:port\<close>.\<close>

lemma to_proxies_candidates:
  assumes "\<forall>c\<in>set cs. \<exists>raw. parse_line raw = Some c"
  shows "\<exists>ps. to_proxies k cs = Inr ps \<and> map hostport ps = cs"
  using assms
proof (induction cs)
  case Nil
  then show ?case by simp
next
  case (Cons c cs)
  then obtain ps where ps: "to_proxies k cs = Inr ps" "map hostport ps = cs" by auto
  from Cons.prems obtain raw where "parse_line raw = Some c" by auto
  from parse_line_Some [OF this] obtain h p where
    m: "PROXY_RE_match (strip raw) = Some (h, p)" and
    c: "c = h @ '':'' @ str_nat (digits_value p)"
    by blast
  from split_colon_candidate [OF PROXY_RE_match_Some(2) [OF m]] c
  have s: "split_colon c = Some (h, str_nat (digits_value p))" by simp
  have "hostport \<lparr>ptype = k, host = h, port = int (digits_value p)\<rparr> = c"
    by (simp add: hostport_def str_int_def c)
  with ps s show ?case by (simp add: py_int_str_nat)
qed

text \<open>And the connector of such a proxy can be built: it has a host, and a port in range.\<close>

lemma PROXY_RE_match_host:
  assumes "PROXY_RE_match line = Some (h, p)"
  shows "h \<noteq> []"
proof -
  from assms obtain r1 where "host_group (dropWhile isspace line) = Some (h, r1)"
    by (auto simp: PROXY_RE_match_def split: option.splits if_splits)
  then obtain a r where a: "digit_run 1 3 (dropWhile isspace line) = Some (a, r)"
    and h: "take (length a) h = a"
    by (auto simp: host_group_def split: option.splits)
  from digit_run_Some(3) [OF a] have "a \<noteq> []" by auto
  with h show ?thesis by auto
qed

lemma to_proxies_from_url:
  assumes "\<forall>c\<in>set cs. \<exists>raw. parse_line raw = Some c" and "to_proxies k cs = Inr ps"
  shows "\<forall>q\<in>set ps. from_url q = None"
  using assms
proof (induction cs arbitrary: ps)
  case Nil
  then show ?case by simp
next
  case (Cons c cs)
  from Cons.prems(1) obtain raw where "parse_line raw = Some c" by auto
  from parse_line_Some [OF this] obtain h p where
    m: "PROXY_RE_match (strip raw) = Some (h, p)" and
    v: "1 \<le> digits_value p" "digits_value p \<le> 65535" and
    c: "c = h @ '':'' @ str_nat (digits_value p)"
    by blast
  from split_colon_candidate [OF PROXY_RE_match_Some(2) [OF m]] c
  have s: "split_colon c = Some (h, str_nat (digits_value p))" by simp
  from Cons.prems(2) s obtain ps' where ps': "to_proxies k cs = Inr ps'"
    and ps: "ps = \<lparr>ptype = k, host = h, port = int (digits_value p)\<rparr> # ps'"
    by (auto simp: py_int_str_nat split: sum.splits)
  from Cons.prems(1) have "\<forall>c\<in>set cs. \<exists>raw. parse_line raw = Some c" by simp
  from Cons.IH [OF this ps'] have "\<forall>q\<in>set ps'. from_url q = None" .
  moreover from PROXY_RE_match_host [OF m] v
  have "from_url \<lparr>ptype = k, host = h, port = int (digits_value p)\<rparr> = None"
    by (simp add: from_url_def)
  ultimately show ?case by (simp add: ps)
qed

lemma add_source_candidates:
  assumes "\<forall>c\<in>forward r \<union> socks4 r \<union> socks5 r. \<exists>raw. parse_line raw = Some c"
    and "finite (forward r)" "finite (socks4 r)" "finite (socks5 r)"
  shows "(\<forall>c\<in>forward (add_source ft r item) \<union> socks4 (add_source ft r item)
              \<union> socks5 (add_source ft r item). \<exists>raw. parse_line raw = Some c) \<and>
         finite (forward (add_source ft r item)) \<and> finite (socks4 (add_source ft r item)) \<and>
         finite (socks5 (add_source ft r item))"
  using assms
  by (auto simp: add_source_def Let_def parse_candidates_iff split: option.splits)

lemma foldl_add_source_candidates:
  assumes "\<forall>c\<in>forward r \<union> socks4 r \<union> socks5 r. \<exists>raw. parse_line raw = Some c"
    and "finite (forward r)" "finite (socks4 r)" "finite (socks5 r)"
  shows "(\<forall>c\<in>forward (foldl (add_source ft) r items) \<union> socks4 (foldl (add_source ft) r items)
              \<union> socks5 (foldl (add_source ft) r items). \<exists>raw. parse_line raw = Some c) \<and>
         finite (forward (foldl (add_source ft) r items)) \<and>
         finite (socks4 (foldl (add_source ft) r items)) \<and>
         finite (socks5 (foldl (add_source ft) r items))"
  using assms
proof (induction items arbitrary: r)
  case Nil
  then show ?case by simp
next
  case (Cons item items)
  from add_source_candidates [OF Cons.prems, of ft item] Cons.IH [of "add_source ft r item"]
  show ?case by simp
qed

lemma scraped_candidates:
  assumes "scrape_all_sources file ft = Inr scraped"
  shows "(\<forall>c\<in>forward scraped \<union> socks4 scraped \<union> socks5 scraped.
            \<exists>raw. parse_line raw = Some c) \<and>
         finite (forward scraped) \<and> finite (socks4 scraped) \<and> finite (socks5 scraped)"
proof -
  from assms obtain items where
    "scraped = foldl (add_source ft) \<lparr>forward = {}, socks4 = {}, socks5 = {}\<rparr> items"
    by (auto simp: scrape_all_sources_def split: sum.splits)
  with foldl_add_source_candidates [of "\<lparr>forward = {}, socks4 = {}, socks5 = {}\<rparr>" ft items]
  show ?thesis by simp
qed

lemma set_capped: "finite s \<Longrightarrow> set (capped cfg s) \<subseteq> s"
  by (auto simp: capped_def slice_to_def dest: in_set_takeD)

lemma proxies_of_candidates:
  assumes "sources_file env \<noteq> None"
  shows "to_proxies k (candidates_of k cfg env) = Inr (proxies_of k cfg env) \<and>
         map hostport (proxies_of k cfg env) = candidates_of k cfg env"
proof -
  from scrape_total [OF assms] obtain scraped where
    s: "scrape_all_sources (sources_file env) (fetch env) = Inr scraped"
    by blast
  let ?s = "case k of Http \<Rightarrow> forward scraped | Socks4 \<Rightarrow> socks4 scraped
            | Socks5 \<Rightarrow> socks5 scraped"
  from scraped_candidates [OF s] have "finite ?s" and "\<forall>c\<in>?s. \<exists>raw. parse_line raw = Some c"
    by (auto split: proxy_type.splits)
  with set_capped [of ?s cfg] have "\<forall>c\<in>set (capped cfg ?s). \<exists>raw. parse_line raw = Some c"
    by blast
  from to_proxies_candidates [OF this, of k] s show ?thesis
    by (auto simp: proxies_of_def candidates_of_def)
qed

lemma proxies_of_from_url:
  assumes "sources_file env \<noteq> None"
  shows "\<forall>q\<in>set (proxies_of k cfg env). from_url q = None"
proof -
  from scrape_total [OF assms] obtain scraped where
    s: "scrape_all_sources (sources_file env) (fetch env) = Inr scraped"
    by blast
  let ?s = "case k of Http \<Rightarrow> forward scraped | Socks4 \<Rightarrow> socks4 scraped
            | Socks5 \<Rightarrow> socks5 scraped"
  from scraped_candidates [OF s] have "finite ?s" and "\<forall>c\<in>?s. \<exists>raw. parse_line raw = Some c"
    by (auto split: proxy_type.splits)
  with set_capped [of ?s cfg] have "\<forall>c\<in>set (capped cfg ?s). \<exists>raw. parse_line raw = Some c"
    by blast
  then have c: "\<forall>c\<in>set (candidates_of k cfg env). \<exists>raw. parse_line raw = Some c"
    by (simp add: candidates_of_def s)
  from proxies_of_candidates [OF assms, of k cfg]
  have "to_proxies k (candidates_of k cfg env) = Inr (proxies_of k cfg env)" by simp
  from to_proxies_from_url [OF c this] show ?thesis .
qed

section \<open>Runs complete\<close>

lemma run_events_one_by_one:
  assumes "0 < c" and "\<forall>i<n. prelude i = None"
  shows "run_events prelude body (concat (map (\<lambda>i. [Enter i, Leave i]) [k..<n]))
           \<lparr>sem = c, waiting = [k..<n], running = [], shared = a\<rparr>
         = Some (Inr \<lparr>sem = c, waiting = [], running = [],
                      shared = foldl (\<lambda>a i. body i a) a [k..<n]\<rparr>)"
proof (induction "n - k" arbitrary: k a)
  case 0
  then show ?case by simp
next
  case (Suc m)
  then have k: "k < n" and m: "m = n - Suc k" by simp_all
  from k have u: "[k..<n] = k # [Suc k..<n]" by (rule upt_conv_Cons)
  from k assms(2) have p: "prelude k = None" by simp
  from assms(1) Suc.hyps(1) [OF m, of "body k a"] show ?case
    by (simp add: u p)
qed

lemma gather_one_by_one:
  "0 < c \<Longrightarrow> \<forall>i<n. prelude i = None \<Longrightarrow>
     gather prelude body c n a (one_by_one n) = Returns (foldl (\<lambda>a i. body i a) a [0..<n])"
  by (simp add: gather_def initial_def one_by_one_def run_events_one_by_one)

lemma socks_prelude_None:
  "(\<forall>i<length ps. socks_prelude ps i = None) \<longleftrightarrow> (\<forall>q\<in>set ps. from_url q = None)"
proof
  assume a: "\<forall>i<length ps. socks_prelude ps i = None"
  show "\<forall>q\<in>set ps. from_url q = None"
  proof
    fix q assume "q \<in> set ps"
    then obtain i where "i < length ps" "ps ! i = q" by (auto simp: in_set_conv_nth)
    with a show "from_url q = None" by (auto simp: socks_prelude_def)
  qed
next
  assume "\<forall>q\<in>set ps. from_url q = None"
  then show "\<forall>i<length ps. socks_prelude ps i = None"
    by (simp add: socks_prelude_def)
qed

lemma gather_forward_not_Raises:
  "gather (forward_prelude ps) body c n a sched \<noteq> Raises e"
proof
  assume "gather (forward_prelude ps) body c n a sched = Raises e"
  from gather_Raises [OF this] show False by (simp add: forward_prelude_def)
qed

lemma gather_socks_not_Raises:
  assumes "\<forall>q\<in>set ps. from_url q = None"
  shows "gather (socks_prelude ps) body c (length ps) a sched \<noteq> Raises e"
proof
  assume "gather (socks_prelude ps) body c (length ps) a sched = Raises e"
  from gather_Raises [OF this] obtain i where "i < length ps" "socks_prelude ps i = Some e"
    by (elim exE conjE)
  moreover from assms have "\<forall>i<length ps. socks_prelude ps i = None"
    by (simp only: socks_prelude_None)
  ultimately show False by simp
qed

lemma validate_forward_cases:
  assumes "0 < c"
  shows "validate_forward nw bt sched ps t c = NotARun \<or>
         (\<exists>r. validate_forward nw bt sched ps t c = Returns r)"
proof -
  let ?g = "gather (forward_prelude ps) (forward_run_one nw bt ps t) (nat c) (length ps) ([], []) sched"
  from assms have "?g \<noteq> Hangs" using gather_Hangs [of _ _ "nat c"] by fastforce
  moreover have "\<And>e. ?g \<noteq> Raises e" by (rule gather_forward_not_Raises)
  ultimately have "?g = NotARun \<or> (\<exists>x. ?g = Returns x)" by (cases ?g) auto
  with assms show ?thesis
    by (auto simp: validate_forward_def Semaphore_def bind_run_def Let_def)
qed

lemma validate_socks_cases:
  assumes "0 < c" and "\<forall>q\<in>set ps. from_url q = None"
  shows "validate_socks nw bt sched ps t c = NotARun \<or>
         (\<exists>r. validate_socks nw bt sched ps t c = Returns r)"
proof -
  let ?g = "gather (socks_prelude ps) (socks_run_one nw bt ps t) (nat c) (length ps) [] sched"
  from assms have "?g \<noteq> Hangs" using gather_Hangs [of _ _ "nat c"] by fastforce
  moreover have "\<And>e. ?g \<noteq> Raises e" by (rule gather_socks_not_Raises [OF assms(2)])
  ultimately have "?g = NotARun \<or> (\<exists>x. ?g = Returns x)" by (cases ?g) auto
  with assms show ?thesis
    by (auto simp: validate_socks_def Semaphore_def bind_run_def)
qed

lemma validate_forward_not_Raises:
  assumes "0 \<le> c"
  shows "validate_forward nw bt sched ps t c \<noteq> Raises e"
  using assms
  by (auto simp: validate_forward_def Semaphore_def bind_run_def Let_def
      gather_forward_not_Raises split: run.splits)

lemma validate_socks_not_Raises:
  assumes "0 \<le> c" and "\<forall>q\<in>set ps. from_url q = None"
  shows "validate_socks nw bt sched ps t c \<noteq> Raises e"
  using assms
  by (auto simp: validate_socks_def Semaphore_def bind_run_def
      gather_socks_not_Raises split: run.splits)

text \<open>
  The SOCKS validator with a proxy whose connector cannot be built: it raises as soon
  as the task of that proxy enters, and it cannot return.
\<close>

lemma validate_socks_Raises:
  assumes "0 < c" and "i < length ps" and "from_url (ps ! i) = Some e"
  shows "validate_socks nw bt (Enter i # sched) ps t c = Raises e"
  using assms
  by (simp add: validate_socks_def Semaphore_def gather_def initial_def socks_prelude_def
      bind_run_def)

lemma validate_socks_Returns_from_url:
  assumes "validate_socks nw bt sched ps t c = Returns ok"
  shows "\<forall>q\<in>set ps. from_url q = None"
proof -
  from assms obtain x where
    "gather (socks_prelude ps) (socks_run_one nw bt ps t) (nat c) (length ps) [] sched = Returns x"
    by (auto simp: validate_socks_def Semaphore_def bind_run_def split: if_splits run.splits)
  from gather_Returns(3) [OF this] show ?thesis by (simp only: socks_prelude_None)
qed

lemma main_steps:
  assumes f: "sources_file env \<noteq> None"
  shows "main cfg env =
     bind_run (forward_validation cfg env) (\<lambda>fwd.
     bind_run (socks_validation Socks4 cfg env) (\<lambda>socks4_ok.
     bind_run (socks_validation Socks5 cfg env) (\<lambda>socks5_ok.
     Returns (publish (candidates_of Http cfg env) (candidates_of Socks4 cfg env)
                (candidates_of Socks5 cfg env) (fst fwd) (fst (snd fwd)) socks4_ok socks5_ok))))"
proof -
  from scrape_total [OF f] obtain scraped where
    s: "scrape_all_sources (sources_file env) (fetch env) = Inr scraped"
    by blast
  have cand: "capped cfg (forward scraped) = candidates_of Http cfg env"
    "capped cfg (socks4 scraped) = candidates_of Socks4 cfg env"
    "capped cfg (socks5 scraped) = candidates_of Socks5 cfg env"
    by (simp_all add: candidates_of_def s)
  note p = proxies_of_candidates [OF f, of _ cfg, THEN conjunct1]
  show ?thesis
    unfolding main_def s lift_error_def sum.case bind_run_def [of "Returns _"] run.case Let_def
      cand p forward_validation_def socks_validation_def schedule_of_def proxy_type.case
    by (rule refl)
qed

lemma main_completes:
  assumes f: "sources_file env \<noteq> None" and c: "0 < CONCURRENCY cfg"
    and r: "main cfg env \<noteq> NotARun"
  shows "\<exists>out. main cfg env = Returns out"
proof -
  note m = main_steps [OF f, of cfg]
  note u = proxies_of_from_url [OF f, of _ cfg]
  from validate_forward_cases [OF c] have
    "forward_validation cfg env = NotARun \<or> (\<exists>r. forward_validation cfg env = Returns r)"
    by (simp add: forward_validation_def)
  moreover from validate_socks_cases [OF c u] have
    "socks_validation Socks4 cfg env = NotARun \<or> (\<exists>r. socks_validation Socks4 cfg env = Returns r)"
    "socks_validation Socks5 cfg env = NotARun \<or> (\<exists>r. socks_validation Socks5 cfg env = Returns r)"
    by (simp_all add: socks_validation_def)
  ultimately show ?thesis
    using r unfolding m by (auto simp: bind_run_def)
qed

lemma main_not_Raises:
  assumes f: "sources_file env \<noteq> None" and c: "0 \<le> CONCURRENCY cfg"
  shows "main cfg env \<noteq> Raises e"
proof -
  note m = main_steps [OF f, of cfg]
  note u = proxies_of_from_url [OF f, of _ cfg]
  from validate_forward_not_Raises [OF c] have "\<And>e. forward_validation cfg env \<noteq> Raises e"
    by (simp add: forward_validation_def)
  moreover from validate_socks_not_Raises [OF c u] have
    "\<And>e. socks_validation Socks4 cfg env \<noteq> Raises e"
    "\<And>e. socks_validation Socks5 cfg env \<noteq> Raises e"
    by (simp_all add: socks_validation_def)
  ultimately show ?thesis
    unfolding m by (auto simp: bind_run_def split: run.splits)
qed

lemma no_outcomes:
  assumes "set (leaves sched) = {0..<length ps}" and "\<forall>q\<in>set ps. f q = None"
  shows "List.map_filter (\<lambda>i. map_option (g i) (f (ps ! i))) (leaves sched) = []"
  using assms by (simp add: map_filter_Nil_iff)

lemma validate_forward_no_http:
  assumes r: "validate_forward nw bt sched ps t c = Returns fwd"
    and n: "\<forall>q\<in>set ps. fst (fst (check_forward_proxy nw q t (bt q))) = None"
  shows "fst fwd = []"
  using validate_forward_Returns(1) [OF r]
    no_outcomes [OF all_tasks_leave [OF validate_forward_Returns(5) [OF r]],
      of "\<lambda>q. fst (fst (check_forward_proxy nw q t (bt q)))"
         "\<lambda>i ms. (hostport (ps ! i), ms)"] n
  by (simp add: http_outcomes_def)

lemma validate_forward_none_https:
  assumes r: "validate_forward nw bt sched ps t c = Returns fwd"
    and n: "\<forall>q\<in>set ps. snd (fst (check_forward_proxy nw q t (bt q))) = None"
  shows "fst (snd fwd) = []"
  using validate_forward_Returns(2) [OF r]
    no_outcomes [OF all_tasks_leave [OF validate_forward_Returns(5) [OF r]],
      of "\<lambda>q. snd (fst (check_forward_proxy nw q t (bt q)))"
         "\<lambda>i ms. (hostport (ps ! i), ms)"] n
  by (simp add: https_outcomes_def)

lemma validate_socks_no_outcome:
  assumes r: "validate_socks nw bt sched ps t c = Returns ok"
    and n: "\<forall>q\<in>set ps. fst (check_socks nw q t (bt q)) = None"
  shows "ok = []"
  using validate_socks_Returns(1) [OF r]
    no_outcomes [OF all_tasks_leave [OF validate_socks_Returns(2) [OF r]],
      of "\<lambda>q. fst (check_socks nw q t (bt q))" "\<lambda>i ms. (ps ! i, ms)"] n
  by (simp add: socks_outcomes_def)

lemma validate_forward_one_by_one:
  assumes "0 < c"
  shows "\<exists>r. validate_forward nw bt (one_by_one (length ps)) ps t c = Returns r"
  using assms
  by (simp add: validate_forward_def Semaphore_def gather_one_by_one forward_prelude_def
      bind_run_def Let_def)

lemma validate_socks_one_by_one:
  assumes "0 < c" and "\<forall>q\<in>set ps. from_url q = None"
  shows "\<exists>r. validate_socks nw bt (one_by_one (length ps)) ps t c = Returns r"
proof -
  from assms(2) have "\<forall>i<length ps. socks_prelude ps i = None"
    by (simp only: socks_prelude_None)
  with assms(1) show ?thesis
    by (simp add: validate_socks_def Semaphore_def gather_one_by_one bind_run_def)
qed

lemma one_by_one_env_simps:
  "sources_file (one_by_one_env cfg env) = sources_file env"
  "proxies_of k cfg (one_by_one_env cfg env) = proxies_of k cfg env"
  "candidates_of k cfg (one_by_one_env cfg env) = candidates_of k cfg env"
  "net (one_by_one_env cfg env) = net env" "boot (one_by_one_env cfg env) = boot env"
  "sched_forward (one_by_one_env cfg env) = one_by_one (length (proxies_of Http cfg env))"
  "sched_socks4 (one_by_one_env cfg env) = one_by_one (length (proxies_of Socks4 cfg env))"
  "sched_socks5 (one_by_one_env cfg env) = one_by_one (length (proxies_of Socks5 cfg env))"
  by (simp_all add: one_by_one_env_def proxies_of_def candidates_of_def)

lemma main_one_by_one:
  assumes f: "sources_file env \<noteq> None" and c: "0 < CONCURRENCY cfg"
  shows "\<exists>out. main cfg (one_by_one_env cfg env) = Returns out"
proof -
  from f have f': "sources_file (one_by_one_env cfg env) \<noteq> None"
    by (simp add: one_by_one_env_simps)
  note u = proxies_of_from_url [OF f, of _ cfg]
  from validate_forward_one_by_one [OF c] obtain r where
    "forward_validation cfg (one_by_one_env cfg env) = Returns r"
    unfolding forward_validation_def one_by_one_env_simps by blast
  moreover from validate_socks_one_by_one [OF c u] obtain r4 where
    "socks_validation Socks4 cfg (one_by_one_env cfg env) = Returns r4"
    unfolding socks_validation_def schedule_of_def proxy_type.case one_by_one_env_simps by blast
  moreover from validate_socks_one_by_one [OF c u] obtain r5 where
    "socks_validation Socks5 cfg (one_by_one_env cfg env) = Returns r5"
    unfolding socks_validation_def schedule_of_def proxy_type.case one_by_one_env_simps by blast
  ultimately show ?thesis
    unfolding main_steps [OF f'] by (simp add: bind_run_def)
qed

text \<open>
  C8, as the code has it. Whatever the network does, an attempt that does not succeed
  (an exception of any kind, or a status of 400 or more) gives no outcome, and a SOCKS
  probe whose two attempts fail gives none. The forward validator raises for nothing
  but a negative concurrency, and so does the SOCKS validator when the connector of
  each of its proxies can be built; the connector is built outside every \<open>try\<close>, and
  where it cannot be built its exception leaves the validator as soon as the task of
  that proxy enters. With a positive concurrency the tasks of a validator can always
  be run to the end. The proxies of a run come from the candidate parser, so their
  connectors can be built: a run whose sources file exists and whose concurrency is
  not negative never raises, and with a positive concurrency it returns, whatever the
  probes meet; and its tasks can be run so, one after the other. What it publishes
  has working counts that are the lengths of the lists. The http, socks4 and socks5
  lists are published empty, with a working count of zero, when no proxy of the class
  has an outcome. The https list is not: when no forward proxy has an HTTPS outcome,
  the published https list is the published http list and its working count is the
  length of that list; it is empty, with a count of zero, when no forward proxy has a
  plain-HTTP outcome either.
\<close>

theorem error_absorption:
  "(\<not> succeeded (nw t p TEST_URL_HTTP) \<longrightarrow> fst (fst (check_forward_proxy nw p t w)) = None) \<and>
   (\<not> succeeded (nw t p TEST_URL_HTTPS) \<longrightarrow> snd (fst (check_forward_proxy nw p t w)) = None) \<and>
   (\<not> succeeded (nw t p TEST_URL_HTTPS) \<and> \<not> succeeded (nw t p TEST_URL_HTTP) \<longrightarrow>
      fst (check_socks nw p t w) = None) \<and>
   (0 \<le> c \<longrightarrow> validate_forward nw bt sched ps t c \<noteq> Raises e) \<and>
   (0 \<le> c \<and> (\<forall>q\<in>set ps. from_url q = None) \<longrightarrow>
      validate_socks nw bt sched ps t c \<noteq> Raises e) \<and>
   (0 < c \<and> i < length ps \<and> from_url (ps ! i) = Some e \<longrightarrow>
      validate_socks nw bt (Enter i # sched) ps t c = Raises e) \<and>
   (0 < c \<longrightarrow> (\<exists>r. validate_forward nw bt (one_by_one (length ps)) ps t c = Returns r)) \<and>
   (0 < c \<and> (\<forall>q\<in>set ps. from_url q = None) \<longrightarrow>
      (\<exists>r. validate_socks nw bt (one_by_one (length ps)) ps t c = Returns r)) \<and>
   (sources_file env \<noteq> None \<longrightarrow> (\<forall>q\<in>set (proxies_of k cfg env). from_url q = None)) \<and>
   (sources_file env \<noteq> None \<and> 0 \<le> CONCURRENCY cfg \<longrightarrow> main cfg env \<noteq> Raises e) \<and>
   (sources_file env \<noteq> None \<and> 0 < CONCURRENCY cfg \<longrightarrow>
      (\<exists>out. main cfg (one_by_one_env cfg env) = Returns out)) \<and>
   (sources_file env \<noteq> None \<and> 0 < CONCURRENCY cfg \<and> main cfg env \<noteq> NotARun \<longrightarrow>
      (\<exists>out. main cfg env = Returns out \<and>
         working (counts_http out) = length (http_txt out) \<and>
         working (counts_https out) = length (https_txt out) \<and>
         working (counts_socks4 out) = length (socks4_txt out) \<and>
         working (counts_socks5 out) = length (socks5_txt out) \<and>
         ((\<forall>q\<in>set (proxies_of Http cfg env). http_ms_of cfg env q = None) \<longrightarrow>
            http_txt out = [] \<and> working (counts_http out) = 0) \<and>
         ((\<forall>q\<in>set (proxies_of Http cfg env). https_ms_of cfg env q = None) \<longrightarrow>
            https_txt out = http_txt out \<and>
            working (counts_https out) = length (http_txt out)) \<and>
         ((\<forall>q\<in>set (proxies_of Http cfg env).
              http_ms_of cfg env q = None \<and> https_ms_of cfg env q = None) \<longrightarrow>
            https_txt out = [] \<and> working (counts_https out) = 0) \<and>
         ((\<forall>q\<in>set (proxies_of Socks4 cfg env). socks_ms_of cfg env q = None) \<longrightarrow>
            socks4_txt out = [] \<and> working (counts_socks4 out) = 0) \<and>
         ((\<forall>q\<in>set (proxies_of Socks5 cfg env). socks_ms_of cfg env q = None) \<longrightarrow>
            socks5_txt out = [] \<and> working (counts_socks5 out) = 0)))"
proof (intro conjI impI)
  assume "\<not> succeeded (nw t p TEST_URL_HTTP)"
  then show "fst (fst (check_forward_proxy nw p t w)) = None"
    by (auto simp add: Let_def eval_probe succeeded_def split: reply.splits)
next
  assume "\<not> succeeded (nw t p TEST_URL_HTTPS)"
  then show "snd (fst (check_forward_proxy nw p t w)) = None"
    by (auto simp add: Let_def eval_probe succeeded_def split: reply.splits)
next
  assume "\<not> succeeded (nw t p TEST_URL_HTTPS) \<and> \<not> succeeded (nw t p TEST_URL_HTTP)"
  then show "fst (check_socks nw p t w) = None"
    by (auto simp add: Let_def eval_probe succeeded_def split: reply.splits)
next
  assume "0 \<le> c"
  then show "validate_forward nw bt sched ps t c \<noteq> Raises e"
    by (rule validate_forward_not_Raises)
next
  assume "0 \<le> c \<and> (\<forall>q\<in>set ps. from_url q = None)"
  then show "validate_socks nw bt sched ps t c \<noteq> Raises e"
    by (simp add: validate_socks_not_Raises)
next
  assume "0 < c \<and> i < length ps \<and> from_url (ps ! i) = Some e"
  then show "validate_socks nw bt (Enter i # sched) ps t c = Raises e"
    by (simp add: validate_socks_Raises)
next
  assume "0 < c"
  then show "\<exists>r. validate_forward nw bt (one_by_one (length ps)) ps t c = Returns r"
    by (rule validate_forward_one_by_one)
next
  assume "0 < c \<and> (\<forall>q\<in>set ps. from_url q = None)"
  then show "\<exists>r. validate_socks nw bt (one_by_one (length ps)) ps t c = Returns r"
    by (simp add: validate_socks_one_by_one)
next
  assume "sources_file env \<noteq> None"
  then show "\<forall>q\<in>set (proxies_of k cfg env). from_url q = None"
    by (rule proxies_of_from_url)
next
  assume "sources_file env \<noteq> None \<and> 0 \<le> CONCURRENCY cfg"
  then show "main cfg env \<noteq> Raises e"
    by (simp add: main_not_Raises)
next
  assume "sources_file env \<noteq> None \<and> 0 < CONCURRENCY cfg"
  then show "\<exists>out. main cfg (one_by_one_env cfg env) = Returns out"
    by (simp add: main_one_by_one)
next
  assume a: "sources_file env \<noteq> None \<and> 0 < CONCURRENCY cfg \<and> main cfg env \<noteq> NotARun"
  then obtain out where m: "main cfg env = Returns out"
    using main_completes by blast
  from main_Returns [OF m] obtain fwd s4 s5 where
    f: "forward_validation cfg env = Returns fwd" and
    v4: "socks_validation Socks4 cfg env = Returns s4" and
    v5: "socks_validation Socks5 cfg env = Returns s5" and
    out: "out = publish (candidates_of Http cfg env) (candidates_of Socks4 cfg env)
                   (candidates_of Socks5 cfg env) (fst fwd) (fst (snd fwd)) s4 s5"
    by blast
  note f' = f [unfolded forward_validation_def]
  have counts: "working (counts_http out) = length (http_txt out)"
    "working (counts_https out) = length (https_txt out)"
    "working (counts_socks4 out) = length (socks4_txt out)"
    "working (counts_socks5 out) = length (socks5_txt out)"
    by (simp_all add: out publish_def Let_def)
  have http: "http_txt out = []"
    if "\<forall>q\<in>set (proxies_of Http cfg env). http_ms_of cfg env q = None"
    using validate_forward_no_http [OF f'] that
    by (simp add: out publish_def Let_def http_ms_of_def)
  have fallback: "https_txt out = http_txt out"
    if "\<forall>q\<in>set (proxies_of Http cfg env). https_ms_of cfg env q = None"
  proof -
    from validate_forward_none_https [OF f'] that have "fst (snd fwd) = []"
      by (simp add: https_ms_of_def)
    then show ?thesis
      by (cases "fst fwd = []") (simp_all add: out publish_def Let_def)
  qed
  have https: "https_txt out = []"
    if "\<forall>q\<in>set (proxies_of Http cfg env).
          http_ms_of cfg env q = None \<and> https_ms_of cfg env q = None"
    using validate_forward_no_http [OF f'] validate_forward_none_https [OF f'] that
    by (simp add: out publish_def Let_def http_ms_of_def https_ms_of_def)
  have socks: "ok = []"
    if "socks_validation k cfg env = Returns ok"
      and "\<forall>q\<in>set (proxies_of k cfg env). socks_ms_of cfg env q = None" for k ok
    using validate_socks_no_outcome [OF that(1) [unfolded socks_validation_def]] that(2)
    by (simp add: socks_ms_of_def)
  have s4: "socks4_txt out = []"
    if "\<forall>q\<in>set (proxies_of Socks4 cfg env). socks_ms_of cfg env q = None"
    using socks [OF v4 that] by (simp add: out publish_def Let_def)
  have s5: "socks5_txt out = []"
    if "\<forall>q\<in>set (proxies_of Socks5 cfg env). socks_ms_of cfg env q = None"
    using socks [OF v5 that] by (simp add: out publish_def Let_def)
  from m counts http fallback https s4 s5
  show "\<exists>out. main cfg env = Returns out \<and>
         working (counts_http out) = length (http_txt out) \<and>
         working (counts_https out) = length (https_txt out) \<and>
         working (counts_socks4 out) = length (socks4_txt out) \<and>
         working (counts_socks5 out) = length (socks5_txt out) \<and>
         ((\<forall>q\<in>set (proxies_of Http cfg env). http_ms_of cfg env q = None) \<longrightarrow>
            http_txt out = [] \<and> working (counts_http out) = 0) \<and>
         ((\<forall>q\<in>set (proxies_of Http cfg env). https_ms_of cfg env q = None) \<longrightarrow>
            https_txt out = http_txt out \<and>
            working (counts_https out) = length (http_txt out)) \<and>
         ((\<forall>q\<in>set (proxies_of Http cfg env).
              http_ms_of cfg env q = None \<and> https_ms_of cfg env q = None) \<longrightarrow>
            https_txt out = [] \<and> working (counts_https out) = 0) \<and>
         ((\<forall>q\<in>set (proxies_of Socks4 cfg env). socks_ms_of cfg env q = None) \<longrightarrow>
            socks4_txt out = [] \<and> working (counts_socks4 out) = 0) \<and>
         ((\<forall>q\<in>set (proxies_of Socks5 cfg env). socks_ms_of cfg env q = None) \<longrightarrow>
            socks5_txt out = [] \<and> working (counts_socks5 out) = 0)"
    by (intro exI [of _ out]) simp
qed

lemma https_only_socks5:
  "proxies_of Socks5 scenario_cfg https_only_env
     = [\<lparr>ptype = Socks5, host = ''7.7.7.7'', port = 1080\<rparr>,
        \<lparr>ptype = Socks5, host = ''8.8.8.8'', port = 1080\<rparr>,
        \<lparr>ptype = Socks5, host = ''9.9.9.9'', port = 1080\<rparr>]"
  "\<not> succeeded (https_only_net 8 \<lparr>ptype = Socks5, host = ''7.7.7.7'', port = 1080\<rparr> TEST_URL_HTTPS)"
  "\<not> succeeded (https_only_net 8 \<lparr>ptype = Socks5, host = ''7.7.7.7'', port = 1080\<rparr> TEST_URL_HTTP)"
  "socks_ms_of scenario_cfg https_only_env \<lparr>ptype = Socks5, host = ''7.7.7.7'', port = 1080\<rparr> = None"
  "socks_ms_of scenario_cfg https_only_env \<lparr>ptype = Socks5, host = ''8.8.8.8'', port = 1080\<rparr> = None"
  "socks_ms_of scenario_cfg https_only_env \<lparr>ptype = Socks5, host = ''9.9.9.9'', port = 1080\<rparr> = None"
proof -
  show "proxies_of Socks5 scenario_cfg https_only_env
     = [\<lparr>ptype = Socks5, host = ''7.7.7.7'', port = 1080\<rparr>,
        \<lparr>ptype = Socks5, host = ''8.8.8.8'', port = 1080\<rparr>,
        \<lparr>ptype = Socks5, host = ''9.9.9.9'', port = 1080\<rparr>]"
    by (simp only: proxies_of_def candidates_of_def https_only_env_simps scenario_scraped
        run_steps)
qed (simp_all add: succeeded_def socks_ms_of_def https_only_env_simps scenario_cfg_simps
    eval_probe https_only_net_def scenario_boot_def)

lemma connectors:
  "from_url \<lparr>ptype = Socks5, host = ''7.7.7.7'', port = 1080\<rparr> = None"
  "from_url \<lparr>ptype = Socks5, host = ''8.8.8.8'', port = 1080\<rparr> = None"
  "from_url \<lparr>ptype = Socks5, host = ''9.9.9.9'', port = 1080\<rparr> = None"
  "from_url \<lparr>ptype = Socks5, host = ''7.7.7.7'', port = 70000\<rparr> = Some ValueError"
  by (simp_all add: from_url_def)

lemma scenario_forward_failures:
  "\<not> succeeded (scenario_net 8 \<lparr>ptype = Http, host = ''5.6.7.8'', port = 3128\<rparr> TEST_URL_HTTP)"
  "\<not> succeeded (scenario_net 8 \<lparr>ptype = Http, host = ''5.6.7.8'', port = 3128\<rparr> TEST_URL_HTTPS)"
  by (simp_all add: succeeded_def scenario_net_def)

theorem error_absorption_witness:
  "\<not> succeeded (scenario_net 8 \<lparr>ptype = Http, host = ''5.6.7.8'', port = 3128\<rparr> TEST_URL_HTTP) \<and>
   fst (fst (check_forward_proxy scenario_net \<lparr>ptype = Http, host = ''5.6.7.8'', port = 3128\<rparr> 8
               \<lparr>clock = 0, sessions = 0, requests = []\<rparr>)) = None \<and>
   \<not> succeeded (scenario_net 8 \<lparr>ptype = Http, host = ''5.6.7.8'', port = 3128\<rparr> TEST_URL_HTTPS) \<and>
   snd (fst (check_forward_proxy scenario_net \<lparr>ptype = Http, host = ''5.6.7.8'', port = 3128\<rparr> 8
               \<lparr>clock = 0, sessions = 0, requests = []\<rparr>)) = None \<and>
   \<not> succeeded (https_only_net 8 \<lparr>ptype = Socks5, host = ''7.7.7.7'', port = 1080\<rparr> TEST_URL_HTTPS) \<and>
   \<not> succeeded (https_only_net 8 \<lparr>ptype = Socks5, host = ''7.7.7.7'', port = 1080\<rparr> TEST_URL_HTTP) \<and>
   fst (check_socks https_only_net \<lparr>ptype = Socks5, host = ''7.7.7.7'', port = 1080\<rparr> 8
          \<lparr>clock = 0, sessions = 0, requests = []\<rparr>) = None \<and>
   sources_file https_only_env \<noteq> None \<and> 0 < CONCURRENCY scenario_cfg \<and>
   main scenario_cfg https_only_env \<noteq> NotARun \<and>
   main scenario_cfg https_only_env = Returns https_only_published \<and>
   socks_ms_of scenario_cfg https_only_env \<lparr>ptype = Socks5, host = ''7.7.7.7'', port = 1080\<rparr> = None \<and>
   socks_ms_of scenario_cfg https_only_env \<lparr>ptype = Socks5, host = ''8.8.8.8'', port = 1080\<rparr> = None \<and>
   socks_ms_of scenario_cfg https_only_env \<lparr>ptype = Socks5, host = ''9.9.9.9'', port = 1080\<rparr> = None \<and>
   socks5_txt https_only_published = [] \<and>
   working (counts_socks5 https_only_published) = 0 \<and>
   candidates (counts_socks5 https_only_published) = 3 \<and>
   from_url \<lparr>ptype = Socks5, host = ''7.7.7.7'', port = 1080\<rparr> = None \<and>
   from_url \<lparr>ptype = Socks5, host = ''8.8.8.8'', port = 1080\<rparr> = None \<and>
   from_url \<lparr>ptype = Socks5, host = ''9.9.9.9'', port = 1080\<rparr> = None \<and>
   (\<exists>r. validate_socks https_only_net scenario_boot (one_by_one 3)
          [\<lparr>ptype = Socks5, host = ''7.7.7.7'', port = 1080\<rparr>,
           \<lparr>ptype = Socks5, host = ''8.8.8.8'', port = 1080\<rparr>,
           \<lparr>ptype = Socks5, host = ''9.9.9.9'', port = 1080\<rparr>] 8 1 = Returns r) \<and>
   from_url \<lparr>ptype = Socks5, host = ''7.7.7.7'', port = 70000\<rparr> = Some ValueError \<and>
   validate_socks scenario_net scenario_boot [Enter 0]
     [\<lparr>ptype = Socks5, host = ''7.7.7.7'', port = 70000\<rparr>] 8 200 = Raises ValueError \<and>
   sources_file scenario_env \<noteq> None \<and>
   main scenario_cfg scenario_env \<noteq> NotARun \<and>
   main scenario_cfg scenario_env = Returns scenario_published \<and>
   https_ms_of scenario_cfg scenario_env \<lparr>ptype = Http, host = ''1.2.3.4'', port = 8080\<rparr> = None \<and>
   https_ms_of scenario_cfg scenario_env \<lparr>ptype = Http, host = ''5.6.7.8'', port = 3128\<rparr> = None \<and>
   https_txt scenario_published = http_txt scenario_published \<and>
   working (counts_https scenario_published) = length (http_txt scenario_published) \<and>
   (\<exists>out. main scenario_cfg (one_by_one_env scenario_cfg scenario_env) = Returns out)"
proof -
  note e = error_absorption [where nw = https_only_net and t = 8
      and p = "\<lparr>ptype = Socks5, host = ''7.7.7.7'', port = 1080\<rparr>"
      and w = "\<lparr>clock = 0, sessions = 0, requests = []\<rparr>" and c = 1 and bt = scenario_boot
      and ps = "[\<lparr>ptype = Socks5, host = ''7.7.7.7'', port = 1080\<rparr>,
                 \<lparr>ptype = Socks5, host = ''8.8.8.8'', port = 1080\<rparr>,
                 \<lparr>ptype = Socks5, host = ''9.9.9.9'', port = 1080\<rparr>]"
      and env = https_only_env and cfg = scenario_cfg]
  note d = error_absorption [where nw = scenario_net and t = 8 and c = 200
      and p = "\<lparr>ptype = Http, host = ''5.6.7.8'', port = 3128\<rparr>"
      and w = "\<lparr>clock = 0, sessions = 0, requests = []\<rparr>"
      and bt = scenario_boot and i = 0 and e = ValueError and sched = "[]"
      and ps = "[\<lparr>ptype = Socks5, host = ''7.7.7.7'', port = 70000\<rparr>]"
      and env = scenario_env and cfg = scenario_cfg]
  note e3 = e [THEN conjunct2, THEN conjunct2, THEN conjunct1]
  note e8 = e [THEN conjunct2, THEN conjunct2, THEN conjunct2, THEN conjunct2, THEN conjunct2,
      THEN conjunct2, THEN conjunct2, THEN conjunct1]
  note e11 = e [THEN conjunct2, THEN conjunct2, THEN conjunct2, THEN conjunct2, THEN conjunct2,
      THEN conjunct2, THEN conjunct2, THEN conjunct2, THEN conjunct2, THEN conjunct2,
      THEN conjunct2]
  note d6 = d [THEN conjunct2, THEN conjunct2, THEN conjunct2, THEN conjunct2, THEN conjunct2,
      THEN conjunct1]
  note d11 = d [THEN conjunct2, THEN conjunct2, THEN conjunct2, THEN conjunct2, THEN conjunct2,
      THEN conjunct2, THEN conjunct2, THEN conjunct2, THEN conjunct2, THEN conjunct2,
      THEN conjunct2]
  note d10 = d [THEN conjunct2, THEN conjunct2, THEN conjunct2, THEN conjunct2, THEN conjunct2,
      THEN conjunct2, THEN conjunct2, THEN conjunct2, THEN conjunct2, THEN conjunct2,
      THEN conjunct1]
  from d [THEN conjunct1, THEN mp, OF scenario_forward_failures(1)]
  have 12: "fst (fst (check_forward_proxy scenario_net \<lparr>ptype = Http, host = ''5.6.7.8'', port = 3128\<rparr> 8
               \<lparr>clock = 0, sessions = 0, requests = []\<rparr>)) = None" .
  from d [THEN conjunct2, THEN conjunct1, THEN mp, OF scenario_forward_failures(2)]
  have 13: "snd (fst (check_forward_proxy scenario_net \<lparr>ptype = Http, host = ''5.6.7.8'', port = 3128\<rparr> 8
               \<lparr>clock = 0, sessions = 0, requests = []\<rparr>)) = None" .
  have 1: "sources_file https_only_env \<noteq> None"
    by (simp add: https_only_env_simps scenario_env_def)
  have 2: "0 < CONCURRENCY scenario_cfg" by (simp add: scenario_cfg_simps)
  have 3: "main scenario_cfg https_only_env \<noteq> NotARun" by (simp add: https_only_run)
  from https_only_socks5(2,3)
  have "\<not> succeeded (https_only_net 8 \<lparr>ptype = Socks5, host = ''7.7.7.7'', port = 1080\<rparr> TEST_URL_HTTPS) \<and>
        \<not> succeeded (https_only_net 8 \<lparr>ptype = Socks5, host = ''7.7.7.7'', port = 1080\<rparr> TEST_URL_HTTP)"
    by (intro conjI)
  from e3 [THEN mp, OF this]
  have 4: "fst (check_socks https_only_net \<lparr>ptype = Socks5, host = ''7.7.7.7'', port = 1080\<rparr> 8
          \<lparr>clock = 0, sessions = 0, requests = []\<rparr>) = None" .
  from 1 2 3 have "sources_file https_only_env \<noteq> None \<and> 0 < CONCURRENCY scenario_cfg \<and>
        main scenario_cfg https_only_env \<noteq> NotARun"
    by (intro conjI)
  from e11 [THEN mp, OF this] obtain out where
    o: "main scenario_cfg https_only_env = Returns out" and
    z: "(\<forall>q\<in>set (proxies_of Socks5 scenario_cfg https_only_env).
           socks_ms_of scenario_cfg https_only_env q = None) \<longrightarrow>
        socks5_txt out = [] \<and> working (counts_socks5 out) = 0"
    by (elim exE conjE)
  from o have out: "out = https_only_published" by (simp add: https_only_run)
  from z have 5: "socks5_txt https_only_published = []"
    "working (counts_socks5 https_only_published) = 0"
    by (simp_all add: out https_only_socks5)
  have 6: "candidates (counts_socks5 https_only_published) = 3"
    by (simp add: https_only_published_def)
  from connectors(1,2,3)
  have "0 < (1 :: int) \<and> (\<forall>q\<in>set [\<lparr>ptype = Socks5, host = ''7.7.7.7'', port = 1080\<rparr>,
                 \<lparr>ptype = Socks5, host = ''8.8.8.8'', port = 1080\<rparr>,
                 \<lparr>ptype = Socks5, host = ''9.9.9.9'', port = 1080\<rparr>]. from_url q = None)"
    by simp
  from e8 [THEN mp, OF this]
  have 7: "\<exists>r. validate_socks https_only_net scenario_boot (one_by_one 3)
          [\<lparr>ptype = Socks5, host = ''7.7.7.7'', port = 1080\<rparr>,
           \<lparr>ptype = Socks5, host = ''8.8.8.8'', port = 1080\<rparr>,
           \<lparr>ptype = Socks5, host = ''9.9.9.9'', port = 1080\<rparr>] 8 1 = Returns r"
    by (simp add: eval_nat_numeral)
  from connectors(4)
  have "0 < (200 :: int) \<and> 0 < length [\<lparr>ptype = Socks5, host = ''7.7.7.7'', port = 70000\<rparr>] \<and>
        from_url ([\<lparr>ptype = Socks5, host = ''7.7.7.7'', port = 70000\<rparr>] ! 0) = Some ValueError"
    by simp
  from d6 [THEN mp, OF this]
  have 8: "validate_socks scenario_net scenario_boot [Enter 0]
     [\<lparr>ptype = Socks5, host = ''7.7.7.7'', port = 70000\<rparr>] 8 200 = Raises ValueError" .
  have 9: "sources_file scenario_env \<noteq> None" by (simp add: scenario_env_def)
  have 10: "main scenario_cfg scenario_env \<noteq> NotARun" by (simp add: scenario_run)
  from 9 2 10 have "sources_file scenario_env \<noteq> None \<and> 0 < CONCURRENCY scenario_cfg \<and>
        main scenario_cfg scenario_env \<noteq> NotARun"
    by (intro conjI)
  from d11 [THEN mp, OF this] obtain out' where
    o': "main scenario_cfg scenario_env = Returns out'" and
    z': "(\<forall>q\<in>set (proxies_of Http scenario_cfg scenario_env).
            https_ms_of scenario_cfg scenario_env q = None) \<longrightarrow>
         https_txt out' = http_txt out' \<and>
         working (counts_https out') = length (http_txt out')"
    by (elim exE conjE)
  from o' have out': "out' = scenario_published" by (simp add: scenario_run)
  from z' have 11: "https_txt scenario_published = http_txt scenario_published"
    "working (counts_https scenario_published) = length (http_txt scenario_published)"
    by (simp_all add: out' scenario_forward_proxies scenario_forward_probes)
  from 9 2 have "sources_file scenario_env \<noteq> None \<and> 0 < CONCURRENCY scenario_cfg"
    by (intro conjI)
  from d10 [THEN mp, OF this]
  have 14: "\<exists>out. main scenario_cfg (one_by_one_env scenario_cfg scenario_env) = Returns out" .
  from scenario_forward_failures(1) 12 scenario_forward_failures(2) 13
    https_only_socks5(2,3) 4 1 2 3 https_only_run https_only_socks5(4,5,6) 5 6
    connectors(1,2,3) 7 connectors(4) 8 9 10 scenario_run scenario_forward_probes(2,4) 11 14
  show ?thesis by (intro conjI)
qed

text \<open>
  The claim as it is stated fails at the https list: in the scenario no forward proxy
  passes the HTTPS attempt, so the run finds no working proxy for that protocol, and
  yet it publishes an https list with an entry and a working count of one.
\<close>

theorem error_absorption_counterexample:
  "main scenario_cfg scenario_env = Returns scenario_published \<and>
   proxies_of Http scenario_cfg scenario_env
     = [\<lparr>ptype = Http, host = ''1.2.3.4'', port = 8080\<rparr>,
        \<lparr>ptype = Http, host = ''5.6.7.8'', port = 3128\<rparr>] \<and>
   https_ms_of scenario_cfg scenario_env \<lparr>ptype = Http, host = ''1.2.3.4'', port = 8080\<rparr> = None \<and>
   https_ms_of scenario_cfg scenario_env \<lparr>ptype = Http, host = ''5.6.7.8'', port = 3128\<rparr> = None \<and>
   https_txt scenario_published = [''1.2.3.4:8080''] \<and>
   working (counts_https scenario_published) = 1"
  using scenario_run scenario_forward_proxies scenario_forward_probes
  by (simp add: scenario_published_def)

section \<open>The candidates behind the published entries\<close>

text \<open>
  C4, as the code has it. In every run that returns, every entry of the published http
  list is a forward candidate of the run, the \<open>host:port\<close> of a forward proxy whose
  plain-HTTP attempt succeeded, and every entry of the published socks4 and socks5
  lists is a candidate of that class, the \<open>host:port\<close> of a proxy whose probe succeeded.
  Every entry of the published https list is a forward candidate, the \<open>host:port\<close> of a
  forward proxy whose HTTPS attempt succeeded, or else no forward proxy of the run
  passed the HTTPS attempt and the entry is there by the fallback, for a proxy whose
  plain-HTTP attempt succeeded.
\<close>

theorem membership_invariant:
  assumes "main cfg env = Returns out"
  shows "(\<forall>hp\<in>set (http_txt out). hp \<in> set (candidates_of Http cfg env) \<and>
            (\<exists>p\<in>set (proxies_of Http cfg env).
               hostport p = hp \<and> http_ms_of cfg env p \<noteq> None)) \<and>
         (\<forall>hp\<in>set (https_txt out). hp \<in> set (candidates_of Http cfg env) \<and>
            (\<exists>p\<in>set (proxies_of Http cfg env).
               hostport p = hp \<and>
               (https_ms_of cfg env p \<noteq> None \<or>
                (\<forall>q\<in>set (proxies_of Http cfg env). https_ms_of cfg env q = None) \<and>
                http_ms_of cfg env p \<noteq> None))) \<and>
         (\<forall>hp\<in>set (socks4_txt out). hp \<in> set (candidates_of Socks4 cfg env) \<and>
            (\<exists>p\<in>set (proxies_of Socks4 cfg env).
               hostport p = hp \<and> socks_ms_of cfg env p \<noteq> None)) \<and>
         (\<forall>hp\<in>set (socks5_txt out). hp \<in> set (candidates_of Socks5 cfg env) \<and>
            (\<exists>p\<in>set (proxies_of Socks5 cfg env).
               hostport p = hp \<and> socks_ms_of cfg env p \<noteq> None))"
proof -
  have src: "sources_file env \<noteq> None"
  proof
    assume "sources_file env = None"
    then have "main cfg env = Raises FileNotFoundError"
      by (simp add: main_def scrape_all_sources_def read_sources_def lift_error_def bind_run_def)
    with assms show False by simp
  qed
  have cand: "hostport p \<in> set (candidates_of k cfg env)"
    if "p \<in> set (proxies_of k cfg env)" for p k
  proof -
    from that have "hostport p \<in> set (map hostport (proxies_of k cfg env))" by simp
    then show ?thesis by (simp only: proxies_of_candidates [OF src])
  qed
  from main_Returns [OF assms] obtain fwd s4 s5 where
    f: "forward_validation cfg env = Returns fwd" and
    v4: "socks_validation Socks4 cfg env = Returns s4" and
    v5: "socks_validation Socks5 cfg env = Returns s5" and
    out: "out = publish (candidates_of Http cfg env) (candidates_of Socks4 cfg env)
                   (candidates_of Socks5 cfg env) (fst fwd) (fst (snd fwd)) s4 s5"
    by blast
  note f' = f [unfolded forward_validation_def]
  have http: "\<forall>hp\<in>set (http_txt out). \<exists>p\<in>set (proxies_of Http cfg env).
            hostport p = hp \<and> http_ms_of cfg env p \<noteq> None"
  proof
    fix hp assume "hp \<in> set (http_txt out)"
    then have "hp \<in> set (fst fwd)" by (simp add: out publish_def Let_def)
    from validate_forward_http_entry [OF f' this] show
      "\<exists>p\<in>set (proxies_of Http cfg env). hostport p = hp \<and> http_ms_of cfg env p \<noteq> None"
      by (simp add: http_ms_of_def)
  qed
  have https: "\<forall>hp\<in>set (https_txt out). \<exists>p\<in>set (proxies_of Http cfg env).
            hostport p = hp \<and>
            (https_ms_of cfg env p \<noteq> None \<or>
             (\<forall>q\<in>set (proxies_of Http cfg env). https_ms_of cfg env q = None) \<and>
             http_ms_of cfg env p \<noteq> None)"
  proof
    fix hp assume hp: "hp \<in> set (https_txt out)"
    show "\<exists>p\<in>set (proxies_of Http cfg env). hostport p = hp \<and>
            (https_ms_of cfg env p \<noteq> None \<or>
             (\<forall>q\<in>set (proxies_of Http cfg env). https_ms_of cfg env q = None) \<and>
             http_ms_of cfg env p \<noteq> None)"
    proof (cases "fst (snd fwd) = []")
      case False
      with hp have "hp \<in> set (fst (snd fwd))" by (simp add: out publish_def Let_def)
      from validate_forward_https_entry [OF f' this] show ?thesis
        by (auto simp: https_ms_of_def)
    next
      case True
      with hp have "hp \<in> set (fst fwd)"
        by (simp add: out publish_def Let_def split: if_splits)
      from validate_forward_http_entry [OF f' this] obtain p where
        p: "p \<in> set (proxies_of Http cfg env)" "hostport p = hp" "http_ms_of cfg env p \<noteq> None"
        by (auto simp: http_ms_of_def)
      have "\<forall>q\<in>set (proxies_of Http cfg env). https_ms_of cfg env q = None"
        using validate_forward_no_https [OF f' True] by (simp add: https_ms_of_def)
      with p show ?thesis by blast
    qed
  qed
  have socks: "\<forall>hp\<in>set (map (\<lambda>x. hostport (fst x)) ok). \<exists>p\<in>set (proxies_of k cfg env).
            hostport p = hp \<and> socks_ms_of cfg env p \<noteq> None"
    if "socks_validation k cfg env = Returns ok" for k ok
  proof
    fix hp assume "hp \<in> set (map (\<lambda>x. hostport (fst x)) ok)"
    then obtain x where x: "x \<in> set ok" "hp = hostport (fst x)" by auto
    from validate_socks_entry [OF that [unfolded socks_validation_def] x(1)] x(2)
    show "\<exists>p\<in>set (proxies_of k cfg env). hostport p = hp \<and> socks_ms_of cfg env p \<noteq> None"
      by (auto simp: socks_ms_of_def)
  qed
  have s4: "socks4_txt out = map (\<lambda>x. hostport (fst x)) s4"
    and s5: "socks5_txt out = map (\<lambda>x. hostport (fst x)) s5"
    by (simp_all add: out publish_def Let_def)
  have add: "\<forall>hp\<in>A. hp \<in> set (candidates_of k cfg env) \<and>
               (\<exists>p\<in>set (proxies_of k cfg env). hostport p = hp \<and> Q p)"
    if "\<forall>hp\<in>A. \<exists>p\<in>set (proxies_of k cfg env). hostport p = hp \<and> Q p" for A k Q
  proof
    fix hp assume "hp \<in> A"
    with that obtain p where p: "p \<in> set (proxies_of k cfg env)" "hostport p = hp" "Q p"
      by blast
    from cand [OF p(1)] p show "hp \<in> set (candidates_of k cfg env) \<and>
               (\<exists>p\<in>set (proxies_of k cfg env). hostport p = hp \<and> Q p)"
      by blast
  qed
  show ?thesis
    unfolding s4 s5
    by (intro conjI add [OF http] add [OF https] add [OF socks [OF v4]] add [OF socks [OF v5]])
qed


theorem membership_invariant_witness:
  "main scenario_cfg scenario_env = Returns scenario_published \<and>
   ''1.2.3.4:8080'' \<in> set (http_txt scenario_published) \<and>
   (\<exists>p\<in>set (proxies_of Http scenario_cfg scenario_env).
      hostport p = ''1.2.3.4:8080'' \<and> http_ms_of scenario_cfg scenario_env p \<noteq> None) \<and>
   ''1.2.3.4:8080'' \<in> set (https_txt scenario_published) \<and>
   (\<exists>p\<in>set (proxies_of Http scenario_cfg scenario_env).
      hostport p = ''1.2.3.4:8080'' \<and> https_ms_of scenario_cfg scenario_env p = None \<and>
      http_ms_of scenario_cfg scenario_env p \<noteq> None) \<and>
   ''9.9.9.9:1080'' \<in> set (socks5_txt scenario_published) \<and>
   (\<exists>p\<in>set (proxies_of Socks5 scenario_cfg scenario_env).
      hostport p = ''9.9.9.9:1080'' \<and> socks_ms_of scenario_cfg scenario_env p \<noteq> None)"
proof -
  note m = membership_invariant [OF scenario_run]
  have a: "''1.2.3.4:8080'' \<in> set (http_txt scenario_published)"
    and b: "''1.2.3.4:8080'' \<in> set (https_txt scenario_published)"
    and c: "''9.9.9.9:1080'' \<in> set (socks5_txt scenario_published)"
    by (simp_all add: scenario_published_def)
  from m a have 1: "\<exists>p\<in>set (proxies_of Http scenario_cfg scenario_env).
      hostport p = ''1.2.3.4:8080'' \<and> http_ms_of scenario_cfg scenario_env p \<noteq> None"
    by blast
  from m c have 3: "\<exists>p\<in>set (proxies_of Socks5 scenario_cfg scenario_env).
      hostport p = ''9.9.9.9:1080'' \<and> socks_ms_of scenario_cfg scenario_env p \<noteq> None"
    by blast
  from m b have "\<exists>p\<in>set (proxies_of Http scenario_cfg scenario_env).
      hostport p = ''1.2.3.4:8080'' \<and>
      (https_ms_of scenario_cfg scenario_env p \<noteq> None \<or>
       (\<forall>q\<in>set (proxies_of Http scenario_cfg scenario_env).
           https_ms_of scenario_cfg scenario_env q = None) \<and>
       http_ms_of scenario_cfg scenario_env p \<noteq> None)"
    by blast
  then have 2: "\<exists>p\<in>set (proxies_of Http scenario_cfg scenario_env).
      hostport p = ''1.2.3.4:8080'' \<and> https_ms_of scenario_cfg scenario_env p = None \<and>
      http_ms_of scenario_cfg scenario_env p \<noteq> None"
    by (auto simp: scenario_forward_proxies scenario_forward_probes)
  from scenario_run a 1 b 2 c 3 show ?thesis by (intro conjI)
qed

text \<open>
  The claim as it is stated fails at the https list: in the scenario neither forward
  proxy passes the HTTPS attempt, and the published https list has an entry.
\<close>

theorem membership_counterexample:
  "main scenario_cfg scenario_env = Returns scenario_published \<and>
   ''1.2.3.4:8080'' \<in> set (https_txt scenario_published) \<and>
   proxies_of Http scenario_cfg scenario_env
     = [\<lparr>ptype = Http, host = ''1.2.3.4'', port = 8080\<rparr>,
        \<lparr>ptype = Http, host = ''5.6.7.8'', port = 3128\<rparr>] \<and>
   https_ms_of scenario_cfg scenario_env \<lparr>ptype = Http, host = ''1.2.3.4'', port = 8080\<rparr> = None \<and>
   https_ms_of scenario_cfg scenario_env \<lparr>ptype = Http, host = ''5.6.7.8'', port = 3128\<rparr> = None"
  using scenario_run scenario_forward_proxies scenario_forward_probes
  by (simp add: scenario_published_def)

section \<open>Ranking\<close>

text \<open>
  C2, as the code has it. The list a validator returns is sorted by elapsed
  milliseconds, ascending, and the outcomes of one elapsed time stand in it in the order
  in which their probes completed: the tasks append to the shared list as they leave,
  and the sort is stable. For the forward validator the two lists of \<open>host:port\<close> strings
  are the first components of two such lists; the times are not returned. A run that
  returns publishes the http list of its forward validation as it is, the https list
  as it is unless it is empty, and for socks4 and socks5 the \<open>host:port\<close> strings of the
  lists of their validations, in the same order.
\<close>

theorem ranking_order:
  "(validate_socks nw bt sched ps t c = Returns ok \<longrightarrow>
      sorted (map snd ok) \<and>
      mset ok = mset (socks_outcomes nw bt sched ps t) \<and>
      (\<forall>ms. filter (\<lambda>x. snd x = ms) ok
            = filter (\<lambda>x. snd x = ms) (socks_outcomes nw bt sched ps t))) \<and>
   (validate_forward nw bt sched' ps' t' c' = Returns (http, https, counts) \<longrightarrow>
      (\<exists>http_ok https_ok.
         http = map fst http_ok \<and> https = map fst https_ok \<and>
         sorted (map snd http_ok) \<and> sorted (map snd https_ok) \<and>
         mset http_ok = mset (http_outcomes nw bt sched' ps' t') \<and>
         mset https_ok = mset (https_outcomes nw bt sched' ps' t') \<and>
         (\<forall>ms. filter (\<lambda>x. snd x = ms) http_ok
               = filter (\<lambda>x. snd x = ms) (http_outcomes nw bt sched' ps' t')) \<and>
         (\<forall>ms. filter (\<lambda>x. snd x = ms) https_ok
               = filter (\<lambda>x. snd x = ms) (https_outcomes nw bt sched' ps' t')))) \<and>
   (main cfg env = Returns out \<longrightarrow>
      (\<exists>fwd ok4 ok5.
         forward_validation cfg env = Returns fwd \<and>
         socks_validation Socks4 cfg env = Returns ok4 \<and>
         socks_validation Socks5 cfg env = Returns ok5 \<and>
         http_txt out = fst fwd \<and>
         (fst (snd fwd) \<noteq> [] \<longrightarrow> https_txt out = fst (snd fwd)) \<and>
         socks4_txt out = map (\<lambda>x. hostport (fst x)) ok4 \<and>
         socks5_txt out = map (\<lambda>x. hostport (fst x)) ok5))"
proof (intro conjI impI)
  assume "main cfg env = Returns out"
  from main_Returns [OF this] obtain fwd s4 s5 where
    "forward_validation cfg env = Returns fwd"
    "socks_validation Socks4 cfg env = Returns s4"
    "socks_validation Socks5 cfg env = Returns s5"
    "out = publish (candidates_of Http cfg env) (candidates_of Socks4 cfg env)
                   (candidates_of Socks5 cfg env) (fst fwd) (fst (snd fwd)) s4 s5"
    by blast
  then have "forward_validation cfg env = Returns fwd \<and>
         socks_validation Socks4 cfg env = Returns s4 \<and>
         socks_validation Socks5 cfg env = Returns s5 \<and>
         http_txt out = fst fwd \<and>
         (fst (snd fwd) \<noteq> [] \<longrightarrow> https_txt out = fst (snd fwd)) \<and>
         socks4_txt out = map (\<lambda>x. hostport (fst x)) s4 \<and>
         socks5_txt out = map (\<lambda>x. hostport (fst x)) s5"
    by (simp add: publish_def Let_def)
  then show "\<exists>fwd ok4 ok5.
         forward_validation cfg env = Returns fwd \<and>
         socks_validation Socks4 cfg env = Returns ok4 \<and>
         socks_validation Socks5 cfg env = Returns ok5 \<and>
         http_txt out = fst fwd \<and>
         (fst (snd fwd) \<noteq> [] \<longrightarrow> https_txt out = fst (snd fwd)) \<and>
         socks4_txt out = map (\<lambda>x. hostport (fst x)) ok4 \<and>
         socks5_txt out = map (\<lambda>x. hostport (fst x)) ok5"
    by (intro exI)
next
  assume r: "validate_socks nw bt sched ps t c = Returns ok"
  have ok: "ok = sort_key snd (socks_outcomes nw bt sched ps t)"
    by (rule validate_socks_Returns(1) [OF r])
  show "sorted (map snd ok)" by (simp add: ok)
  show "mset ok = mset (socks_outcomes nw bt sched ps t)" by (simp add: ok)
  show "\<forall>ms. filter (\<lambda>x. snd x = ms) ok
            = filter (\<lambda>x. snd x = ms) (socks_outcomes nw bt sched ps t)"
    by (simp add: ok sort_key_stable)
next
  assume r: "validate_forward nw bt sched' ps' t' c' = Returns (http, https, counts)"
  let ?h = "sort_key snd (http_outcomes nw bt sched' ps' t')"
  let ?s = "sort_key snd (https_outcomes nw bt sched' ps' t')"
  from validate_forward_Returns(1,2) [OF r]
  have "http = map fst ?h" "https = map fst ?s" by simp_all
  then have "http = map fst ?h \<and> https = map fst ?s \<and>
         sorted (map snd ?h) \<and> sorted (map snd ?s) \<and>
         mset ?h = mset (http_outcomes nw bt sched' ps' t') \<and>
         mset ?s = mset (https_outcomes nw bt sched' ps' t') \<and>
         (\<forall>ms. filter (\<lambda>x. snd x = ms) ?h
               = filter (\<lambda>x. snd x = ms) (http_outcomes nw bt sched' ps' t')) \<and>
         (\<forall>ms. filter (\<lambda>x. snd x = ms) ?s
               = filter (\<lambda>x. snd x = ms) (https_outcomes nw bt sched' ps' t'))"
    by (simp add: sort_key_stable)
  then show "\<exists>http_ok https_ok.
         http = map fst http_ok \<and> https = map fst https_ok \<and>
         sorted (map snd http_ok) \<and> sorted (map snd https_ok) \<and>
         mset http_ok = mset (http_outcomes nw bt sched' ps' t') \<and>
         mset https_ok = mset (https_outcomes nw bt sched' ps' t') \<and>
         (\<forall>ms. filter (\<lambda>x. snd x = ms) http_ok
               = filter (\<lambda>x. snd x = ms) (http_outcomes nw bt sched' ps' t')) \<and>
         (\<forall>ms. filter (\<lambda>x. snd x = ms) https_ok
               = filter (\<lambda>x. snd x = ms) (https_outcomes nw bt sched' ps' t'))"
    by blast
qed

theorem ranking_order_witness:
  "validate_socks scenario_net scenario_boot [Enter 0, Enter 1, Enter 2, Leave 2, Leave 1, Leave 0]
     [\<lparr>ptype = Socks5, host = ''7.7.7.7'', port = 1080\<rparr>,
      \<lparr>ptype = Socks5, host = ''8.8.8.8'', port = 1080\<rparr>,
      \<lparr>ptype = Socks5, host = ''9.9.9.9'', port = 1080\<rparr>] 8 200
   = Returns [(\<lparr>ptype = Socks5, host = ''9.9.9.9'', port = 1080\<rparr>, 10),
              (\<lparr>ptype = Socks5, host = ''8.8.8.8'', port = 1080\<rparr>, 30)] \<and>
   sorted (map snd [(\<lparr>ptype = Socks5, host = ''9.9.9.9'', port = 1080\<rparr>, 10 :: real),
                    (\<lparr>ptype = Socks5, host = ''8.8.8.8'', port = 1080\<rparr>, 30)]) \<and>
   validate_forward ties_net scenario_boot [Enter 0, Enter 1, Leave 1, Leave 0]
     [\<lparr>ptype = Http, host = ''1.2.3.4'', port = 8080\<rparr>,
      \<lparr>ptype = Http, host = ''5.6.7.8'', port = 3128\<rparr>] 8 200
   = Returns ([''5.6.7.8:3128'', ''1.2.3.4:8080''], [], 2, 0) \<and>
   main scenario_cfg scenario_env = Returns scenario_published \<and>
   socks_validation Socks5 scenario_cfg scenario_env
     = Returns [(\<lparr>ptype = Socks5, host = ''9.9.9.9'', port = 1080\<rparr>, 10),
                (\<lparr>ptype = Socks5, host = ''8.8.8.8'', port = 1080\<rparr>, 30)] \<and>
   socks5_txt scenario_published
     = map (\<lambda>x. hostport (fst x))
         [(\<lparr>ptype = Socks5, host = ''9.9.9.9'', port = 1080\<rparr>, 10 :: real),
          (\<lparr>ptype = Socks5, host = ''8.8.8.8'', port = 1080\<rparr>, 30)] \<and>
   (\<exists>http_ok. [''5.6.7.8:3128'', ''1.2.3.4:8080''] = map fst http_ok \<and>
      sorted (map snd http_ok) \<and>
      filter (\<lambda>x. snd x = 50) http_ok
        = filter (\<lambda>x. snd x = 50)
            (http_outcomes ties_net scenario_boot [Enter 0, Enter 1, Leave 1, Leave 0]
               [\<lparr>ptype = Http, host = ''1.2.3.4'', port = 8080\<rparr>,
                \<lparr>ptype = Http, host = ''5.6.7.8'', port = 3128\<rparr>] 8))"
proof -
  note s = scenario_validate_socks5 and f = ties_validate_forward
  have v5: "socks_validation Socks5 scenario_cfg scenario_env
     = Returns [(\<lparr>ptype = Socks5, host = ''9.9.9.9'', port = 1080\<rparr>, 10),
                (\<lparr>ptype = Socks5, host = ''8.8.8.8'', port = 1080\<rparr>, 30)]"
    by (simp only: socks_validation_def schedule_of_def proxies_of_def candidates_of_def
        scenario_scraped run_steps scenario_env_simps scenario_validate_socks5)
  from ranking_order [THEN conjunct2, THEN conjunct2, THEN mp, OF scenario_run]
  obtain ok5 where "socks_validation Socks5 scenario_cfg scenario_env = Returns ok5"
    and "socks5_txt scenario_published = map (\<lambda>x. hostport (fst x)) ok5"
    by blast
  with v5 have p5: "socks5_txt scenario_published
     = map (\<lambda>x. hostport (fst x))
         [(\<lparr>ptype = Socks5, host = ''9.9.9.9'', port = 1080\<rparr>, 10 :: real),
          (\<lparr>ptype = Socks5, host = ''8.8.8.8'', port = 1080\<rparr>, 30)]"
    by simp
  have a: "sorted (map snd [(\<lparr>ptype = Socks5, host = ''9.9.9.9'', port = 1080\<rparr>, 10 :: real),
                    (\<lparr>ptype = Socks5, host = ''8.8.8.8'', port = 1080\<rparr>, 30)])"
    using ranking_order [THEN conjunct1, THEN mp, OF s] by (rule conjunct1)
  have "\<exists>http_ok https_ok.
         [''5.6.7.8:3128'', ''1.2.3.4:8080''] = map fst http_ok \<and> [] = map fst https_ok \<and>
         sorted (map snd http_ok) \<and> sorted (map snd https_ok) \<and>
         mset http_ok = mset (http_outcomes ties_net scenario_boot [Enter 0, Enter 1, Leave 1, Leave 0]
               [\<lparr>ptype = Http, host = ''1.2.3.4'', port = 8080\<rparr>,
                \<lparr>ptype = Http, host = ''5.6.7.8'', port = 3128\<rparr>] 8) \<and>
         mset https_ok = mset (https_outcomes ties_net scenario_boot [Enter 0, Enter 1, Leave 1, Leave 0]
               [\<lparr>ptype = Http, host = ''1.2.3.4'', port = 8080\<rparr>,
                \<lparr>ptype = Http, host = ''5.6.7.8'', port = 3128\<rparr>] 8) \<and>
         (\<forall>ms. filter (\<lambda>x. snd x = ms) http_ok
               = filter (\<lambda>x. snd x = ms) (http_outcomes ties_net scenario_boot [Enter 0, Enter 1, Leave 1, Leave 0]
               [\<lparr>ptype = Http, host = ''1.2.3.4'', port = 8080\<rparr>,
                \<lparr>ptype = Http, host = ''5.6.7.8'', port = 3128\<rparr>] 8)) \<and>
         (\<forall>ms. filter (\<lambda>x. snd x = ms) https_ok
               = filter (\<lambda>x. snd x = ms) (https_outcomes ties_net scenario_boot [Enter 0, Enter 1, Leave 1, Leave 0]
               [\<lparr>ptype = Http, host = ''1.2.3.4'', port = 8080\<rparr>,
                \<lparr>ptype = Http, host = ''5.6.7.8'', port = 3128\<rparr>] 8))"
    by (rule ranking_order [THEN conjunct2, THEN conjunct1, THEN mp, OF f])
  then obtain http_ok where
    1: "[''5.6.7.8:3128'', ''1.2.3.4:8080''] = map fst http_ok" and
    2: "sorted (map snd http_ok)" and
    3: "\<forall>ms. filter (\<lambda>x. snd x = ms) http_ok
               = filter (\<lambda>x. snd x = ms) (http_outcomes ties_net scenario_boot [Enter 0, Enter 1, Leave 1, Leave 0]
               [\<lparr>ptype = Http, host = ''1.2.3.4'', port = 8080\<rparr>,
                \<lparr>ptype = Http, host = ''5.6.7.8'', port = 3128\<rparr>] 8)"
    by (elim exE conjE)
  from 3 have 4: "filter (\<lambda>x. snd x = 50) http_ok
        = filter (\<lambda>x. snd x = 50)
            (http_outcomes ties_net scenario_boot [Enter 0, Enter 1, Leave 1, Leave 0]
               [\<lparr>ptype = Http, host = ''1.2.3.4'', port = 8080\<rparr>,
                \<lparr>ptype = Http, host = ''5.6.7.8'', port = 3128\<rparr>] 8)"
    by (rule spec)
  from 1 2 4 have b: "\<exists>http_ok. [''5.6.7.8:3128'', ''1.2.3.4:8080''] = map fst http_ok \<and>
      sorted (map snd http_ok) \<and>
      filter (\<lambda>x. snd x = 50) http_ok
        = filter (\<lambda>x. snd x = 50)
            (http_outcomes ties_net scenario_boot [Enter 0, Enter 1, Leave 1, Leave 0]
               [\<lparr>ptype = Http, host = ''1.2.3.4'', port = 8080\<rparr>,
                \<lparr>ptype = Http, host = ''5.6.7.8'', port = 3128\<rparr>] 8)"
    by (intro exI conjI)
  from s f a scenario_run v5 p5 b show ?thesis by (intro conjI)
qed

text \<open>
  The claim as it is stated fails: two forward candidates answer the plain-HTTP test in
  the same 50 ms, and the one that is second in the candidate order stands first in the
  list, because its probe completed first.
\<close>

theorem ranking_ties_counterexample:
  "validate_forward ties_net scenario_boot [Enter 0, Enter 1, Leave 1, Leave 0]
     [\<lparr>ptype = Http, host = ''1.2.3.4'', port = 8080\<rparr>,
      \<lparr>ptype = Http, host = ''5.6.7.8'', port = 3128\<rparr>] 8 200
   = Returns ([''5.6.7.8:3128'', ''1.2.3.4:8080''], [], 2, 0) \<and>
   fst (fst (check_forward_proxy ties_net \<lparr>ptype = Http, host = ''1.2.3.4'', port = 8080\<rparr> 8
          (scenario_boot \<lparr>ptype = Http, host = ''1.2.3.4'', port = 8080\<rparr>))) = Some 50 \<and>
   fst (fst (check_forward_proxy ties_net \<lparr>ptype = Http, host = ''5.6.7.8'', port = 3128\<rparr> 8
          (scenario_boot \<lparr>ptype = Http, host = ''5.6.7.8'', port = 3128\<rparr>))) = Some 50 \<and>
   hostport \<lparr>ptype = Http, host = ''1.2.3.4'', port = 8080\<rparr> = ''1.2.3.4:8080'' \<and>
   hostport \<lparr>ptype = Http, host = ''5.6.7.8'', port = 3128\<rparr> = ''5.6.7.8:3128'' \<and>
   ''1.2.3.4:8080'' < ''5.6.7.8:3128''"
  using ties_validate_forward
  by (simp add: eval_probe eval_string ties_net_def scenario_boot_def hostport_def)

end
